(* ===== verification/Prelude.thy ===== *)
theory Prelude
  imports Main "HOL-Library.Word" "HOL-Library.AList"
begin

text \<open>
  Shared vocabulary of the development: the machine types the C++ sources use, the
  collections of simplification rules the component theories fill, and generic facts on
  majorities, machine words, association lists and folds that several components need.
\<close>

section \<open>Machine types\<close>

type_synonym u8 = "8 word"
type_synonym u16 = "16 word"
type_synonym u32 = "32 word"
type_synonym u64 = "64 word"

text \<open>A \<^verbatim>\<open>std::string\<close> that carries serialised data is a list of bytes.\<close>

type_synonym bytes = "u8 list"

text \<open>
  \<open>frame_simps\<close> collects equations that say which state an operation leaves alone,
  \<open>op_defs\<close> the definitions an evaluation unfolds.
\<close>

named_theorems frame_simps "state an operation does not change"
named_theorems op_defs "definitions unfolded when a concrete run is evaluated"

section \<open>Majorities\<close>

text \<open>Two subsets of a finite set that both hold more than half of it share an element.\<close>

lemma majorities_meet:
  assumes fin: "finite M" and sub: "S \<subseteq> M" "T \<subseteq> M"
    and S: "card M div 2 + 1 \<le> card S" and T: "card M div 2 + 1 \<le> card T"
  shows "\<exists>x. x \<in> S \<and> x \<in> T"
proof (rule ccontr)
  assume "\<nexists>x. x \<in> S \<and> x \<in> T"
  then have "S \<inter> T = {}" by blast
  moreover have "finite S" "finite T" using fin sub by (auto intro: finite_subset)
  ultimately have "card (S \<union> T) = card S + card T" by (simp add: card_Un_disjoint)
  moreover have "card (S \<union> T) \<le> card M" using fin sub by (simp add: card_mono)
  ultimately show False using S T by linarith
qed

section \<open>Machine words\<close>

lemma word_plus_one_neq [simp]: "(x :: 'a::len word) + 1 \<noteq> x"
  by simp

lemma unat_inc_u64: "(x :: u64) < y \<Longrightarrow> unat (x + 1) = unat x + 1"
  by unat_arith

lemma inc_le_u64: "(x :: u64) < y \<Longrightarrow> x + 1 \<le> y"
  by (simp add: inc_le)

lemma inc_le_iff_u64: "(a :: u64) < b \<Longrightarrow> a + 1 \<le> x \<longleftrightarrow> a < x"
  by unat_arith

lemma less_inc_u64: "(i :: u64) < c + 1 \<Longrightarrow> i \<le> c"
  by unat_arith

lemma less_plus_one_u64: "(x :: u64) \<noteq> - 1 \<Longrightarrow> x < x + 1"
proof -
  assume "x \<noteq> - 1"
  then have "x < - 1" by (simp add: word_order.not_eq_extremum)
  from unat_inc_u64 [OF this] show ?thesis by (simp add: word_less_nat_alt)
qed

section \<open>Folds that keep an invariant\<close>

lemma fold_keeps:
  assumes "\<And>x s. x \<in> set xs \<Longrightarrow> I s \<Longrightarrow> I (f x s)" and "I s"
  shows "I (fold f xs s)"
  using assms by (induction xs arbitrary: s) auto

end
