(* ===== verification/Ballot.thy ===== *)
theory Ballot
  imports Prelude
begin

text \<open>
  Ballot numbers, \<^verbatim>\<open>src/paxos/ballot_number.h\<close>: a proposal number with the proposing
  node's id as the tie break. The comparison operators are written out one by one as the
  header has them; the lemmas show that they agree with each other and form a linear order,
  so that the library's order facts apply to ballots from here on.
\<close>

section \<open>The class and its operators\<close>

datatype BallotNumber = BallotNumber (GetProposalId: u64) (GetNodeId: u64)

definition Ballot_default :: BallotNumber where
  "Ballot_default = BallotNumber 0 0"

definition ballot_eq :: "BallotNumber \<Rightarrow> BallotNumber \<Rightarrow> bool" where
  "ballot_eq x y \<longleftrightarrow> GetProposalId x = GetProposalId y \<and> GetNodeId x = GetNodeId y"

definition ballot_ne :: "BallotNumber \<Rightarrow> BallotNumber \<Rightarrow> bool" where
  "ballot_ne x y \<longleftrightarrow> \<not> ballot_eq x y"

definition ballot_lt :: "BallotNumber \<Rightarrow> BallotNumber \<Rightarrow> bool" where
  "ballot_lt x y =
     (if GetProposalId x = GetProposalId y then GetNodeId x < GetNodeId y
      else GetProposalId x < GetProposalId y)"

definition ballot_gt :: "BallotNumber \<Rightarrow> BallotNumber \<Rightarrow> bool" where
  "ballot_gt x y =
     (if GetProposalId x = GetProposalId y then GetNodeId x > GetNodeId y
      else GetProposalId x > GetProposalId y)"

definition ballot_le :: "BallotNumber \<Rightarrow> BallotNumber \<Rightarrow> bool" where
  "ballot_le x y \<longleftrightarrow> ballot_eq x y \<or> ballot_lt x y"

definition ballot_ge :: "BallotNumber \<Rightarrow> BallotNumber \<Rightarrow> bool" where
  "ballot_ge x y \<longleftrightarrow> ballot_eq x y \<or> ballot_gt x y"

section \<open>A linear order\<close>

lemma ballot_eq_iff [simp]: "ballot_eq x y \<longleftrightarrow> x = y"
  by (auto simp: ballot_eq_def intro: BallotNumber.expand)

instantiation BallotNumber :: linorder
begin

definition less_eq_BallotNumber :: "BallotNumber \<Rightarrow> BallotNumber \<Rightarrow> bool" where
  "x \<le> y \<longleftrightarrow> ballot_le x y"

definition less_BallotNumber :: "BallotNumber \<Rightarrow> BallotNumber \<Rightarrow> bool" where
  "x < y \<longleftrightarrow> ballot_lt x y"

instance
proof
  fix x y z :: BallotNumber
  show "(x < y) = (x \<le> y \<and> \<not> y \<le> x)"
    by (auto simp: less_eq_BallotNumber_def less_BallotNumber_def ballot_le_def ballot_lt_def
        split: if_splits)
  show "x \<le> x"
    by (simp add: less_eq_BallotNumber_def ballot_le_def)
  show "x \<le> y \<Longrightarrow> y \<le> z \<Longrightarrow> x \<le> z"
    by (auto simp: less_eq_BallotNumber_def ballot_le_def ballot_lt_def split: if_splits)
  show "x \<le> y \<Longrightarrow> y \<le> x \<Longrightarrow> x = y"
    by (auto simp: less_eq_BallotNumber_def ballot_le_def ballot_lt_def split: if_splits)
  show "x \<le> y \<or> y \<le> x"
    by (auto simp: less_eq_BallotNumber_def ballot_le_def ballot_lt_def
        intro: BallotNumber.expand split: if_splits)
qed

end

text \<open>Each operator of the header is the corresponding relation of the order.\<close>

lemma ballot_ops [simp]:
  "ballot_ne x y \<longleftrightarrow> x \<noteq> y"
  "ballot_lt x y \<longleftrightarrow> x < y"
  "ballot_le x y \<longleftrightarrow> x \<le> y"
  "ballot_gt x y \<longleftrightarrow> y < x"
  "ballot_ge x y \<longleftrightarrow> y \<le> x"
proof -
  have gt: "ballot_gt x y \<longleftrightarrow> ballot_lt y x"
    by (auto simp: ballot_gt_def ballot_lt_def)
  show "ballot_ne x y \<longleftrightarrow> x \<noteq> y" by (simp add: ballot_ne_def)
  show "ballot_lt x y \<longleftrightarrow> x < y" by (simp add: less_BallotNumber_def)
  show "ballot_le x y \<longleftrightarrow> x \<le> y" by (simp add: less_eq_BallotNumber_def)
  show "ballot_gt x y \<longleftrightarrow> y < x" by (simp add: gt less_BallotNumber_def)
  show "ballot_ge x y \<longleftrightarrow> y \<le> x"
    by (auto simp: ballot_ge_def gt less_eq_BallotNumber_def ballot_le_def)
qed

lemma ballot_less_iff:
  "BallotNumber p n < BallotNumber q m \<longleftrightarrow> p < q \<or> p = q \<and> n < m"
  unfolding less_BallotNumber_def ballot_lt_def by auto

lemma ballot_le_iff:
  "BallotNumber p n \<le> BallotNumber q m \<longleftrightarrow> p < q \<or> p = q \<and> n \<le> m"
  unfolding less_eq_BallotNumber_def ballot_le_def ballot_lt_def by auto

text \<open>The order is well-founded, which is what an argument by induction on ballots rests on.\<close>

instance BallotNumber :: wellorder
proof
  fix P :: "BallotNumber \<Rightarrow> bool" and b
  assume step: "\<And>x. (\<And>y. y < x \<Longrightarrow> P y) \<Longrightarrow> P x"
  have "P (BallotNumber p n)" for p n
  proof (induction p arbitrary: n rule: less_induct)
    case (less p)
    note lower = less.IH
    show ?case
    proof (induction n rule: less_induct)
      case (less n)
      show ?case
      proof (rule step)
        fix y assume "y < BallotNumber p n"
        with lower less.IH show "P y" by (cases y) (auto simp: ballot_less_iff)
      qed
    qed
  qed
  then show "P b" by (cases b) simp
qed

lemma Ballot_default_le [simp]: "Ballot_default \<le> b"
  by (cases b) (auto simp: Ballot_default_def ballot_le_iff word_neq_0_conv)

text \<open>
  A ballot that is refused (it is below the promised one) is refused by a proposal number
  that is at least its own: this is what lets a refused proposer move past it.
\<close>

lemma ballot_less_proposal: "x < y \<Longrightarrow> GetProposalId x \<le> GetProposalId y"
  by (cases x; cases y) (auto simp: ballot_less_iff)

end
