(* ===== verification/Proto.thy ===== *)
theory Proto
  imports Prelude
begin

text \<open>
  The messages of \<^verbatim>\<open>src/proto/paxos.proto\<close> as records, one field per declared
  field, and their proto3 default values, which is what a freshly built message holds before
  its setters run. An enum field of proto3 is open: a received number outside the declared
  ones is kept, and reaches the \<^verbatim>\<open>default:\<close> branch of the switches; the
  constructors \<open>OTHER_...\<close> stand for those numbers.
\<close>

section \<open>Paxos messages\<close>

datatype PaxosMessageType =
    PREPARE | PREPARE_REPLY | ACCEPT | ACCEPT_REPLY | NEW_CHOSEN_VALUE
  | ASK_FOR_LEARN | SEND_LEARNED_VALUE | SEND_NOW_INSTANCE_ID
  | COMFIRM_ASK_FOR_LEARN | ASK_FOR_CHECKPOINT | OTHER_MESSAGE int

record PaxosValue =
  pv_value_id :: u64
  pv_machine_id :: u32
  pv_user_data :: bytes

definition PaxosValue_default :: PaxosValue where
  "PaxosValue_default = \<lparr>pv_value_id = 0, pv_machine_id = 0, pv_user_data = []\<rparr>"

record PaxosMessage =
  pm_type :: PaxosMessageType
  pm_node_id :: u64
  pm_instance_id :: u64
  pm_proposal_id :: u64
  pm_proposal_node_id :: u64
  pm_pre_accepted_id :: u64
  pm_pre_accepted_node_id :: u64
  pm_rejected_id :: u64
  pm_now_instance_id :: u64
  pm_min_chosen_instance_id :: u64
  pm_value :: PaxosValue

definition PaxosMessage_default :: PaxosMessage where
  "PaxosMessage_default =
     \<lparr>pm_type = PREPARE, pm_node_id = 0, pm_instance_id = 0, pm_proposal_id = 0,
      pm_proposal_node_id = 0, pm_pre_accepted_id = 0, pm_pre_accepted_node_id = 0,
      pm_rejected_id = 0, pm_now_instance_id = 0, pm_min_chosen_instance_id = 0,
      pm_value = PaxosValue_default\<rparr>"

section \<open>Checkpoint messages and the envelope\<close>

datatype CheckpointMessageType =
    CHECKPOINT_BEGIN | CHECKPOINT_FILE | CHECKPOINT_END | CHECKPOINT_COMFIRM
  | OTHER_CHECKPOINT int

text \<open>The two \<^verbatim>\<open>sint32\<close> fields are 32-bit words, read as two's complement.\<close>

record CheckpointMessage =
  cm_type :: CheckpointMessageType
  cm_node_id :: u64
  cm_instance_id :: u64
  cm_sequence_id :: u32
  cm_machine_id :: u32
  cm_file :: string
  cm_offset :: u64
  cm_data :: bytes
  cm_flag :: bool

definition CheckpointMessage_default :: CheckpointMessage where
  "CheckpointMessage_default =
     \<lparr>cm_type = CHECKPOINT_BEGIN, cm_node_id = 0, cm_instance_id = 0, cm_sequence_id = 0,
      cm_machine_id = 0, cm_file = [], cm_offset = 0, cm_data = [], cm_flag = False\<rparr>"

datatype ContentType = PAXOS_MESSAGE | CHECKPOINT_MESSAGE | OTHER_CONTENT int

record Content =
  ct_type :: ContentType
  ct_group_id :: u32
  ct_paxos_msg :: PaxosMessage
  ct_checkpoint_msg :: CheckpointMessage

definition Content_paxos :: "u32 \<Rightarrow> PaxosMessage \<Rightarrow> Content" where
  "Content_paxos g m =
     \<lparr>ct_type = PAXOS_MESSAGE, ct_group_id = g, ct_paxos_msg = m,
      ct_checkpoint_msg = CheckpointMessage_default\<rparr>"

definition Content_checkpoint :: "u32 \<Rightarrow> CheckpointMessage \<Rightarrow> Content" where
  "Content_checkpoint g m =
     \<lparr>ct_type = CHECKPOINT_MESSAGE, ct_group_id = g, ct_paxos_msg = PaxosMessage_default,
      ct_checkpoint_msg = m\<rparr>"

section \<open>Stored records\<close>

record PaxosInstance =
  pi_instance_id :: u64
  pi_promised_id :: u64
  pi_promised_node_id :: u64
  pi_accepted_id :: u64
  pi_accepted_node_id :: u64
  pi_accepted_value :: PaxosValue

record MemberMessage =
  mb_id :: u64
  mb_host :: string
  mb_port :: u32
  mb_context :: bytes

datatype MemberChangeType = MEMBER_ADD | MEMBER_REMOVE | OTHER_CHANGE int

text \<open>
  The two repeated fields of a \<^verbatim>\<open>MemberChangeMessage\<close> are independent lists:
  nothing in the format makes them equally long.
\<close>

record MemberChangeMessage =
  mc_member :: "MemberMessage list"
  mc_type :: "MemberChangeType list"

text \<open>
  A protobuf map field holds at most one entry per key and is iterated in no specified
  order: an association list, read through \<^const>\<open>map_of\<close> and updated by
  \<open>AList.update\<close> and \<open>AList.delete\<close>, which keep the keys distinct.
\<close>

type_synonym members = "(u64 \<times> MemberMessage) list"

record Membership =
  ms_version :: u64
  ms_members :: members

definition Membership_default :: Membership where
  "Membership_default = \<lparr>ms_version = 0, ms_members = []\<rparr>"

record MasterState =
  mst_version :: u64
  mst_node_id :: u64
  mst_lease_time :: u64

definition MasterState_default :: MasterState where
  "MasterState_default = \<lparr>mst_version = 0, mst_node_id = 0, mst_lease_time = 0\<rparr>"

lemmas [op_defs] =
  PaxosValue_default_def PaxosMessage_default_def CheckpointMessage_default_def
  Content_paxos_def Content_checkpoint_def Membership_default_def MasterState_default_def

end
