(* ===== verification/Slices.thy ===== *)
theory Slices
  imports Prelude
begin

text \<open>
  \<^verbatim>\<open>Slice\<close> (\<^verbatim>\<open>src/include/skywalker/slice.h\<close>) and
  \<^verbatim>\<open>Status\<close> (\<^verbatim>\<open>src/include/skywalker/status.h\<close>,
  \<^verbatim>\<open>src/util/status.cc\<close>). A slice is the sequence of characters it points at. A
  status is a null pointer, or the heap array the constructor builds: four bytes that hold
  the message length in the machine's byte order, one byte of code, then the message. The
  lemmas show that the accessors get the code and the text back out of that array.
\<close>

section \<open>Slice\<close>

type_synonym slice = string

text \<open>\<^verbatim>\<open>memcmp\<close> compares bytes as unsigned characters; only the sign of its
  result is specified, here -1, 0 or 1.\<close>

fun memcmp :: "string \<Rightarrow> string \<Rightarrow> nat \<Rightarrow> int" where
  "memcmp (a # as) (b # bs) (Suc n) =
     (if of_char a < (of_char b :: nat) then -1
      else if of_char a > (of_char b :: nat) then 1
      else memcmp as bs n)"
| "memcmp as bs n = 0"

definition Slice_empty :: "slice \<Rightarrow> bool" where
  "Slice_empty s \<longleftrightarrow> length s = 0"

text \<open>\<^verbatim>\<open>operator[]\<close> and \<^verbatim>\<open>remove_prefix\<close> assert their
  bounds: a failed assertion is \<^const>\<open>None\<close>.\<close>

definition Slice_index :: "slice \<Rightarrow> nat \<Rightarrow> char option" where
  "Slice_index s n = (if n < length s then Some (s ! n) else None)"

definition Slice_remove_prefix :: "slice \<Rightarrow> nat \<Rightarrow> slice option" where
  "Slice_remove_prefix s n = (if n \<le> length s then Some (drop n s) else None)"

definition Slice_compare :: "slice \<Rightarrow> slice \<Rightarrow> int" where
  "Slice_compare a b =
     (let min_len = (if length a < length b then length a else length b);
          r = memcmp a b min_len
      in if r = 0 then (if length a < length b then -1 else if length a > length b then 1 else r)
         else r)"

definition Slice_starts_with :: "slice \<Rightarrow> slice \<Rightarrow> bool" where
  "Slice_starts_with a b \<longleftrightarrow> length a \<ge> length b \<and> memcmp a b (length b) = 0"

definition slice_eq :: "slice \<Rightarrow> slice \<Rightarrow> bool" where
  "slice_eq x y \<longleftrightarrow> length x = length y \<and> memcmp x y (length x) = 0"

section \<open>Status\<close>

datatype Code = kOk | kInvalidNode | kConflict | kMachineError | kTimeout | kIOError

definition code_char :: "Code \<Rightarrow> char" where
  "code_char c = char_of (case c of kOk \<Rightarrow> 0 | kInvalidNode \<Rightarrow> 1 | kConflict \<Rightarrow> 2
     | kMachineError \<Rightarrow> 3 | kTimeout \<Rightarrow> 4 | kIOError \<Rightarrow> (5::nat))"

text \<open>\<^verbatim>\<open>memcpy\<close> of a \<^verbatim>\<open>uint32_t\<close> to and from a character array, on a
  little-endian machine.\<close>

definition u32_chars :: "u32 \<Rightarrow> string" where
  "u32_chars n = map (\<lambda>i. char_of (unat n div 256 ^ i mod 256)) [0, 1, 2, 3]"

definition chars_u32 :: "string \<Rightarrow> u32" where
  "chars_u32 s = word_of_nat (foldr (\<lambda>c acc. of_char c + 256 * acc) s 0)"

type_synonym Status = "string option"

text \<open>The private constructor, all of whose callers pass a code other than
  \<^verbatim>\<open>kOk\<close>. The lengths are cast to 32 bits, and so is their sum.\<close>

definition Status_new :: "Code \<Rightarrow> slice \<Rightarrow> slice \<Rightarrow> Status" where
  "Status_new code msg msg2 =
     (let len1 = (word_of_nat (length msg) :: u32);
          len2 = (word_of_nat (length msg2) :: u32);
          size = len1 + (if len2 \<noteq> 0 then 2 + len2 else 0)
      in Some (u32_chars size @ [code_char code] @ take (unat len1) msg @
           (if len2 \<noteq> 0 then '': '' @ take (unat len2) msg2 else [])))"

definition Status_OK :: Status where
  "Status_OK = None"

definition Status_InvalidNode :: "slice \<Rightarrow> Status" where
  "Status_InvalidNode msg = Status_new kInvalidNode msg []"

definition Status_Conflict :: "slice \<Rightarrow> Status" where
  "Status_Conflict msg = Status_new kConflict msg []"

definition Status_MachineError :: "slice \<Rightarrow> Status" where
  "Status_MachineError msg = Status_new kMachineError msg []"

definition Status_Timeout :: "slice \<Rightarrow> Status" where
  "Status_Timeout msg = Status_new kTimeout msg []"

definition Status_IOError :: "slice \<Rightarrow> slice \<Rightarrow> Status" where
  "Status_IOError msg msg2 = Status_new kIOError msg msg2"

definition Status_ok :: "Status \<Rightarrow> bool" where
  "Status_ok s \<longleftrightarrow> s = None"

text \<open>\<^verbatim>\<open>code()\<close> reads byte 4 of the array, as a number.\<close>

definition Status_code :: "Status \<Rightarrow> nat" where
  "Status_code s = (case s of None \<Rightarrow> 0 | Some st \<Rightarrow> of_char (st ! 4))"

definition Status_IsConflict :: "Status \<Rightarrow> bool" where
  "Status_IsConflict s \<longleftrightarrow> Status_code s = 2"

definition Status_IsInvalidNode :: "Status \<Rightarrow> bool" where
  "Status_IsInvalidNode s \<longleftrightarrow> Status_code s = 1"

definition Status_IsMachineError :: "Status \<Rightarrow> bool" where
  "Status_IsMachineError s \<longleftrightarrow> Status_code s = 3"

definition Status_IsTimeout :: "Status \<Rightarrow> bool" where
  "Status_IsTimeout s \<longleftrightarrow> Status_code s = 4"

definition Status_IsIOError :: "Status \<Rightarrow> bool" where
  "Status_IsIOError s \<longleftrightarrow> Status_code s = 5"

text \<open>\<^verbatim>\<open>ToString\<close>: the prefix of the code, then as many characters as the stored
  length says. \<open>unknown\<close> is the text that \<^verbatim>\<open>snprintf\<close> prints for a number
  outside the enum, which no constructor stores.\<close>

definition Status_ToString :: "(nat \<Rightarrow> string) \<Rightarrow> Status \<Rightarrow> string" where
  "Status_ToString unknown s =
     (case s of None \<Rightarrow> ''OK''
      | Some st \<Rightarrow>
         (let c = Status_code s;
              type = (if c = 0 then ''OK'' else if c = 1 then ''InvalidNode''
                else if c = 2 then ''Conflict: '' else if c = 3 then ''MachineError: ''
                else if c = 4 then ''Timeout: '' else if c = 5 then ''IOError: ''
                else unknown c);
              len = chars_u32 (take 4 st)
          in type @ take (unat len) (drop 5 st)))"

text \<open>\<^verbatim>\<open>CopyState\<close>, used by the copy constructor and the copy assignment.\<close>

definition Status_CopyState :: "string \<Rightarrow> string" where
  "Status_CopyState st = take (unat (chars_u32 (take 4 st)) + 5) st"

definition Status_copy :: "Status \<Rightarrow> Status" where
  "Status_copy s = (case s of None \<Rightarrow> None | Some st \<Rightarrow> Some (Status_CopyState st))"

section \<open>Slice comparison is the lexicographic order of bytes\<close>

lemma memcmp_zero_iff:
  "n \<le> length a \<Longrightarrow> n \<le> length b \<Longrightarrow> memcmp a b n = 0 \<longleftrightarrow> take n a = take n b"
  by (induction a b n rule: memcmp.induct) (auto simp: not_less antisym_conv3)

lemma slice_eq_iff: "slice_eq x y \<longleftrightarrow> x = y"
  by (auto simp: slice_eq_def memcmp_zero_iff)

lemma starts_with_iff: "Slice_starts_with a b \<longleftrightarrow> (\<exists>rest. a = b @ rest)"
proof
  assume "Slice_starts_with a b"
  then have "take (length b) a = b" by (auto simp: Slice_starts_with_def memcmp_zero_iff)
  then show "\<exists>rest. a = b @ rest" by (metis append_take_drop_id)
next
  assume "\<exists>rest. a = b @ rest"
  then show "Slice_starts_with a b" by (auto simp: Slice_starts_with_def memcmp_zero_iff)
qed

section \<open>The status array\<close>

lemma length_u32_chars [simp]: "length (u32_chars n) = 4"
  by (simp add: u32_chars_def)

lemma base256_digits:
  "(n::nat) mod 256 + 256 * (n div 256 mod 256 + 256 * (n div 256 ^ 2 mod 256 +
    256 * (n div 256 ^ 3))) = n"
proof -
  define a where "a = n div 256"
  define b where "b = a div 256"
  define c where "c = b div 256"
  have "n div 256 ^ 2 = b" "n div 256 ^ 3 = c"
    by (simp_all add: a_def b_def c_def div_mult2_eq [symmetric])
  moreover have "b mod 256 + 256 * c = b" "a mod 256 + 256 * b = a" "n mod 256 + 256 * a = n"
    by (simp_all add: a_def b_def c_def)
  ultimately show ?thesis by (simp add: a_def [symmetric])
qed

lemma chars_u32_chars [simp]: "chars_u32 (u32_chars n) = n"
proof -
  have "unat n < 2 ^ 32" using unsigned_less [of n, where ?'a = nat] by simp
  then have "unat n div 16777216 mod 256 = unat n div 16777216"
    by (simp add: less_mult_imp_div_less)
  with base256_digits [of "unat n"]
  have "foldr (\<lambda>c acc. of_char c + 256 * acc) (u32_chars n) 0 = unat n"
    by (simp add: u32_chars_def)
  then show ?thesis by (simp add: chars_u32_def)
qed

lemma of_char_code_char [simp]:
  "(of_char (code_char c) :: nat) = (case c of kOk \<Rightarrow> 0 | kInvalidNode \<Rightarrow> 1 | kConflict \<Rightarrow> 2
     | kMachineError \<Rightarrow> 3 | kTimeout \<Rightarrow> 4 | kIOError \<Rightarrow> 5)"
  by (cases c) (simp_all add: code_char_def)

lemma Status_code_new: "Status_code (Status_new c m m2) = of_char (code_char c)"
  by (simp add: Status_code_def Status_new_def Let_def nth_append)

lemma Status_new_ok [simp]: "\<not> Status_ok (Status_new c m m2)"
  by (simp add: Status_ok_def Status_new_def Let_def)

text \<open>The text a status stores: the message, and the second one behind a colon.\<close>

definition status_text :: "slice \<Rightarrow> slice \<Rightarrow> string" where
  "status_text m m2 = m @ (if m2 = [] then [] else '': '' @ m2)"

lemma Status_new_layout:
  assumes "length m + length m2 + 2 < 2 ^ 32"
  shows "Status_new c m m2 =
    Some (u32_chars (word_of_nat (length (status_text m m2))) @ [code_char c] @ status_text m m2)"
proof -
  have l: "unat (word_of_nat (length m) :: u32) = length m"
    "unat (word_of_nat (length m2) :: u32) = length m2"
    using assms by (simp_all add: unat_of_nat)
  then have z: "(word_of_nat (length m2) :: u32) = 0 \<longleftrightarrow> m2 = []"
    by (metis length_0_conv unat_eq_zero)
  show ?thesis
  proof (cases "m2 = []")
    case True
    then show ?thesis by (simp add: Status_new_def Let_def status_text_def l)
  next
    case False
    then have nz: "(word_of_nat (length m2) :: u32) \<noteq> 0" using z by simp
    have "word_of_nat (length m) + (2 + word_of_nat (length m2)) =
        (word_of_nat (length (status_text m m2)) :: u32)"
      using False by (simp add: status_text_def)
    with False nz show ?thesis
      by (simp only: Status_new_def Let_def if_True l) (simp add: status_text_def ac_simps)
  qed
qed

text \<open>The word \<^verbatim>\<open>ToString\<close> puts in front of the message.\<close>

definition code_word :: "Code \<Rightarrow> string" where
  "code_word c = (case c of kOk \<Rightarrow> ''OK'' | kInvalidNode \<Rightarrow> ''InvalidNode'' | kConflict \<Rightarrow> ''Conflict: ''
     | kMachineError \<Rightarrow> ''MachineError: '' | kTimeout \<Rightarrow> ''Timeout: '' | kIOError \<Rightarrow> ''IOError: '')"

lemma status_text_copy:
  assumes "length m + length m2 + 2 < 2 ^ 32"
  shows "Status_copy (Status_new c m m2) = Status_new c m m2"
proof -
  have "length (status_text m m2) < 2 ^ 32" using assms by (auto simp: status_text_def)
  then have "unat (word_of_nat (length (status_text m m2)) :: u32) = length (status_text m m2)"
    by (simp add: unat_of_nat)
  then show ?thesis
    by (simp add: Status_copy_def Status_CopyState_def Status_new_layout [OF assms])
qed

text \<open>
  For messages that fit the 32-bit length field, a status reads back what it was built
  from: exactly the predicate of its code holds, \<^verbatim>\<open>ToString\<close> yields the word of the
  code followed by both messages, and a copy equals the original.
\<close>

theorem Status_reads_back:
  assumes "length m + length m2 + 2 < 2 ^ 32"
  shows "Status_ToString u (Status_new c m m2) = code_word c @ status_text m m2 \<and>
    Status_copy (Status_new c m m2) = Status_new c m m2 \<and>
    \<not> Status_ok (Status_new c m m2) \<and>
    (Status_IsInvalidNode (Status_new c m m2) \<longleftrightarrow> c = kInvalidNode) \<and>
    (Status_IsConflict (Status_new c m m2) \<longleftrightarrow> c = kConflict) \<and>
    (Status_IsMachineError (Status_new c m m2) \<longleftrightarrow> c = kMachineError) \<and>
    (Status_IsTimeout (Status_new c m m2) \<longleftrightarrow> c = kTimeout) \<and>
    (Status_IsIOError (Status_new c m m2) \<longleftrightarrow> c = kIOError)"
proof -
  have "length (status_text m m2) < 2 ^ 32" using assms by (auto simp: status_text_def)
  then have u: "unat (word_of_nat (length (status_text m m2)) :: u32) = length (status_text m m2)"
    by (simp add: unat_of_nat)
  have "Status_ToString u (Status_new c m m2) = code_word c @ status_text m m2"
    by (cases c) (simp_all add: Status_ToString_def Status_code_def Status_new_layout [OF assms]
        nth_append u code_word_def)
  then show ?thesis
    using status_text_copy [OF assms]
    by (cases c) (simp_all add: Status_IsInvalidNode_def Status_IsConflict_def
        Status_IsMachineError_def Status_IsTimeout_def Status_IsIOError_def Status_code_new)
qed

end
