(* ===== verification/Env.thy ===== *)
theory Env
  imports Proto Slices
begin

text \<open>
  What a group of a node is built from: the constants \<^verbatim>\<open>Config\<close> copies out of
  its options (\<^verbatim>\<open>src/paxos/config.h\<close>, \<^verbatim>\<open>src/paxos/config.cc\<close>,
  \<^verbatim>\<open>src/include/skywalker/options.h\<close>), and the code the sources call but do not
  contain: LevelDB, Protobuf, the Voyager coding and CRC routines, the user's state machines
  and cluster object, and the operating system. The latter are functions of the record
  \<open>env\<close>: every definition that uses one takes the record as an argument. Two type
  parameters keep their state: \<open>'d\<close> is the LevelDB database, \<open>'w\<close> everything else
  (files, clock, random device, memory allocator, user machines).
\<close>

section \<open>Options\<close>

record Member =
  id_of :: u64
  host_of :: string
  port_of :: u16
  context_of :: bytes

record GroupOptions =
  use_master :: bool
  master_lease_time :: u64
  propose_timeout :: u64
  keep_checkpoint_count :: u32
  log_sync :: bool
  sync_interval :: u32
  keep_log_count :: u32
  log_storage_path :: string
  opt_machines :: "u32 list"
  opt_membership :: "Member list"

definition GroupOptions_default :: GroupOptions where
  "GroupOptions_default =
     \<lparr>use_master = True, master_lease_time = 10 * 1000, propose_timeout = 1000,
      keep_checkpoint_count = 3, log_sync = True, sync_interval = 5,
      keep_log_count = 100000, log_storage_path = [], opt_machines = [],
      opt_membership = []\<rparr>"

section \<open>Configuration constants\<close>

record config =
  cfg_node_id :: u64
  cfg_group_id :: u32
  cfg_propose_timeout :: u64
  cfg_keep_checkpoint_count :: u32
  cfg_log_sync :: bool
  cfg_sync_interval :: u32
  cfg_keep_log_count :: u32
  cfg_log_storage_path :: string
  cfg_log_path :: string
  cfg_checkpoint_path :: string
  cfg_temp_checkpoint_path :: string
  \<comment> \<open>two constants of Group\<close>
  cfg_use_master :: bool
  cfg_lease_timeout :: u64

section \<open>Code outside the repository\<close>

datatype ldb_status = LOk | LNotFound | LError

datatype batch_op = BPut bytes bytes | BDelete bytes

text \<open>An \<^verbatim>\<open>fopen\<close> mode, and the outcome of a system call: an error carries the text
  of \<^verbatim>\<open>strerror(errno)\<close>.\<close>

datatype open_mode = Mode_r | Mode_w | Mode_a

type_synonym sysresult = "string option"

text \<open>
  The context pointer of a proposal: null, a pointer the user passed, or the address of
  \<^verbatim>\<open>Group::now_\<close>, represented by the time stored there.
\<close>

datatype ctx_ptr = Null | UserContext nat | NowContext u64

record ('d, 'w) env = config +
  \<comment> \<open>leveldb::DB::Open, given the size of the write buffer: the database it yields\<close>
  ldb_open :: "u32 \<Rightarrow> string \<Rightarrow> 'w \<Rightarrow> (ldb_status \<times> 'd) \<times> 'w"
  ldb_put :: "bool \<Rightarrow> bytes \<Rightarrow> bytes \<Rightarrow> 'd \<Rightarrow> ldb_status \<times> 'd"
  ldb_delete :: "bool \<Rightarrow> bytes \<Rightarrow> 'd \<Rightarrow> ldb_status \<times> 'd"
  ldb_write :: "bool \<Rightarrow> batch_op list \<Rightarrow> 'd \<Rightarrow> ldb_status \<times> 'd"
  ldb_get :: "bytes \<Rightarrow> 'd \<Rightarrow> ldb_status \<times> bytes"
  \<comment> \<open>the keys an iterator visits from first to last, under the given comparator\<close>
  ldb_keys :: "(bytes \<Rightarrow> bytes \<Rightarrow> int) \<Rightarrow> 'd \<Rightarrow> bytes list"
  \<comment> \<open>voyager/util/coding.h and crc32c.h\<close>
  encode32 :: "u32 \<Rightarrow> bytes"
  encode64 :: "u64 \<Rightarrow> bytes"
  decode32 :: "bytes \<Rightarrow> u32"
  decode64 :: "bytes \<Rightarrow> u64"
  crc32c :: "bytes \<Rightarrow> u32"
  \<comment> \<open>protobuf: SerializeAsString, and ParseFromString with its flag and the message it leaves\<close>
  ser_instance :: "PaxosInstance \<Rightarrow> bytes"
  parse_instance :: "bytes \<Rightarrow> bool \<times> PaxosInstance"
  ser_change :: "MemberChangeMessage \<Rightarrow> bytes"
  parse_change :: "bytes \<Rightarrow> bool \<times> MemberChangeMessage"
  ser_master :: "MasterState \<Rightarrow> bytes"
  parse_master :: "bytes \<Rightarrow> bool \<times> MasterState"
  ser_membership :: "Membership \<Rightarrow> bytes"
  \<comment> \<open>ParseFromArray: the bytes from the given address on, and the size, an \<^verbatim>\<open>int\<close>\<close>
  array_master :: "bytes \<Rightarrow> int \<Rightarrow> bool \<times> MasterState"
  array_membership :: "bytes \<Rightarrow> int \<Rightarrow> bool \<times> Membership"
  ser_content :: "Content \<Rightarrow> bool \<times> bytes"
  parse_content :: "bytes \<Rightarrow> bool \<times> Content"
  \<comment> \<open>ByteSizeLong\<close>
  content_size :: "Content \<Rightarrow> u64"
  \<comment> \<open>gettimeofday: seconds and microseconds\<close>
  gettimeofday :: "'w \<Rightarrow> (u64 \<times> u64) \<times> 'w"
  \<comment> \<open>the 64-bit word found at an address of the user's\<close>
  read_u64 :: "nat \<Rightarrow> 'w \<Rightarrow> u64"
  \<comment> \<open>operator new for a Timer, given the addresses in use\<close>
  new_timer :: "nat list \<Rightarrow> 'w \<Rightarrow> nat \<times> 'w"
  \<comment> \<open>std::uniform_int_distribution over the given bounds\<close>
  uniform_int :: "u32 \<Rightarrow> u32 \<Rightarrow> 'w \<Rightarrow> u32 \<times> 'w"
  \<comment> \<open>the user's StateMachine objects, by machine id\<close>
  sm_execute :: "u32 \<Rightarrow> u32 \<Rightarrow> u64 \<Rightarrow> bytes \<Rightarrow> ctx_ptr \<Rightarrow> 'w \<Rightarrow> bool \<times> 'w"
  sm_recover :: "u32 \<Rightarrow> u32 \<Rightarrow> u64 \<Rightarrow> string \<Rightarrow> 'w \<Rightarrow> bool \<times> 'w"
  sm_make_checkpoint :: "u32 \<Rightarrow> u32 \<Rightarrow> u64 \<Rightarrow> string \<Rightarrow> 'w \<Rightarrow> bool \<times> 'w"
  sm_get_checkpoint :: "u32 \<Rightarrow> u32 \<Rightarrow> u64 \<Rightarrow> string \<Rightarrow> 'w \<Rightarrow> (bool \<times> string list) \<times> 'w"
  \<comment> \<open>the user's Cluster object, if one was given\<close>
  has_cluster :: bool
  newest_membership :: "u32 \<Rightarrow> 'w \<Rightarrow> (u64 \<times> Member) list"
  followers :: "u32 \<Rightarrow> 'w \<Rightarrow> (u64 \<times> Member) list"
  \<comment> \<open>the callbacks of the options; an empty std::function is None\<close>
  membership_cb :: "(u32 \<Rightarrow> 'w \<Rightarrow> 'w) option"
  master_cb :: "(u32 \<Rightarrow> 'w \<Rightarrow> 'w) option"
  \<comment> \<open>system calls on files: None is success\<close>
  sys_mkdir :: "string \<Rightarrow> 'w \<Rightarrow> sysresult \<times> 'w"
  sys_rmdir :: "string \<Rightarrow> 'w \<Rightarrow> sysresult \<times> 'w"
  sys_unlink :: "string \<Rightarrow> 'w \<Rightarrow> sysresult \<times> 'w"
  sys_rename :: "string \<Rightarrow> string \<Rightarrow> 'w \<Rightarrow> sysresult \<times> 'w"
  sys_access :: "string \<Rightarrow> 'w \<Rightarrow> bool"
  \<comment> \<open>opendir and readdir: the entries with whether each is a regular file\<close>
  sys_readdir :: "string \<Rightarrow> 'w \<Rightarrow> string + (string \<times> bool) list"
  \<comment> \<open>stdio: a successful fopen yields a stream number\<close>
  sys_fopen :: "string \<Rightarrow> open_mode \<Rightarrow> 'w \<Rightarrow> (string + nat) \<times> 'w"
  \<comment> \<open>fread of at most n bytes: the bytes, and the error text unless the stream is at its end\<close>
  sys_fread :: "nat \<Rightarrow> nat \<Rightarrow> 'w \<Rightarrow> (bytes \<times> sysresult) \<times> 'w"
  \<comment> \<open>fwrite, fflush with fsync, fclose\<close>
  sys_fwrite :: "nat \<Rightarrow> bytes \<Rightarrow> 'w \<Rightarrow> sysresult \<times> 'w"
  sys_fsync :: "nat \<Rightarrow> 'w \<Rightarrow> sysresult \<times> 'w"
  sys_fclose :: "nat \<Rightarrow> 'w \<Rightarrow> sysresult \<times> 'w"
  sys_fseek :: "nat \<Rightarrow> u64 \<Rightarrow> 'w \<Rightarrow> sysresult \<times> 'w"
  sys_fflush :: "nat \<Rightarrow> 'w \<Rightarrow> sysresult \<times> 'w"
  \<comment> \<open>descriptors: stat's size, open for reading, close, pread, mmap and munmap of a region,
    and the bytes found in a region at an offset\<close>
  sys_stat :: "string \<Rightarrow> 'w \<Rightarrow> string + u64"
  sys_open :: "string \<Rightarrow> 'w \<Rightarrow> (string + nat) \<times> 'w"
  sys_close :: "nat \<Rightarrow> 'w \<Rightarrow> 'w"
  sys_pread :: "nat \<Rightarrow> u64 \<Rightarrow> u64 \<Rightarrow> 'w \<Rightarrow> string + bytes"
  sys_mmap :: "nat \<Rightarrow> u64 \<Rightarrow> 'w \<Rightarrow> (string + nat) \<times> 'w"
  sys_munmap :: "nat \<Rightarrow> u64 \<Rightarrow> 'w \<Rightarrow> 'w"
  region_read :: "nat \<Rightarrow> u64 \<Rightarrow> u64 \<Rightarrow> 'w \<Rightarrow> bytes"

section \<open>Time\<close>

text \<open>\<^verbatim>\<open>src/util/timeops.cc\<close>.\<close>

definition NowMillis :: "('d, 'w) env \<Rightarrow> 'w \<Rightarrow> u64 \<times> 'w" where
  "NowMillis E w =
     (case gettimeofday E w of ((sec, usec), w') \<Rightarrow> (sec * 1000 + usec div 1000, w'))"

definition NowMicros :: "('d, 'w) env \<Rightarrow> 'w \<Rightarrow> u64 \<times> 'w" where
  "NowMicros E w =
     (case gettimeofday E w of ((sec, usec), w') \<Rightarrow> (sec * 1000000 + usec, w'))"

section \<open>What is relied on\<close>

text \<open>
  LevelDB without I/O errors behaves as a map: a write is visible to a later read, a read
  reports exactly the stored value, and an iterator visits the stored keys once, in the order
  of the comparator, provided the comparator orders them. \<open>contents\<close> is the abstraction of the database state.
\<close>

definition strict_order_on :: "(bytes \<Rightarrow> bytes \<Rightarrow> int) \<Rightarrow> bytes set \<Rightarrow> bool" where
  "strict_order_on cmp K \<longleftrightarrow>
     (\<forall>a\<in>K. \<forall>b\<in>K. a \<noteq> b \<longrightarrow> (cmp a b < 0) \<noteq> (cmp b a < 0)) \<and>
     (\<forall>a\<in>K. \<forall>b\<in>K. \<forall>c\<in>K. cmp a b < 0 \<longrightarrow> cmp b c < 0 \<longrightarrow> cmp a c < 0)"

definition leveldb_ok :: "('d, 'w) env \<Rightarrow> ('d \<Rightarrow> bytes \<rightharpoonup> bytes) \<Rightarrow> bool" where
  "leveldb_ok E contents \<longleftrightarrow>
     (\<forall>sync k v d. fst (ldb_put E sync k v d) = LOk \<and>
        contents (snd (ldb_put E sync k v d)) = (contents d)(k \<mapsto> v)) \<and>
     (\<forall>sync k d. fst (ldb_delete E sync k d) = LOk \<and>
        contents (snd (ldb_delete E sync k d)) = (contents d)(k := None)) \<and>
     (\<forall>sync ops d. fst (ldb_write E sync ops d) = LOk \<and>
        contents (snd (ldb_write E sync ops d)) =
          fold (\<lambda>op m. case op of BPut k v \<Rightarrow> m(k \<mapsto> v) | BDelete k \<Rightarrow> m(k := None))
            ops (contents d)) \<and>
     (\<forall>k d. ldb_get E k d =
        (case contents d k of None \<Rightarrow> (LNotFound, []) | Some v \<Rightarrow> (LOk, v))) \<and>
     (\<forall>cmp d. strict_order_on cmp (dom (contents d)) \<longrightarrow>
        set (ldb_keys E cmp d) = dom (contents d) \<and>
        sorted_wrt (\<lambda>a b. cmp a b < 0) (ldb_keys E cmp d))"

text \<open>Decoding inverts encoding, at the documented widths.\<close>

definition coding_ok :: "('d, 'w) env \<Rightarrow> bool" where
  "coding_ok E \<longleftrightarrow>
     (\<forall>n r. decode32 E (encode32 E n @ r) = n) \<and> (\<forall>n r. decode64 E (encode64 E n @ r) = n) \<and>
     (\<forall>n. length (encode32 E n) = 4) \<and> (\<forall>n. length (encode64 E n) = 8)"

text \<open>A new object does not share its address with a live one, nor with the null pointer.\<close>

definition alloc_ok :: "('d, 'w) env \<Rightarrow> bool" where
  "alloc_ok E \<longleftrightarrow> (\<forall>live w. fst (new_timer E live w) \<notin> set live \<and> fst (new_timer E live w) \<noteq> 0)"

text \<open>Parsing what was serialised succeeds and gives the message back.\<close>

definition instance_codec_ok :: "('d, 'w) env \<Rightarrow> bool" where
  "instance_codec_ok E \<longleftrightarrow> (\<forall>m. parse_instance E (ser_instance E m) = (True, m))"

text \<open>\<^verbatim>\<open>ParseFromArray\<close> reads the announced number of bytes and none of those that follow.\<close>

definition array_codec_ok :: "('m \<Rightarrow> bytes) \<Rightarrow> (bytes \<Rightarrow> int \<Rightarrow> bool \<times> 'm) \<Rightarrow> bool" where
  "array_codec_ok ser parse \<longleftrightarrow>
     (\<forall>m r. length (ser m) < 2 ^ 31 \<longrightarrow> parse (ser m @ r) (int (length (ser m))) = (True, m))"

text \<open>The serialised form of a content has the size that was announced.\<close>

definition content_codec_ok :: "('d, 'w) env \<Rightarrow> bool" where
  "content_codec_ok E \<longleftrightarrow>
     (\<forall>c b. ser_content E c = (True, b) \<longrightarrow>
        parse_content E b = (True, c) \<and> length b = unat (content_size E c))"

lemma coding_okD:
  assumes "coding_ok E"
  shows "decode32 E (encode32 E n @ r) = n" "decode64 E (encode64 E k @ r) = k"
    "decode32 E (encode32 E n) = n" "decode64 E (encode64 E k) = k"
    "length (encode32 E n) = 4" "length (encode64 E k) = 8"
proof -
  note c = assms [unfolded coding_ok_def]
  show "decode32 E (encode32 E n @ r) = n" "decode64 E (encode64 E k @ r) = k"
    "length (encode32 E n) = 4" "length (encode64 E k) = 8"
    using c by auto
  show "decode32 E (encode32 E n) = n" "decode64 E (encode64 E k) = k"
    using c by (metis append_Nil2)+
qed

lemma encode64_inj: "coding_ok E \<Longrightarrow> encode64 E a = encode64 E b \<longleftrightarrow> a = b"
  by (metis coding_okD(4))

end
