(* ===== verification/Files.thy ===== *)
theory Files
  imports Env
begin

text \<open>
  \<^verbatim>\<open>FileManager\<close> and the two helpers on whole files,
  \<^verbatim>\<open>src/util/file.cc\<close>, over the system calls of the environment. A stream opened by
  \<^verbatim>\<open>fopen\<close> is a number; each operation returns a \<^verbatim>\<open>Status\<close>.
\<close>

section \<open>FileManager\<close>

definition sys_status :: "string \<Rightarrow> sysresult \<Rightarrow> Status" where
  "sys_status name r = (case r of None \<Rightarrow> Status_OK | Some err \<Rightarrow> Status_IOError name err)"

definition CreateDir :: "('d, 'w) env \<Rightarrow> string \<Rightarrow> 'w \<Rightarrow> Status \<times> 'w" where
  "CreateDir E dirname w = (case sys_mkdir E dirname w of (r, w') \<Rightarrow> (sys_status dirname r, w'))"

definition DeleteDir :: "('d, 'w) env \<Rightarrow> string \<Rightarrow> 'w \<Rightarrow> Status \<times> 'w" where
  "DeleteDir E dirname w = (case sys_rmdir E dirname w of (r, w') \<Rightarrow> (sys_status dirname r, w'))"

definition DeleteFile :: "('d, 'w) env \<Rightarrow> string \<Rightarrow> 'w \<Rightarrow> Status \<times> 'w" where
  "DeleteFile E fname w = (case sys_unlink E fname w of (r, w') \<Rightarrow> (sys_status fname r, w'))"

definition RenameFile :: "('d, 'w) env \<Rightarrow> string \<Rightarrow> string \<Rightarrow> 'w \<Rightarrow> Status \<times> 'w" where
  "RenameFile E src target w = (case sys_rename E src target w of (r, w') \<Rightarrow> (sys_status src r, w'))"

definition FileExists :: "('d, 'w) env \<Rightarrow> string \<Rightarrow> 'w \<Rightarrow> bool" where
  "FileExists E fname w = sys_access E fname w"

text \<open>\<^verbatim>\<open>GetChildren\<close> clears its output first; with \<open>only_file\<close> it keeps regular
  files, otherwise everything but the two dot entries.\<close>

definition GetChildren ::
    "('d, 'w) env \<Rightarrow> string \<Rightarrow> bool \<Rightarrow> 'w \<Rightarrow> Status \<times> string list" where
  "GetChildren E dir only_file w =
     (case sys_readdir E dir w of
        Inl err \<Rightarrow> (Status_IOError dir err, [])
      | Inr entries \<Rightarrow>
         (Status_OK,
          if only_file then map fst (filter snd entries)
          else filter (\<lambda>n. n \<noteq> ''.'' \<and> n \<noteq> ''..'') (map fst entries)))"

text \<open>\<^verbatim>\<open>NewSequentialFile\<close>, \<^verbatim>\<open>NewWritableFile\<close> and
  \<^verbatim>\<open>NewAppendableFile\<close> differ in the mode only; the null pointer left on failure is
  \<^const>\<open>None\<close>.\<close>

definition open_file ::
    "('d, 'w) env \<Rightarrow> open_mode \<Rightarrow> string \<Rightarrow> 'w \<Rightarrow> (Status \<times> nat option) \<times> 'w" where
  "open_file E mode fname w =
     (case sys_fopen E fname mode w of
        (Inl err, w') \<Rightarrow> ((Status_IOError fname err, None), w')
      | (Inr f, w') \<Rightarrow> ((Status_OK, Some f), w'))"

definition NewSequentialFile ::
    "('d, 'w) env \<Rightarrow> string \<Rightarrow> 'w \<Rightarrow> (Status \<times> nat option) \<times> 'w" where
  "NewSequentialFile E = open_file E Mode_r"

definition NewWritableFile ::
    "('d, 'w) env \<Rightarrow> string \<Rightarrow> 'w \<Rightarrow> (Status \<times> nat option) \<times> 'w" where
  "NewWritableFile E = open_file E Mode_w"

definition NewAppendableFile ::
    "('d, 'w) env \<Rightarrow> string \<Rightarrow> 'w \<Rightarrow> (Status \<times> nat option) \<times> 'w" where
  "NewAppendableFile E = open_file E Mode_a"

text \<open>\<^verbatim>\<open>PosixSequentialFile::Read\<close>: a short read is an error only away from the end
  of the file.\<close>

definition SequentialFile_Read ::
    "('d, 'w) env \<Rightarrow> string \<Rightarrow> nat \<Rightarrow> nat \<Rightarrow> 'w \<Rightarrow> (Status \<times> bytes) \<times> 'w" where
  "SequentialFile_Read E fname f n w =
     (case sys_fread E f n w of
        ((r, err), w') \<Rightarrow>
          ((if length r < n then sys_status fname err else Status_OK, r), w'))"

definition WritableFile_Append ::
    "('d, 'w) env \<Rightarrow> string \<Rightarrow> nat \<Rightarrow> bytes \<Rightarrow> 'w \<Rightarrow> Status \<times> 'w" where
  "WritableFile_Append E fname f data w =
     (case sys_fwrite E f data w of (r, w') \<Rightarrow> (sys_status fname r, w'))"

definition WritableFile_Sync :: "('d, 'w) env \<Rightarrow> string \<Rightarrow> nat \<Rightarrow> 'w \<Rightarrow> Status \<times> 'w" where
  "WritableFile_Sync E fname f w = (case sys_fsync E f w of (r, w') \<Rightarrow> (sys_status fname r, w'))"

definition WritableFile_Close :: "('d, 'w) env \<Rightarrow> string \<Rightarrow> nat \<Rightarrow> 'w \<Rightarrow> Status \<times> 'w" where
  "WritableFile_Close E fname f w = (case sys_fclose E f w of (r, w') \<Rightarrow> (sys_status fname r, w'))"

definition SequentialFile_Skip :: "('d, 'w) env \<Rightarrow> string \<Rightarrow> nat \<Rightarrow> u64 \<Rightarrow> 'w \<Rightarrow> Status \<times> 'w" where
  "SequentialFile_Skip E fname f n w = (case sys_fseek E f n w of (r, w') \<Rightarrow> (sys_status fname r, w'))"

definition WritableFile_Flush :: "('d, 'w) env \<Rightarrow> string \<Rightarrow> nat \<Rightarrow> 'w \<Rightarrow> Status \<times> 'w" where
  "WritableFile_Flush E fname f w = (case sys_fflush E f w of (r, w') \<Rightarrow> (sys_status fname r, w'))"

definition GetFileSize :: "('d, 'w) env \<Rightarrow> string \<Rightarrow> 'w \<Rightarrow> Status \<times> u64" where
  "GetFileSize E fname w =
     (case sys_stat E fname w of Inl err \<Rightarrow> (Status_IOError fname err, 0) | Inr st_size \<Rightarrow> (Status_OK, st_size))"

section \<open>Random access\<close>

text \<open>The two implementations of \<^verbatim>\<open>RandomAccessFile\<close>: a descriptor, or a region the
  file is mapped to, with its length.\<close>

datatype random_file = PosixRandomAccessFile string nat | PosixMmapReadableFile string nat u64

text \<open>\<^verbatim>\<open>wide\<close> is the compile-time test \<^verbatim>\<open>sizeof(void*) >= 8\<close>.\<close>

definition NewRandomAccessFile ::
    "('d, 'w) env \<Rightarrow> bool \<Rightarrow> string \<Rightarrow> 'w \<Rightarrow> (Status \<times> random_file option) \<times> 'w" where
  "NewRandomAccessFile E wide fname w =
     (case sys_open E fname w of
        (Inl err, w1) \<Rightarrow> ((Status_IOError fname err, None), w1)
      | (Inr fd, w1) \<Rightarrow>
         (if wide then
            (let (s, sz) = GetFileSize E fname w1;
                 ((s', result), w2) =
                   (if Status_ok s then
                      (case sys_mmap E fd sz w1 of
                         (Inr base, w2) \<Rightarrow> ((s, Some (PosixMmapReadableFile fname base sz)), w2)
                       | (Inl err, w2) \<Rightarrow> ((Status_IOError fname err, None), w2))
                    else ((s, None), w1))
             in ((s', result), sys_close E fd w2))
          else ((Status_OK, Some (PosixRandomAccessFile fname fd)), w1)))"

text \<open>\<^verbatim>\<open>Read\<close>: the bound of a mapped file is checked with an addition that wraps;
  \<open>einval\<close> is the text of \<^verbatim>\<open>EINVAL\<close>.\<close>

definition RandomAccessFile_Read ::
    "('d, 'w) env \<Rightarrow> string \<Rightarrow> random_file \<Rightarrow> u64 \<Rightarrow> u64 \<Rightarrow> 'w \<Rightarrow> Status \<times> bytes" where
  "RandomAccessFile_Read E einval file offset n w =
     (case file of
        PosixRandomAccessFile fname fd \<Rightarrow>
          (case sys_pread E fd offset n w of
             Inl err \<Rightarrow> (Status_IOError fname err, [])
           | Inr r \<Rightarrow> (Status_OK, r))
      | PosixMmapReadableFile fname base len \<Rightarrow>
          (if offset + n > len then (Status_IOError fname einval, [])
           else (Status_OK, region_read E base offset n w)))"

definition RandomAccessFile_close :: "('d, 'w) env \<Rightarrow> random_file \<Rightarrow> 'w \<Rightarrow> 'w" where
  "RandomAccessFile_close E file w =
     (case file of
        PosixRandomAccessFile _ fd \<Rightarrow> sys_close E fd w
      | PosixMmapReadableFile _ base len \<Rightarrow> sys_munmap E base len w)"

section \<open>Whole files\<close>

text \<open>The read loop of \<^verbatim>\<open>ReadFileToString\<close>: it stops at an error or at an empty
  fragment. Nothing bounds the length of the file, hence the option.\<close>

partial_function (option) read_loop ::
    "('d, 'w) env \<Rightarrow> string \<Rightarrow> nat \<Rightarrow> bytes \<Rightarrow> 'w \<Rightarrow> ((Status \<times> bytes) \<times> 'w) option" where
  "read_loop E fname f data w =
     (case SequentialFile_Read E fname f 8192 w of
        ((s, fragment), w') \<Rightarrow>
          (if \<not> Status_ok s then Some ((s, data), w')
           else if fragment = [] then Some ((s, data @ fragment), w')
           else read_loop E fname f (data @ fragment) w'))"

definition ReadFileToString ::
    "('d, 'w) env \<Rightarrow> string \<Rightarrow> 'w \<Rightarrow> ((Status \<times> bytes) \<times> 'w) option" where
  "ReadFileToString E fname w =
     (case NewSequentialFile E fname w of
        ((s, Some f), w') \<Rightarrow>
          (case read_loop E fname f [] w' of
             None \<Rightarrow> None
           | Some (r, w'') \<Rightarrow> Some (r, snd (sys_fclose E f w'')))
      | ((s, None), w') \<Rightarrow> Some ((s, []), w'))"

text \<open>\<^verbatim>\<open>DoWriteStringToFile\<close>. \<^verbatim>\<open>delete file\<close> closes the stream when
  \<^verbatim>\<open>Close\<close> has not done so.\<close>

definition DoWriteStringToFile ::
    "('d, 'w) env \<Rightarrow> bytes \<Rightarrow> string \<Rightarrow> bool \<Rightarrow> 'w \<Rightarrow> Status \<times> 'w" where
  "DoWriteStringToFile E data fname should_sync w =
     (case NewWritableFile E fname w of
        ((s, None), w0) \<Rightarrow> (s, w0)
      | ((s, Some f), w0) \<Rightarrow>
         (let (s1, w1) = WritableFile_Append E fname f data w0;
              (s2, w2) = (if Status_ok s1 \<and> should_sync then WritableFile_Sync E fname f w1
                          else (s1, w1));
              (s3, w3) = (if Status_ok s2 then WritableFile_Close E fname f w2
                          else (s2, snd (sys_fclose E f w2)))
          in (s3, if Status_ok s3 then w3 else snd (DeleteFile E fname w3))))"

definition WriteStringToFile :: "('d, 'w) env \<Rightarrow> bytes \<Rightarrow> string \<Rightarrow> 'w \<Rightarrow> Status \<times> 'w" where
  "WriteStringToFile E data fname = DoWriteStringToFile E data fname False"

definition WriteStringToFileSync :: "('d, 'w) env \<Rightarrow> bytes \<Rightarrow> string \<Rightarrow> 'w \<Rightarrow> Status \<times> 'w" where
  "WriteStringToFileSync E data fname = DoWriteStringToFile E data fname True"

section \<open>Reading back what was written\<close>

text \<open>
  What is relied on of the C streams and the file system, when no call fails: a file opened
  for reading yields its contents in pieces and then an empty piece; a file opened for
  writing holds what was written once it is closed. \<open>file w n\<close> is the contents of the
  file \<open>n\<close>, \<open>left w f\<close> what a reading stream still has to deliver, and
  \<open>name w f\<close> the file that the stream \<open>f\<close> writes to.
\<close>

definition stdio_ok ::
    "('d, 'w) env \<Rightarrow> ('w \<Rightarrow> string \<rightharpoonup> bytes) \<Rightarrow> ('w \<Rightarrow> nat \<Rightarrow> bytes) \<Rightarrow> ('w \<Rightarrow> nat \<Rightarrow> string) \<Rightarrow> bool"
where
  "stdio_ok E file left name \<longleftrightarrow>
     (\<forall>n w c. file w n = Some c \<longrightarrow>
        (\<exists>f w'. sys_fopen E n Mode_r w = (Inr f, w') \<and> left w' f = c \<and> file w' = file w)) \<and>
     (\<forall>f k w. 0 < k \<longrightarrow>
        (\<exists>w'. sys_fread E f k w = ((take k (left w f), None), w') \<and> left w' f = drop k (left w f) \<and>
           file w' = file w)) \<and>
     (\<forall>n w. \<exists>f w'. sys_fopen E n Mode_w w = (Inr f, w') \<and> name w' f = n \<and> file w' n = Some []) \<and>
     (\<forall>f d w c. file w (name w f) = Some c \<longrightarrow>
        (\<exists>w'. sys_fwrite E f d w = (None, w') \<and> name w' f = name w f \<and>
           file w' (name w f) = Some (c @ d))) \<and>
     (\<forall>f w. \<exists>w'. sys_fsync E f w = (None, w') \<and> name w' f = name w f \<and> file w' = file w) \<and>
     (\<forall>f w. \<exists>w'. sys_fclose E f w = (None, w') \<and> file w' = file w)"

text \<open>The same for appending, and for making a directory: a file that is opened for appending is
  created when it is not there, and what is written goes to its end.\<close>

definition append_ok ::
    "('d, 'w) env \<Rightarrow> ('w \<Rightarrow> string \<rightharpoonup> bytes) \<Rightarrow> ('w \<Rightarrow> nat \<Rightarrow> string) \<Rightarrow> bool" where
  "append_ok E file name \<longleftrightarrow>
     (\<forall>n w. \<exists>f w'. sys_fopen E n Mode_a w = (Inr f, w') \<and> name w' f = n \<and>
        file w' = (file w)(n \<mapsto> case file w n of None \<Rightarrow> [] | Some c \<Rightarrow> c)) \<and>
     (\<forall>f d w c. file w (name w f) = Some c \<longrightarrow>
        (\<exists>w'. sys_fwrite E f d w = (None, w') \<and> file w' = (file w)(name w f \<mapsto> c @ d))) \<and>
     (\<forall>f w. file (snd (sys_fclose E f w)) = file w) \<and>
     (\<forall>n w. file (snd (sys_mkdir E n w)) = file w \<and> sys_access E n (snd (sys_mkdir E n w)))"

text \<open>Reading through a stream in pieces of \<open>k\<close> bytes.\<close>

lemma stdio_read:
  assumes "stdio_ok E file left name" "0 < k"
  obtains w' where "SequentialFile_Read E fname f k w = ((Status_OK, take k (left w f)), w')"
    "left w' f = drop k (left w f)" "file w' = file w"
proof -
  obtain w' where r: "sys_fread E f k w = ((take k (left w f), None), w')"
    and "left w' f = drop k (left w f)" "file w' = file w"
    using assms unfolding stdio_ok_def by blast
  with that [of w'] show thesis by (simp add: SequentialFile_Read_def r sys_status_def)
qed

lemma stdio_open:
  assumes "stdio_ok E file left name" "file w n = Some c"
  obtains f w' where "NewSequentialFile E n w = ((Status_OK, Some f), w')" "left w' f = c" "file w' = file w"
proof -
  obtain f w' where "sys_fopen E n Mode_r w = (Inr f, w')" "left w' f = c" "file w' = file w"
    using assms unfolding stdio_ok_def by blast
  with that [of f w'] show thesis by (simp add: NewSequentialFile_def open_file_def)
qed

lemma stdio_close: "stdio_ok E file left name \<Longrightarrow> file (snd (sys_fclose E f w)) = file w"
  unfolding stdio_ok_def by (metis snd_conv)

lemma read_loop_whole:
  assumes "stdio_ok E file left name"
  shows "\<exists>w'. read_loop E fname f data w = Some ((Status_OK, data @ left w f), w')"
proof (induction "length (left w f)" arbitrary: data w rule: less_induct)
  case less
  obtain w1 where read: "SequentialFile_Read E fname f 8192 w = ((Status_OK, take 8192 (left w f)), w1)"
    and l: "left w1 f = drop 8192 (left w f)"
    using stdio_read [OF assms, of 8192] by (metis zero_less_numeral)
  show ?case
  proof (cases "left w f = []")
    case True
    then show ?thesis
      by (subst read_loop.simps) (simp add: read Status_ok_def Status_OK_def)
  next
    case False
    then have "length (left w1 f) < length (left w f)" by (simp add: l)
    from less [OF this, of "data @ take 8192 (left w f)"] False show ?thesis
      by (subst read_loop.simps) (simp add: read Status_ok_def Status_OK_def l)
  qed
qed

lemma write_then_read:
  assumes "stdio_ok E file left name"
  shows "\<exists>w1 w2. DoWriteStringToFile E data fname sync w = (Status_OK, w1) \<and>
    ReadFileToString E fname w1 = Some ((Status_OK, data), w2)"
proof -
  obtain f w0 where o: "sys_fopen E fname Mode_w w = (Inr f, w0)" "name w0 f = fname"
      "file w0 fname = Some []"
    using assms unfolding stdio_ok_def by metis
  obtain w1 where a: "sys_fwrite E f data w0 = (None, w1)" "name w1 f = fname"
      "file w1 fname = Some data"
    using assms o(2,3) unfolding stdio_ok_def by (metis append_Nil)
  obtain w2 where s: "sys_fsync E f w1 = (None, w2)" "file w2 = file w1"
    using assms unfolding stdio_ok_def by metis
  define wc where "wc = (if sync then w2 else w1)"
  obtain w3 where c: "sys_fclose E f wc = (None, w3)" "file w3 = file wc"
    using assms unfolding stdio_ok_def by metis
  have written: "DoWriteStringToFile E data fname sync w = (Status_OK, w3)"
    using c(1) by (cases sync)
      (simp_all add: DoWriteStringToFile_def NewWritableFile_def open_file_def o(1)
        WritableFile_Append_def a(1) WritableFile_Sync_def s(1) WritableFile_Close_def
        sys_status_def Status_ok_def Status_OK_def wc_def)
  have "file w3 fname = Some data" using a(3) s(2) c(2) by (simp add: wc_def)
  then obtain g w4 where g: "sys_fopen E fname Mode_r w3 = (Inr g, w4)" "left w4 g = data"
    using assms unfolding stdio_ok_def by metis
  obtain w5 where "read_loop E fname g [] w4 = Some ((Status_OK, data), w5)"
    using read_loop_whole [OF assms, of fname g "[]" w4] g(2) by auto
  then have "ReadFileToString E fname w3 = Some ((Status_OK, data), snd (sys_fclose E g w5))"
    by (simp add: ReadFileToString_def NewSequentialFile_def open_file_def g(1))
  with written show ?thesis by blast
qed

text \<open>
  C25. On a system without I/O errors the loop of \<^verbatim>\<open>ReadFileToString\<close> ends and
  returns exactly the bytes that \<^verbatim>\<open>WriteStringToFile\<close> (with or without the sync)
  was given, whatever their length.
\<close>

theorem ReadFileToString_Write:
  assumes "stdio_ok E file left name"
  shows "\<exists>w1 w2. DoWriteStringToFile E data fname sync w = (Status_OK, w1) \<and>
    ReadFileToString E fname w1 = Some ((Status_OK, data), w2)"
  by (rule write_then_read [OF assms])

end
