(* ===== verification/Machines.thy ===== *)
theory Machines
  imports Files
begin

text \<open>
  The two built-in state machines and their checkpoint files:
  \<^verbatim>\<open>src/machine/state_machine.cc\<close>, \<^verbatim>\<open>src/machine/membership_machine.cc\<close>
  and \<^verbatim>\<open>src/machine/master_machine.cc\<close>. An operation that can stop the process (a
  failed assertion, an access out of range) returns \<^const>\<open>None\<close> there.
\<close>

section \<open>Checkpoint files\<close>

definition kHeaderSize :: nat where
  "kHeaderSize = 16"

definition Checksum :: "('d, 'w) env \<Rightarrow> bytes \<Rightarrow> bool" where
  "Checksum E data \<longleftrightarrow>
     length data \<ge> kHeaderSize \<and>
     decode32 E (drop (length data - 4) data) = crc32c E (take (length data - 4) data)"

text \<open>
  \<^verbatim>\<open>ReadCheckpoint\<close> for a message type with the given parser, applied to the message
  \<open>m\<close> the caller passes: the message is written only when the parser is reached, and
  then holds whatever the parser left. The length handed to \<^verbatim>\<open>ParseFromArray\<close> is computed
  in \<^verbatim>\<open>int\<close> from the low 32 bits of \<^verbatim>\<open>data.size()\<close>: it is negative for data of
  2 GiB and more, and the subtraction overflows, which has no defined result, just above that size.
  The outer option is also the read loop of the file.
\<close>

definition ReadCheckpoint ::
    "('d, 'w) env \<Rightarrow> (bytes \<Rightarrow> int \<Rightarrow> bool \<times> 'm) \<Rightarrow> u32 \<Rightarrow> u64 \<Rightarrow> string \<Rightarrow> 'm \<Rightarrow> 'w \<Rightarrow>
      ((bool \<times> 'm) \<times> 'w) option" where
  "ReadCheckpoint E parse group_id instance_id fname m w =
     (case ReadFileToString E fname w of
        None \<Rightarrow> None
      | Some ((status, data), w') \<Rightarrow>
         (if \<not> Status_ok status then Some ((False, m), w')
          else if \<not> Checksum E data then Some ((False, m), w')
          else if decode32 E data \<noteq> group_id \<or> decode64 E (drop 4 data) \<noteq> instance_id
            then Some ((False, m), w')
          else let size = sint (word_of_nat (length data) :: u32) - int kHeaderSize
               in if size < - (2 ^ 31) then None else Some (parse (drop 12 data) size, w')))"

definition checkpoint_data :: "('d, 'w) env \<Rightarrow> u32 \<Rightarrow> u64 \<Rightarrow> bytes \<Rightarrow> bytes" where
  "checkpoint_data E group_id instance_id body =
     (let data = encode32 E group_id @ encode64 E instance_id @ body
      in data @ encode32 E (crc32c E data))"

definition WriteCheckpoint ::
    "('d, 'w) env \<Rightarrow> u32 \<Rightarrow> u64 \<Rightarrow> string \<Rightarrow> bytes \<Rightarrow> 'w \<Rightarrow> bool \<times> 'w" where
  "WriteCheckpoint E group_id instance_id fname body w =
     (case WriteStringToFileSync E (checkpoint_data E group_id instance_id body) fname w of
        (status, w') \<Rightarrow> (Status_ok status, w'))"

section \<open>MembershipMachine\<close>

definition member_message :: "Member \<Rightarrow> MemberMessage" where
  "member_message i = \<lparr>mb_id = id_of i, mb_host = host_of i, mb_port = ucast (port_of i),
     mb_context = context_of i\<rparr>"

text \<open>The constructor inserts the members of the options; a second entry with the same id
  is ignored, as \<^verbatim>\<open>insert\<close> does.\<close>

definition MembershipMachine_new :: "Member list \<Rightarrow> Membership" where
  "MembershipMachine_new ms =
     Membership_default\<lparr>ms_members :=
       fold (\<lambda>i m. if map_of m (id_of i) = None then m @ [(id_of i, member_message i)] else m) ms []\<rparr>"

text \<open>The loop of \<^verbatim>\<open>Execute\<close> over the repeated field \<open>type\<close>: it reads
  \<open>member(i)\<close> for each index, which is out of range when there are fewer members.\<close>

fun apply_changes :: "MemberChangeType list \<Rightarrow> MemberMessage list \<Rightarrow> members \<Rightarrow> members option" where
  "apply_changes [] ms m = Some m"
| "apply_changes (t # ts) [] m = None"
| "apply_changes (t # ts) (x # xs) m =
     apply_changes ts xs
       (if t = MEMBER_ADD then AList.update (mb_id x) x m
        else if t = MEMBER_REMOVE then AList.delete (mb_id x) m else m)"

definition run_cb :: "(u32 \<Rightarrow> 'w \<Rightarrow> 'w) option \<Rightarrow> u32 \<Rightarrow> 'w \<Rightarrow> 'w" where
  "run_cb cb g w = (case cb of None \<Rightarrow> w | Some f \<Rightarrow> f g w)"

definition MembershipMachine_Execute ::
    "('d, 'w) env \<Rightarrow> u32 \<Rightarrow> u64 \<Rightarrow> bytes \<Rightarrow> Membership \<Rightarrow> 'w \<Rightarrow> (bool \<times> Membership \<times> 'w) option" where
  "MembershipMachine_Execute E group_id instance_id value m w =
     (if instance_id \<le> ms_version m then Some (False, m, w)
      else (case parse_change E value of
         (True, temp) \<Rightarrow>
           (case apply_changes (mc_type temp) (mc_member temp) (ms_members m) of
              None \<Rightarrow> None
            | Some members' \<Rightarrow>
                Some (True, m\<lparr>ms_members := members', ms_version := instance_id\<rparr>,
                  run_cb (membership_cb E) group_id w))
       | (False, temp) \<Rightarrow> Some (False, m, w)))"

definition kMembershipCheckpoint :: string where
  "kMembershipCheckpoint = ''MEMBERSHIP.db''"

definition MembershipMachine_Recover ::
    "('d, 'w) env \<Rightarrow> u32 \<Rightarrow> u64 \<Rightarrow> string \<Rightarrow> Membership \<Rightarrow> 'w \<Rightarrow> ((bool \<times> Membership) \<times> 'w) option" where
  "MembershipMachine_Recover E group_id instance_id dir m w =
     ReadCheckpoint E (array_membership E) group_id instance_id
       (dir @ ''/'' @ kMembershipCheckpoint) m w"

definition MembershipMachine_WriteCheckpoint ::
    "('d, 'w) env \<Rightarrow> u32 \<Rightarrow> u64 \<Rightarrow> string \<Rightarrow> Membership \<Rightarrow> 'w \<Rightarrow> bool \<times> 'w" where
  "MembershipMachine_WriteCheckpoint E group_id instance_id dir m w =
     WriteCheckpoint E group_id instance_id (dir @ ''/'' @ kMembershipCheckpoint)
       (ser_membership E m) w"

definition MembershipMachine_GetCheckpoint :: "string list \<Rightarrow> bool \<times> string list" where
  "MembershipMachine_GetCheckpoint files = (True, files @ [kMembershipCheckpoint])"

section \<open>MasterMachine\<close>

definition kMasterCheckpoint :: string where
  "kMasterCheckpoint = ''MASTER.db''"

text \<open>The context of a master proposal is the address of the proposer's clock reading, and a node
  without a context reads its own clock. A context a user passed with a proposal for this machine
  is read as the address of a 64-bit time, too.\<close>

definition MasterMachine_Execute ::
    "('d, 'w) env \<Rightarrow> u32 \<Rightarrow> u64 \<Rightarrow> bytes \<Rightarrow> ctx_ptr \<Rightarrow> MasterState \<Rightarrow> 'w \<Rightarrow> bool \<times> MasterState \<times> 'w" where
  "MasterMachine_Execute E group_id instance_id value context st w =
     (if instance_id \<le> mst_version st then (False, st, w)
      else (case parse_master E value of
         (True, state) \<Rightarrow>
           (let (now, w1) = (case context of Null \<Rightarrow> NowMillis E w
                              | UserContext p \<Rightarrow> (read_u64 E p w, w) | NowContext n \<Rightarrow> (n, w));
                state' = state\<lparr>mst_version := instance_id,
                               mst_lease_time := now + mst_lease_time state\<rparr>
            in (True, state', run_cb (master_cb E) group_id w1))
       | (False, state) \<Rightarrow> (False, st, w)))"

definition MasterMachine_Recover ::
    "('d, 'w) env \<Rightarrow> u32 \<Rightarrow> u64 \<Rightarrow> string \<Rightarrow> MasterState \<Rightarrow> 'w \<Rightarrow> ((bool \<times> MasterState) \<times> 'w) option" where
  "MasterMachine_Recover E group_id instance_id dir st w =
     (case ReadCheckpoint E (array_master E) group_id instance_id
             (dir @ ''/'' @ kMasterCheckpoint) st w of
        None \<Rightarrow> None
      | Some ((False, st'), w') \<Rightarrow> Some ((True, st'), w')
      | Some ((True, st'), w') \<Rightarrow>
         (let (now, w'') = NowMillis E w'
          in Some ((True,
               if mst_node_id st' \<noteq> cfg_node_id E then st'\<lparr>mst_lease_time := now + mst_lease_time st'\<rparr>
               else st'\<lparr>mst_lease_time := now\<rparr>), w'')))"

definition MasterMachine_WriteCheckpoint ::
    "('d, 'w) env \<Rightarrow> u32 \<Rightarrow> u64 \<Rightarrow> string \<Rightarrow> MasterState \<Rightarrow> 'w \<Rightarrow> bool \<times> 'w" where
  "MasterMachine_WriteCheckpoint E group_id instance_id dir st w =
     WriteCheckpoint E group_id instance_id (dir @ ''/'' @ kMasterCheckpoint) (ser_master E st) w"

definition MasterMachine_GetCheckpoint :: "string list \<Rightarrow> bool \<times> string list" where
  "MasterMachine_GetCheckpoint files = (True, files @ [kMasterCheckpoint])"

text \<open>The result \<^const>\<open>None\<close> is the return value false, with the outputs unwritten.\<close>

definition MasterMachine_GetMaster :: "('d, 'w) env \<Rightarrow> MasterState \<Rightarrow> 'w \<Rightarrow> (u64 \<times> u64) option" where
  "MasterMachine_GetMaster E st w =
     (if mst_lease_time st > fst (NowMicros E w) then Some (mst_node_id st, mst_version st) else None)"

definition MasterMachine_IsMaster :: "('d, 'w) env \<Rightarrow> MasterState \<Rightarrow> 'w \<Rightarrow> bool" where
  "MasterMachine_IsMaster E st w \<longleftrightarrow>
     mst_node_id st = cfg_node_id E \<and> mst_lease_time st > fst (NowMillis E w)"

section \<open>Checkpoint files read back\<close>

lemma Checksum_data:
  assumes "coding_ok E"
  shows "Checksum E (checkpoint_data E g i body)"
  using coding_okD [OF assms]
  by (simp add: Checksum_def checkpoint_data_def Let_def kHeaderSize_def)

lemma checkpoint_data_fields:
  assumes "coding_ok E"
  shows "decode32 E (checkpoint_data E g i body) = g"
    and "decode64 E (drop 4 (checkpoint_data E g i body)) = i"
    and "drop 12 (checkpoint_data E g i body) =
           body @ encode32 E (crc32c E (encode32 E g @ encode64 E i @ body))"
    and "length (checkpoint_data E g i body) = length body + kHeaderSize"
  using coding_okD [OF assms]
  by (simp_all add: checkpoint_data_def Let_def kHeaderSize_def)

text \<open>Below 2 GiB the conversion to \<^verbatim>\<open>int\<close> keeps the size.\<close>

lemma sint_small: "n < 2 ^ 31 \<Longrightarrow> sint (word_of_nat n :: u32) = int n"
  by (simp add: signed_of_nat signed_take_bit_int_eq_self)

text \<open>
  C22. A checkpoint written for a group and an instance is read back whole for the same
  group and instance, provided its file stays below 2 GiB, beyond which the size no longer fits the
  \<^verbatim>\<open>int\<close> it is converted to; for any other group or instance it is refused and the caller's
  message is left as it was.
\<close>

theorem Checkpoint_roundtrip:
  assumes cod: "coding_ok E" and io: "stdio_ok E file left name"
    and codec: "array_codec_ok ser parse" and small: "length (ser m) + kHeaderSize < 2 ^ 31"
  shows "\<exists>w1 w2. WriteCheckpoint E g i fname (ser m) w = (True, w1) \<and>
    ReadCheckpoint E parse g' i' fname m0 w1 =
      Some (if g' = g \<and> i' = i then (True, m) else (False, m0), w2)"
proof -
  let ?data = "checkpoint_data E g i (ser m)"
  have size: "sint (word_of_nat (length ?data) :: u32) - int kHeaderSize = int (length (ser m))"
    using sint_small [of "length ?data"] small by (simp only: checkpoint_data_fields(4) [OF cod])
  obtain w1 w2 where "DoWriteStringToFile E ?data fname True w = (Status_OK, w1)"
      and r: "ReadFileToString E fname w1 = Some ((Status_OK, ?data), w2)"
    using write_then_read [OF io] by blast
  then have "WriteCheckpoint E g i fname (ser m) w = (True, w1)"
    by (simp add: WriteCheckpoint_def WriteStringToFileSync_def Status_ok_def Status_OK_def)
  moreover have "ReadCheckpoint E parse g' i' fname m0 w1 =
      Some (if g' = g \<and> i' = i then (True, m) else (False, m0), w2)"
    using codec small
    by (auto simp: ReadCheckpoint_def r Status_ok_def Status_OK_def Checksum_data [OF cod]
        checkpoint_data_fields(1,2) [OF cod] Let_def size array_codec_ok_def
        checkpoint_data_fields(3) [OF cod])
  ultimately show ?thesis by blast
qed

section \<open>Membership\<close>

text \<open>Distinct keys: the association list is a protobuf map.\<close>

definition members_ok :: "Membership \<Rightarrow> bool" where
  "members_ok m \<longleftrightarrow> distinct (map fst (ms_members m))"

lemma apply_changes_distinct:
  "distinct (map fst m) \<Longrightarrow> apply_changes ts xs m = Some m' \<Longrightarrow> distinct (map fst m')"
  by (induction ts xs m rule: apply_changes.induct)
    (auto simp: distinct_update distinct_delete)

lemma members_ok_new [simp]: "members_ok (MembershipMachine_new ms)"
proof -
  have "distinct (map fst (fold (\<lambda>i m. if map_of m (id_of i) = None
      then m @ [(id_of i, member_message i)] else m) ms []))"
    by (rule fold_keeps) (auto simp: map_of_eq_None_iff)
  then show ?thesis by (simp add: members_ok_def MembershipMachine_new_def)
qed

lemma members_ok_Execute:
  "members_ok m \<Longrightarrow> MembershipMachine_Execute E g i v m w = Some (r, m', w') \<Longrightarrow> members_ok m'"
  by (auto simp: MembershipMachine_Execute_def members_ok_def dest: apply_changes_distinct
      split: if_splits prod.splits bool.splits option.splits)

text \<open>The reference meaning of a change list: the last change to an id decides.\<close>

lemma apply_changes_meaning:
  assumes "apply_changes ts xs m = Some m'" and "distinct (map fst m)"
  shows "map_of m' = fold (\<lambda>(t, x) f. if t = MEMBER_ADD then f(mb_id x \<mapsto> x)
           else if t = MEMBER_REMOVE then f(mb_id x := None) else f) (zip ts xs) (map_of m)"
  using assms
proof (induction ts xs m rule: apply_changes.induct)
  case (3 t ts x xs m)
  then show ?case
    by (auto simp: distinct_update distinct_delete update_conv' delete_conv' split: if_splits)
qed auto

end
