(* ===== verification/Timers.thy ===== *)
theory Timers
  imports Env "HOL-Library.Product_Lexorder"
begin

text \<open>
  The timer list of a run loop, \<^verbatim>\<open>src/util/timerlist.cc\<close>, and the loop itself,
  \<^verbatim>\<open>src/util/runloop.cc\<close>. A callback is a value of the type parameter \<open>'f\<close>;
  what running it does belongs to the component that owns the loop. A timer is a heap object
  with an address; the ordered set \<^verbatim>\<open>timers_\<close> is a list of pairs (deadline,
  address) in increasing order, as \<^verbatim>\<open>std::set\<close> iterates it.
\<close>

section \<open>Data\<close>

record 'f timer =
  ms_value :: u64
  ms_interval :: u64
  timerproc_cb :: 'f

type_synonym TimerId = "u64 \<times> nat"

record 'f timerlist =
  last_time_out :: u64
  timers :: "TimerId list"
  timer_ptrs :: "nat list"
  timer_heap :: "(nat \<times> 'f timer) list"

text \<open>Insertion into and removal from an ordered set.\<close>

definition set_insert :: "'a::linorder \<Rightarrow> 'a list \<Rightarrow> 'a list" where
  "set_insert x xs = (if x \<in> set xs then xs else insort x xs)"

section \<open>TimerList\<close>

definition TimerList_new :: "u64 \<Rightarrow> 'f timerlist" where
  "TimerList_new now = \<lparr>last_time_out = now, timers = [], timer_ptrs = [], timer_heap = []\<rparr>"

text \<open>The body of the closure \<^verbatim>\<open>InsertInLoop\<close> hands to the loop.\<close>

definition InsertInLoop :: "TimerId \<Rightarrow> 'f timerlist \<Rightarrow> 'f timerlist" where
  "InsertInLoop t L =
     L\<lparr>timers := set_insert t (timers L), timer_ptrs := set_insert (snd t) (timer_ptrs L)\<rparr>"

text \<open>\<^verbatim>\<open>new Timer\<close> at the address \<open>p\<close>.\<close>

definition Timer_new :: "nat \<Rightarrow> u64 \<Rightarrow> u64 \<Rightarrow> 'f \<Rightarrow> 'f timerlist \<Rightarrow> 'f timerlist" where
  "Timer_new p value interval cb L =
     L\<lparr>timer_heap := AList.update p
          \<lparr>ms_value = value, ms_interval = interval, timerproc_cb = cb\<rparr> (timer_heap L)\<rparr>"

text \<open>The body of the closure of \<^verbatim>\<open>Remove\<close>: only the address of the handle is
  looked up, and the deadline is read from the timer it finds there.\<close>

definition TimerList_Remove :: "TimerId \<Rightarrow> 'f timerlist \<Rightarrow> 'f timerlist" where
  "TimerList_Remove t L =
     (if snd t \<in> set (timer_ptrs L) then
        (case map_of (timer_heap L) (snd t) of
           None \<Rightarrow> L
         | Some tm \<Rightarrow>
             L\<lparr>timer_ptrs := remove1 (snd t) (timer_ptrs L),
                timers := remove1 (ms_value tm, snd t) (timers L),
                timer_heap := AList.delete (snd t) (timer_heap L)\<rparr>)
      else L)"

definition TimerList_TimeoutMs :: "u64 \<Rightarrow> 'f timerlist \<Rightarrow> u64" where
  "TimerList_TimeoutMs now L =
     (case timers L of
        [] \<Rightarrow> - 1
      | t # _ \<Rightarrow>
         (if now < last_time_out L then 0
          else if fst t \<le> now then 0 else fst t - now))"

text \<open>\<^verbatim>\<open>RunTimerProcs\<close> first moves every deadline back when the clock has gone
  backwards, \<dots>\<close>

definition shift_back :: "u64 \<Rightarrow> u64 \<Rightarrow> u64" where
  "shift_back diff v = (if v > diff then v - diff else 0)"

definition AdjustTimers :: "u64 \<Rightarrow> 'f timerlist \<Rightarrow> 'f timerlist" where
  "AdjustTimers now L =
     (let L' =
        (if now < last_time_out L then
           (let diff = last_time_out L - now
            in L\<lparr>timers := fold (\<lambda>t. set_insert (shift_back diff (fst t), snd t)) (timers L) [],
                  timer_heap := fold (\<lambda>t h. case map_of h (snd t) of None \<Rightarrow> h
                     | Some tm \<Rightarrow> AList.update (snd t)
                         (tm\<lparr>ms_value := shift_back diff (fst t)\<rparr>) h)
                   (timers L) (timer_heap L)\<rparr>)
         else L)
      in L'\<lparr>last_time_out := now\<rparr>)"

text \<open>\<dots> then takes due timers off the front one by one. One turn of that loop, up to
  the call of the callback: \<^const>\<open>None\<close> is the \<^verbatim>\<open>break\<close>.\<close>

definition PopDue :: "u64 \<Rightarrow> 'f timerlist \<Rightarrow> ('f \<times> 'f timerlist) option" where
  "PopDue now L =
     (case timers L of
        [] \<Rightarrow> None
      | t # rest \<Rightarrow>
         (if fst t \<le> now then
            (case map_of (timer_heap L) (snd t) of
               None \<Rightarrow> None
             | Some tm \<Rightarrow>
                 Some (timerproc_cb tm,
                   if ms_interval tm > 0 then
                     (let v = now + ms_interval tm
                      in L\<lparr>timers := set_insert (v, snd t) rest,
                            timer_heap := AList.update (snd t) (tm\<lparr>ms_value := v\<rparr>) (timer_heap L)\<rparr>)
                   else L\<lparr>timers := rest,
                           timer_ptrs := remove1 (snd t) (timer_ptrs L),
                           timer_heap := AList.delete (snd t) (timer_heap L)\<rparr>))
          else None))"

text \<open>
  The whole method on a state \<open>s\<close> that holds the timer list (\<open>get\<close>, \<open>put\<close>):
  \<open>exec\<close> runs a callback, which may add and remove timers. The loop may run for ever
  (a callback can schedule itself in the past), hence the option.
\<close>

partial_function (option) RunDue ::
    "('s \<Rightarrow> 'f timerlist) \<Rightarrow> ('f timerlist \<Rightarrow> 's \<Rightarrow> 's) \<Rightarrow> ('f \<Rightarrow> 's \<Rightarrow> 's) \<Rightarrow> u64 \<Rightarrow> 's \<Rightarrow> 's option"
where
  "RunDue get put exec now s =
     (case PopDue now (get s) of
        None \<Rightarrow> Some s
      | Some (cb, L) \<Rightarrow> RunDue get put exec now (exec cb (put L s)))"

definition RunTimerProcs ::
    "('s \<Rightarrow> 'f timerlist) \<Rightarrow> ('f timerlist \<Rightarrow> 's \<Rightarrow> 's) \<Rightarrow> ('f \<Rightarrow> 's \<Rightarrow> 's) \<Rightarrow> u64 \<Rightarrow> 's \<Rightarrow> 's option"
where
  "RunTimerProcs get put exec now s =
     (if timers (get s) = [] then Some s
      else RunDue get put exec now (put (AdjustTimers now (get s)) s))"

section \<open>RunLoop\<close>

text \<open>A queued function is one of the loop's users, or the closure by which another thread
  inserts or removes a timer.\<close>

datatype 'f func = Func 'f | InsertTimer TimerId | RemoveTimer TimerId

record 'f runloop =
  exit_flag :: bool
  funcs :: "'f func list"
  timer_list :: "'f timerlist"

text \<open>A loop is made by its thread, and its list of timers takes the time of that moment. The
  loops a group works with, by their names: the construction of a group takes the time at which
  each of them was made.\<close>

datatype loop_name = IoLoop | CallbackLoop | LearnLoop | CleanLoop | MasterLoop

definition RunLoop_new :: "u64 \<Rightarrow> 'f runloop" where
  "RunLoop_new now = \<lparr>exit_flag = False, funcs = [], timer_list = TimerList_new now\<rparr>"

definition RunLoop_QueueInLoop :: "'f func \<Rightarrow> 'f runloop \<Rightarrow> 'f runloop" where
  "RunLoop_QueueInLoop f l = l\<lparr>funcs := funcs l @ [f]\<rparr>"

definition RunLoop_Exit :: "'f runloop \<Rightarrow> 'f runloop" where
  "RunLoop_Exit l = l\<lparr>exit_flag := True\<rparr>"

text \<open>\<^verbatim>\<open>RunInLoop\<close> of a timer closure: executed at once in the loop's thread,
  queued from any other.\<close>

definition RunInLoop_timer :: "bool \<Rightarrow> 'f func \<Rightarrow> 'f runloop \<Rightarrow> 'f runloop" where
  "RunInLoop_timer in_my_loop f l =
     (if in_my_loop then
        (case f of
           InsertTimer t \<Rightarrow> l\<lparr>timer_list := InsertInLoop t (timer_list l)\<rparr>
         | RemoveTimer t \<Rightarrow> l\<lparr>timer_list := TimerList_Remove t (timer_list l)\<rparr>
         | Func _ \<Rightarrow> l)
      else RunLoop_QueueInLoop f l)"

text \<open>
  \<^verbatim>\<open>RunAt\<close>, \<^verbatim>\<open>RunAfter\<close>, \<^verbatim>\<open>RunEvery\<close> and \<^verbatim>\<open>Remove\<close> of the
  loop, which hand over to the timer list: the timer is allocated by the caller, at the
  address \<open>p\<close>, and inserted through \<^verbatim>\<open>RunInLoop\<close>. \<open>now\<close> is the clock.
\<close>

definition schedule ::
    "bool \<Rightarrow> nat \<Rightarrow> u64 \<Rightarrow> u64 \<Rightarrow> 'f \<Rightarrow> 'f runloop \<Rightarrow> TimerId \<times> 'f runloop" where
  "schedule in_my_loop p value interval cb l =
     ((value, p), RunInLoop_timer in_my_loop (InsertTimer (value, p))
        (l\<lparr>timer_list := Timer_new p value interval cb (timer_list l)\<rparr>))"

definition RunAt :: "bool \<Rightarrow> nat \<Rightarrow> u64 \<Rightarrow> 'f \<Rightarrow> 'f runloop \<Rightarrow> TimerId \<times> 'f runloop" where
  "RunAt in_my_loop p value cb l = schedule in_my_loop p value 0 cb l"

definition RunAfter :: "bool \<Rightarrow> nat \<Rightarrow> u64 \<Rightarrow> u64 \<Rightarrow> 'f \<Rightarrow> 'f runloop \<Rightarrow> TimerId \<times> 'f runloop" where
  "RunAfter in_my_loop p now delay cb l = schedule in_my_loop p (now + delay) 0 cb l"

definition RunEvery :: "bool \<Rightarrow> nat \<Rightarrow> u64 \<Rightarrow> u64 \<Rightarrow> 'f \<Rightarrow> 'f runloop \<Rightarrow> TimerId \<times> 'f runloop" where
  "RunEvery in_my_loop p now interval cb l =
     schedule in_my_loop p (now + interval) interval cb l"

definition RunLoop_Remove :: "bool \<Rightarrow> TimerId \<Rightarrow> 'f runloop \<Rightarrow> 'f runloop" where
  "RunLoop_Remove in_my_loop t l = RunInLoop_timer in_my_loop (RemoveTimer t) l"

section \<open>The invariant of the timer list\<close>

text \<open>
  The three containers agree: \<^verbatim>\<open>timers_\<close> is a strictly sorted list, its addresses are
  exactly those of \<^verbatim>\<open>timer_ptrs_\<close>, each once, and each is the address of a live
  timer whose deadline is the one it is filed under.
\<close>

definition timers_ok :: "'f timerlist \<Rightarrow> bool" where
  "timers_ok L \<longleftrightarrow>
     sorted (timers L) \<and> distinct (map snd (timers L)) \<and>
     set (timer_ptrs L) = snd ` set (timers L) \<and> distinct (timer_ptrs L) \<and>
     (\<forall>(v, p) \<in> set (timers L). \<exists>tm. map_of (timer_heap L) p = Some tm \<and> ms_value tm = v)"

lemma set_insert_set [simp]: "set (set_insert x xs) = insert x (set xs)"
  by (auto simp: set_insert_def set_insort_key)

lemma set_insert_sorted [simp]: "sorted xs \<Longrightarrow> sorted (set_insert x xs)"
  by (simp add: set_insert_def sorted_insort)

lemma set_insert_distinct [simp]: "distinct xs \<Longrightarrow> distinct (set_insert x xs)"
  by (simp add: set_insert_def distinct_insort)

lemma distinct_snd_insert:
  assumes "distinct (map snd xs)" and "p \<notin> snd ` set xs"
  shows "distinct (map snd (set_insert (v, p) xs))"
proof -
  have "distinct (map snd (insort (v, p) xs))"
    using assms by (induction xs) (auto simp: set_insort_key)
  with assms show ?thesis by (simp add: set_insert_def)
qed

lemma timers_ok_new [simp]: "timers_ok (TimerList_new now)"
  by (simp add: timers_ok_def TimerList_new_def)

lemma timers_ok_Insert:
  assumes ok: "timers_ok L" and fresh: "p \<notin> set (timer_ptrs L)"
    and tm: "map_of (timer_heap L) p = Some tm" "ms_value tm = v"
  shows "timers_ok (InsertInLoop (v, p) L)"
proof -
  have notin: "p \<notin> snd ` set (timers L)" using ok fresh by (simp add: timers_ok_def)
  then show ?thesis
    using ok tm distinct_snd_insert [of "timers L" p v] by (auto simp: timers_ok_def InsertInLoop_def)
qed

lemma timers_ok_new_timer:
  assumes ok: "timers_ok L" and fresh: "p \<notin> set (timer_ptrs L)"
  shows "timers_ok (Timer_new p v i cb L)"
proof -
  have "q \<noteq> p" if "(w, q) \<in> set (timers L)" for w q using ok fresh that by (force simp: timers_ok_def)
  with ok show ?thesis by (auto simp: timers_ok_def Timer_new_def update_conv' split: prod.splits)
qed

text \<open>Scheduling at a fresh address keeps the invariant.\<close>

lemma timers_ok_schedule:
  assumes ok: "timers_ok L" and fresh: "p \<notin> set (timer_ptrs L)"
  shows "timers_ok (InsertInLoop (v, p) (Timer_new p v i cb L))"
  by (rule timers_ok_Insert [OF timers_ok_new_timer [OF ok fresh], where tm = "\<lparr>ms_value = v, ms_interval = i, timerproc_cb = cb\<rparr>"])
    (use fresh in \<open>simp_all add: Timer_new_def update_conv'\<close>)

lemma timers_ok_Remove:
  assumes ok: "timers_ok L"
  shows "timers_ok (TimerList_Remove t L)"
proof (cases "snd t \<in> set (timer_ptrs L)")
  case True
  then obtain v where v: "(v, snd t) \<in> set (timers L)"
    using ok by (auto simp: timers_ok_def)
  then obtain tm where tm: "map_of (timer_heap L) (snd t) = Some tm" "ms_value tm = v"
    using ok by (auto simp: timers_ok_def)
  have d: "distinct (timers L)" "distinct (map snd (timers L))" "sorted (timers L)"
    "distinct (timer_ptrs L)" "set (timer_ptrs L) = snd ` set (timers L)"
    using ok by (auto simp: timers_ok_def distinct_map)
  have other: "q \<noteq> snd t" if "(w, q) \<in> set (timers L) - {(v, snd t)}" for w q
  proof
    assume "q = snd t"
    moreover have "inj_on snd (set (timers L))" using d(2) by (simp add: distinct_map)
    ultimately have "(w, q) = (v, snd t)" using that v by (intro inj_onD [of snd]) auto
    with that show False by simp
  qed
  have img: "snd ` (set (timers L) - {(v, snd t)}) = snd ` set (timers L) - {snd t}"
    using other by force
  have live: "\<forall>x \<in> set (timers L) - {(v, snd t)}.
      \<exists>tm. map_of (AList.delete (snd t) (timer_heap L)) (snd x) = Some tm \<and> ms_value tm = fst x"
  proof
    fix x assume x: "x \<in> set (timers L) - {(v, snd t)}"
    then have "snd x \<noteq> snd t" using other [of "fst x" "snd x"] by simp
    with x ok show "\<exists>tm. map_of (AList.delete (snd t) (timer_heap L)) (snd x) = Some tm \<and>
        ms_value tm = fst x"
      by (auto simp: timers_ok_def delete_conv')
  qed
  have eq: "TimerList_Remove t L = L\<lparr>timer_ptrs := remove1 (snd t) (timer_ptrs L),
      timers := remove1 (v, snd t) (timers L),
      timer_heap := AList.delete (snd t) (timer_heap L)\<rparr>"
    using True tm by (simp add: TimerList_Remove_def)
  have "distinct (map snd (remove1 (v, snd t) (timers L)))"
    using d(1,2) by (auto simp: distinct_map intro: inj_on_diff)
  then show ?thesis
    using d(1,3,4,5) img live by (simp add: eq timers_ok_def sorted_remove1 case_prod_unfold)
next
  case False
  then show ?thesis using ok by (simp add: TimerList_Remove_def)
qed

text \<open>After a removal the handle's timer is gone, whatever deadline it had by then.\<close>

lemma Remove_gone:
  "timers_ok L \<Longrightarrow> snd t \<notin> set (timer_ptrs (TimerList_Remove t L))"
  by (auto simp: TimerList_Remove_def timers_ok_def split: option.splits)

section \<open>Due timers run in deadline order\<close>

lemma PopDue_earliest:
  assumes "timers_ok L" and "PopDue now L = Some (cb, L')"
  obtains v p tm where "(v, p) = Min (set (timers L))" "v \<le> now"
    "map_of (timer_heap L) p = Some tm" "timerproc_cb tm = cb" "ms_value tm = v"
proof -
  from assms(2) obtain v p rest tm where t: "timers L = (v, p) # rest" "v \<le> now"
      "map_of (timer_heap L) p = Some tm" "timerproc_cb tm = cb"
    by (auto simp: PopDue_def split: list.splits if_splits option.splits)
  moreover have "(v, p) = Min (set (timers L))"
    using assms(1) t(1) by (auto simp: timers_ok_def intro!: Min_eqI [symmetric])
  moreover have "ms_value tm = v"
    using assms(1) t by (auto simp: timers_ok_def)
  ultimately show thesis using that by blast
qed

lemma PopDue_None_iff:
  assumes "timers_ok L"
  shows "PopDue now L = None \<longleftrightarrow> (\<forall>(v, p) \<in> set (timers L). now < v)"
proof (cases "timers L")
  case Nil
  then show ?thesis by (simp add: PopDue_def)
next
  case (Cons t rest)
  then have "map_of (timer_heap L) (snd t) \<noteq> None" "\<forall>u\<in>set rest. t \<le> u"
    using assms by (auto simp: timers_ok_def)
  then show ?thesis
    using Cons by (auto simp: PopDue_def not_le less_eq_prod_def dest: less_trans order.strict_trans1)
qed

section \<open>The callbacks that are set\<close>

text \<open>The callback of the timer at an address, if one is running there.\<close>

definition live_cb :: "'f timerlist \<Rightarrow> nat \<rightharpoonup> 'f" where
  "live_cb L p =
     (if p \<in> set (timer_ptrs L) then map_option timerproc_cb (map_of (timer_heap L) p) else None)"

lemma live_cb_schedule:
  "live_cb (InsertInLoop (v, p) (Timer_new p v i cb L)) = (live_cb L)(p \<mapsto> cb)"
  by (auto simp: live_cb_def InsertInLoop_def Timer_new_def update_conv' fun_eq_iff)

lemma live_cb_Remove:
  "timers_ok L \<Longrightarrow> live_cb (TimerList_Remove t L) = (live_cb L)(snd t := None)"
  by (auto simp: live_cb_def TimerList_Remove_def timers_ok_def delete_conv' fun_eq_iff
      split: option.splits)

lemma timers_ok_pop:
  assumes ok: "timers_ok L" and ts: "timers L = t # rest"
  shows "distinct (timers L)" "snd t \<in> set (timer_ptrs L)" "snd t \<notin> snd ` set rest"
    "sorted rest" "distinct (map snd rest)" "set (remove1 (snd t) (timer_ptrs L)) = snd ` set rest"
    "distinct (remove1 (snd t) (timer_ptrs L))"
    "\<And>v p. (v, p) \<in> set rest \<Longrightarrow> \<exists>tm. map_of (timer_heap L) p = Some tm \<and> ms_value tm = v"
    "\<exists>tm. map_of (timer_heap L) (snd t) = Some tm \<and> ms_value tm = fst t"
  using assms by (auto simp: timers_ok_def distinct_map)

lemma timers_ok_remove_head:
  assumes ok: "timers_ok L" and ts: "timers L = t # rest"
  shows "timers_ok (L\<lparr>timers := rest, timer_ptrs := remove1 (snd t) (timer_ptrs L),
    timer_heap := AList.delete (snd t) (timer_heap L)\<rparr>)"
proof -
  note p = timers_ok_pop [OF assms]
  have "\<exists>tm. map_of (AList.delete (snd t) (timer_heap L)) q = Some tm \<and> ms_value tm = w"
    if "(w, q) \<in> set rest" for w q
  proof -
    have "q \<noteq> snd t" using p(3) that by (metis image_eqI snd_conv)
    with p(8) [OF that] show ?thesis by (simp add: delete_conv')
  qed
  with p(4-7) show ?thesis by (auto simp: timers_ok_def)
qed

lemma timers_ok_rearm:
  assumes ok: "timers_ok L" and ts: "timers L = t # rest" and v: "ms_value tm = v"
  shows "timers_ok (L\<lparr>timers := set_insert (v, snd t) rest,
    timer_heap := AList.update (snd t) tm (timer_heap L)\<rparr>)"
proof -
  note p = timers_ok_pop [OF ok ts]
  have live: "\<forall>x \<in> insert (v, snd t) (set rest).
      \<exists>tm'. map_of (AList.update (snd t) tm (timer_heap L)) (snd x) = Some tm' \<and> ms_value tm' = fst x"
  proof
    fix x assume x: "x \<in> insert (v, snd t) (set rest)"
    show "\<exists>tm'. map_of (AList.update (snd t) tm (timer_heap L)) (snd x) = Some tm' \<and> ms_value tm' = fst x"
    proof (cases "x = (v, snd t)")
      case False
      with x have "x \<in> set rest" by simp
      moreover from this have "snd x \<noteq> snd t" using p(3) by (metis image_eqI)
      ultimately show ?thesis using p(8) [of "fst x" "snd x"] by (simp add: update_conv')
    qed (simp add: update_conv' v)
  qed
  have "set (timer_ptrs L) = snd ` insert (v, snd t) (set rest)" "distinct (timer_ptrs L)"
    using ok ts by (auto simp: timers_ok_def)
  with live show ?thesis
    using p(4) distinct_snd_insert [OF p(5,3), of v]
    by (simp add: timers_ok_def case_prod_unfold)
qed

text \<open>Taking a due timer: the invariant stays, the callback was set, and it is gone unless the
  timer repeats.\<close>

lemma PopDue_live:
  assumes ok: "timers_ok L" and pop: "PopDue now L = Some (cb, L')"
  obtains p where "live_cb L p = Some cb" "timers_ok L'"
    "live_cb L' = live_cb L \<or> live_cb L' = (live_cb L)(p := None)"
    "(\<forall>tm. map_of (timer_heap L) p = Some tm \<longrightarrow> ms_interval tm = 0) \<longrightarrow> live_cb L' = (live_cb L)(p := None)"
proof -
  from pop obtain t rest tm where t: "timers L = t # rest" "map_of (timer_heap L) (snd t) = Some tm"
      "timerproc_cb tm = cb"
    by (auto simp: PopDue_def split: list.splits if_splits option.splits)
  note p = timers_ok_pop [OF ok t(1)]
  show thesis
  proof (cases "ms_interval tm > 0")
    case True
    let ?v = "now + ms_interval tm"
    have L': "L' = L\<lparr>timers := set_insert (?v, snd t) rest,
        timer_heap := AList.update (snd t) (tm\<lparr>ms_value := ?v\<rparr>) (timer_heap L)\<rparr>"
      using pop t True by (auto simp: PopDue_def Let_def split: if_splits)
    have "live_cb L' = live_cb L"
      using t(2) by (auto simp: L' live_cb_def fun_eq_iff update_conv')
    moreover have "timers_ok L'" unfolding L' by (rule timers_ok_rearm [OF ok t(1)]) simp
    ultimately show thesis using p(2) t(2,3) True by (intro that [of "snd t"]) (simp_all add: live_cb_def)
  next
    case False
    have L': "L' = L\<lparr>timers := rest, timer_ptrs := remove1 (snd t) (timer_ptrs L),
        timer_heap := AList.delete (snd t) (timer_heap L)\<rparr>"
      using pop t False by (auto simp: PopDue_def split: if_splits)
    have "live_cb L' = (live_cb L)(snd t := None)"
      using ok by (auto simp: L' live_cb_def fun_eq_iff delete_conv' timers_ok_def)
    moreover have "timers_ok L'" unfolding L' by (rule timers_ok_remove_head [OF ok t(1)])
    ultimately show thesis using p(2) t(2,3) by (intro that [of "snd t"]) (simp_all add: live_cb_def)
  qed
qed

section \<open>A clock that goes backwards\<close>

text \<open>Moving every deadline back re-files the same timers under their new deadlines.\<close>

lemma shift_timers:
  fixes f :: "u64 \<Rightarrow> u64"
  assumes "distinct (map snd ts)" "distinct (map snd acc)" "sorted acc"
    "snd ` set ts \<inter> snd ` set acc = {}"
  shows "let ts' = fold (\<lambda>t. set_insert (f (fst t), snd t)) ts acc
    in sorted ts' \<and> distinct (map snd ts') \<and> set ts' = (\<lambda>t. (f (fst t), snd t)) ` set ts \<union> set acc"
  using assms
proof (induction ts arbitrary: acc)
  case (Cons t ts)
  let ?acc = "set_insert (f (fst t), snd t) acc"
  have "distinct (map snd ?acc)" using Cons.prems by (intro distinct_snd_insert) auto
  moreover have "snd ` set ts \<inter> snd ` set ?acc = {}" using Cons.prems by auto
  ultimately show ?case using Cons.IH [of ?acc] Cons.prems by (auto simp: Let_def)
qed (simp add: Let_def)

lemma shift_heap:
  fixes f :: "u64 \<Rightarrow> u64"
  assumes "distinct (map snd ts)"
  defines "step \<equiv> \<lambda>t h. case map_of h (snd t) of None \<Rightarrow> h
    | Some tm \<Rightarrow> AList.update (snd t) (tm\<lparr>ms_value := f (fst t)\<rparr>) h"
  shows "map_of (fold step ts h) p =
    (case find (\<lambda>t. snd t = p) ts of None \<Rightarrow> map_of h p
     | Some t \<Rightarrow> map_option (\<lambda>tm. tm\<lparr>ms_value := f (fst t)\<rparr>) (map_of h p))"
  using assms(1)
proof (induction ts arbitrary: h)
  case (Cons t ts)
  have one: "map_of (step t h) p = (if snd t = p then map_option (\<lambda>tm. tm\<lparr>ms_value := f (fst t)\<rparr>) (map_of h p)
      else map_of h p)"
    by (auto simp: step_def update_conv' split: option.split)
  have "snd t = p \<Longrightarrow> find (\<lambda>t. snd t = p) ts = None"
    using Cons.prems by (fastforce simp: find_None_iff image_iff)
  with one Cons show ?case by (auto simp: option.map_comp o_def split: option.splits)
qed simp

lemma find_snd: "distinct (map snd ts) \<Longrightarrow> t \<in> set ts \<Longrightarrow> find (\<lambda>u. snd u = snd t) ts = Some t"
  by (induction ts) (auto simp: image_iff)

lemma AdjustTimers_ok:
  assumes ok: "timers_ok L"
  shows "timers_ok (AdjustTimers now L)" and "live_cb (AdjustTimers now L) = live_cb L"
    and "map_of (timer_heap (AdjustTimers now L)) p = Some tm \<Longrightarrow>
      \<exists>tm'. map_of (timer_heap L) p = Some tm' \<and> ms_interval tm = ms_interval tm'"
proof -
  define f where "f = shift_back (last_time_out L - now)"
  define h where "h = timer_heap (AdjustTimers now L)"
  have d: "distinct (map snd (timers L))" using ok by (simp add: timers_ok_def)
  have heap: "now < last_time_out L \<Longrightarrow> map_of h p =
    (case find (\<lambda>t. snd t = p) (timers L) of None \<Rightarrow> map_of (timer_heap L) p
     | Some t \<Rightarrow> map_option (\<lambda>tm. tm\<lparr>ms_value := f (fst t)\<rparr>) (map_of (timer_heap L) p))" for p
    using shift_heap [OF d, of f "timer_heap L" p] unfolding h_def AdjustTimers_def Let_def f_def by simp
  have same: "\<not> now < last_time_out L \<Longrightarrow> h = timer_heap L" by (simp add: h_def AdjustTimers_def)
  have cb: "map_option timerproc_cb (map_of h p) = map_option timerproc_cb (map_of (timer_heap L) p)" for p
    using heap [of p]
    by (cases "now < last_time_out L")
      (auto simp: option.map_comp o_def h_def AdjustTimers_def split: option.splits)
  have ptrs: "timer_ptrs (AdjustTimers now L) = timer_ptrs L"
    by (simp add: AdjustTimers_def Let_def)
  show "live_cb (AdjustTimers now L) = live_cb L"
    using cb by (simp add: live_cb_def fun_eq_iff ptrs flip: h_def)
  show "map_of (timer_heap (AdjustTimers now L)) p = Some tm \<Longrightarrow>
      \<exists>tm'. map_of (timer_heap L) p = Some tm' \<and> ms_interval tm = ms_interval tm'"
    using heap [of p] same unfolding h_def [symmetric]
    by (cases "now < last_time_out L"; cases "map_of (timer_heap L) p";
        cases "find (\<lambda>t. snd t = p) (timers L)") auto
  show "timers_ok (AdjustTimers now L)"
  proof (cases "now < last_time_out L")
    case True
    define ts where "ts = timers (AdjustTimers now L)"
    have ts: "sorted ts" "distinct (map snd ts)" "set ts = (\<lambda>t. (f (fst t), snd t)) ` set (timers L)"
      using shift_timers [OF d, of "[]" f] True by (auto simp: ts_def AdjustTimers_def Let_def f_def)
    have "\<exists>tm. map_of h q = Some tm \<and> ms_value tm = v" if v: "(v, q) \<in> set ts" for v q
    proof -
      from v ts(3) obtain t where t: "t \<in> set (timers L)" "v = f (fst t)" "q = snd t" by auto
      then obtain tm where tm: "map_of (timer_heap L) q = Some tm"
        using ok by (cases t) (auto simp: timers_ok_def)
      with heap [OF True, of q] find_snd [OF d t(1)] t show ?thesis by simp
    qed
    then show ?thesis
      using ts ok by (auto simp: ptrs timers_ok_def h_def [symmetric] ts_def [symmetric] image_image)
  next
    case False
    with ok show ?thesis by (simp add: AdjustTimers_def timers_ok_def)
  qed
qed

section \<open>Running the due timers ends\<close>

definition due :: "u64 \<Rightarrow> 'f timerlist \<Rightarrow> TimerId set" where
  "due now L = {t \<in> set (timers L). fst t \<le> now}"

text \<open>No repeating timer's next deadline wraps around the clock.\<close>

definition no_wrap :: "u64 \<Rightarrow> 'f timerlist \<Rightarrow> bool" where
  "no_wrap now L \<longleftrightarrow>
     (\<forall>p tm. map_of (timer_heap L) p = Some tm \<longrightarrow> ms_interval tm > 0 \<longrightarrow> now < now + ms_interval tm)"

lemma due_finite [simp]: "finite (due now L)"
  by (simp add: due_def)

lemma PopDue_due:
  assumes ok: "timers_ok L" and nw: "no_wrap now L" and pop: "PopDue now L = Some (cb, L')"
  shows "no_wrap now L'" and "due now L' \<subset> due now L" and "timers_ok L'"
proof -
  show "timers_ok L'" using PopDue_live [OF ok pop] by blast
  from pop obtain t rest tm where t: "timers L = t # rest" "fst t \<le> now"
      "map_of (timer_heap L) (snd t) = Some tm"
    by (auto simp: PopDue_def split: list.splits if_splits option.splits)
  then have notin: "t \<notin> set rest" using timers_ok_pop(1) [OF ok t(1)] by simp
  have L': "L' = (if ms_interval tm > 0
      then L\<lparr>timers := set_insert (now + ms_interval tm, snd t) rest,
             timer_heap := AList.update (snd t) (tm\<lparr>ms_value := now + ms_interval tm\<rparr>) (timer_heap L)\<rparr>
      else L\<lparr>timers := rest, timer_ptrs := remove1 (snd t) (timer_ptrs L),
             timer_heap := AList.delete (snd t) (timer_heap L)\<rparr>)"
    using pop t by (auto simp: PopDue_def Let_def)
  show "no_wrap now L'"
    using nw t(3) by (auto simp: no_wrap_def L' update_conv' delete_conv')
  have "ms_interval tm > 0 \<Longrightarrow> \<not> now + ms_interval tm \<le> now"
    using nw t(3) by (auto simp: no_wrap_def not_le)
  then have "due now L' = {u \<in> set rest. fst u \<le> now}"
    by (auto simp: due_def L')
  then show "due now L' \<subset> due now L" using t notin by (auto simp: due_def)
qed

text \<open>The loop returns when its callbacks keep the invariant of the list and add no timer that is due
  already; \<open>K\<close> stands for whatever else is known of the list.\<close>

definition timers_run :: "u64 \<Rightarrow> ('f timerlist \<Rightarrow> bool) \<Rightarrow> 'f timerlist \<Rightarrow> bool" where
  "timers_run now K L \<longleftrightarrow> timers_ok L \<and> no_wrap now L \<and> K L"

lemma RunDue_returns:
  assumes gp: "\<And>L s. get (put L s) = L"
    and pop: "\<And>L cb L'. timers_ok L \<Longrightarrow> K L \<Longrightarrow> PopDue now L = Some (cb, L') \<Longrightarrow> K L'"
    and exec: "\<And>cb s. timers_run now K (get s) \<Longrightarrow>
      timers_run now K (get (exec cb s)) \<and> due now (get (exec cb s)) \<subseteq> due now (get s)"
    and "timers_run now K (get s)"
  shows "\<exists>s'. RunDue get put exec now s = Some s' \<and> timers_run now K (get s') \<and> due now (get s') = {}"
  using assms(4)
proof (induction "card (due now (get s))" arbitrary: s rule: less_induct)
  case less
  then have ok: "timers_ok (get s)" "no_wrap now (get s)" "K (get s)" by (simp_all add: timers_run_def)
  show ?case
  proof (cases "PopDue now (get s)")
    case None
    then have "due now (get s) = {}" using PopDue_None_iff [OF ok(1)] by (auto simp: due_def not_le)
    with None less.prems show ?thesis by (subst RunDue.simps) simp
  next
    case (Some x)
    then obtain cb L where p: "PopDue now (get s) = Some (cb, L)" by (cases x) auto
    note d = PopDue_due [OF ok(1,2) p]
    have "timers_run now K (get (put L s))" using d pop [OF ok(1,3) p] by (simp add: timers_run_def gp)
    note e = exec [OF this, of cb]
    have "card (due now (get (exec cb (put L s)))) < card (due now (get s))"
      using d(2) e by (intro psubset_card_mono) (auto simp: gp)
    from less.hyps [OF this conjunct1 [OF e]] show ?thesis by (subst RunDue.simps) (simp add: p)
  qed
qed

lemma no_wrap_Adjust:
  assumes "timers_ok L" and "no_wrap now L"
  shows "no_wrap now (AdjustTimers now L)"
  unfolding no_wrap_def
proof (intro allI impI)
  fix p tm assume "map_of (timer_heap (AdjustTimers now L)) p = Some tm" "ms_interval tm > 0"
  with AdjustTimers_ok(3) [OF assms(1)] obtain tm' where
    "map_of (timer_heap L) p = Some tm'" "ms_interval tm = ms_interval tm'" "ms_interval tm' > 0" by metis
  with assms(2) show "now < now + ms_interval tm" by (auto simp: no_wrap_def)
qed

lemma RunTimerProcs_returns:
  assumes "\<And>L s. get (put L s) = L"
    and "\<And>L cb L'. timers_ok L \<Longrightarrow> K L \<Longrightarrow> PopDue now L = Some (cb, L') \<Longrightarrow> K L'"
    and "\<And>cb s. timers_run now K (get s) \<Longrightarrow>
      timers_run now K (get (exec cb s)) \<and> due now (get (exec cb s)) \<subseteq> due now (get s)"
    and adjust: "\<And>L. timers_ok L \<Longrightarrow> K L \<Longrightarrow> K (AdjustTimers now L)"
    and ok: "timers_run now K (get s)"
  shows "\<exists>s'. RunTimerProcs get put exec now s = Some s' \<and> timers_run now K (get s') \<and> due now (get s') = {}"
proof (cases "timers (get s) = []")
  case True
  with ok show ?thesis by (simp add: RunTimerProcs_def due_def)
next
  case False
  have "timers_run now K (get (put (AdjustTimers now (get s)) s))"
    using ok adjust AdjustTimers_ok(1) no_wrap_Adjust by (auto simp: assms(1) timers_run_def)
  from RunDue_returns [of get put K now exec, OF assms(1-3) this] False show ?thesis
    by (simp add: RunTimerProcs_def)
qed

text \<open>A repeating timer is armed again when it fires.\<close>

definition repeating :: "nat \<Rightarrow> 'f \<Rightarrow> 'f timerlist \<Rightarrow> bool" where
  "repeating p cb L \<longleftrightarrow>
     live_cb L p = Some cb \<and> (\<exists>tm. map_of (timer_heap L) p = Some tm \<and> ms_interval tm > 0)"

lemma repeating_PopDue:
  assumes "timers_ok L" and "repeating p cb L" and "PopDue now L = Some (x, L')"
  shows "repeating p cb L'"
proof -
  have "distinct (timer_ptrs L)" using assms(1) by (simp add: timers_ok_def)
  with assms(2,3) show ?thesis
    by (auto simp: repeating_def live_cb_def PopDue_def Let_def update_conv' delete_conv'
        split: list.splits if_splits option.splits)
qed

lemma repeating_Adjust:
  assumes "timers_ok L" and "repeating p cb L"
  shows "repeating p cb (AdjustTimers now L)"
proof -
  have l: "live_cb (AdjustTimers now L) p = Some cb"
    using assms(2) by (simp add: repeating_def AdjustTimers_ok(2) [OF assms(1)])
  then obtain tm where tm: "map_of (timer_heap (AdjustTimers now L)) p = Some tm"
    by (auto simp: live_cb_def split: if_splits)
  with AdjustTimers_ok(3) [OF assms(1)] assms(2) have "ms_interval tm > 0" by (fastforce simp: repeating_def)
  with l tm show ?thesis by (simp add: repeating_def)
qed

section \<open>The containers over the life of a loop\<close>

text \<open>What the operations on the list leave alone: timers that are allocated and not yet inserted.\<close>

lemma heap_elsewhere:
  assumes "p \<notin> set (timer_ptrs L)" and "timers_ok L"
  shows "map_of (timer_heap (TimerList_Remove t L)) p = map_of (timer_heap L) p"
    and "map_of (timer_heap (AdjustTimers now L)) p = map_of (timer_heap L) p"
    and "PopDue now L = Some (cb, L') \<Longrightarrow> map_of (timer_heap L') p = map_of (timer_heap L) p"
proof -
  have out: "p \<notin> snd ` set (timers L)" and d: "distinct (map snd (timers L))" using assms by (simp_all add: timers_ok_def)
  show "map_of (timer_heap (TimerList_Remove t L)) p = map_of (timer_heap L) p"
    using assms(1) by (auto simp: TimerList_Remove_def delete_conv' split: option.split)
  have "find (\<lambda>t. snd t = p) (timers L) = None" using out by (force simp: find_None_iff)
  then show "map_of (timer_heap (AdjustTimers now L)) p = map_of (timer_heap L) p"
    using shift_heap [OF d, of "shift_back (last_time_out L - now)" "timer_heap L" p] by (simp add: AdjustTimers_def Let_def)
  assume "PopDue now L = Some (cb, L')"
  then show "map_of (timer_heap L') p = map_of (timer_heap L) p"
    using out by (auto simp: PopDue_def Let_def update_conv' delete_conv' split: list.splits if_splits option.splits)
qed

lemma ptrs_shrink:
  "set (timer_ptrs (TimerList_Remove t L)) \<subseteq> set (timer_ptrs L)"
  "set (timer_ptrs (AdjustTimers now L)) = set (timer_ptrs L)"
  "PopDue now L = Some (cb, L') \<Longrightarrow> set (timer_ptrs L') \<subseteq> set (timer_ptrs L)"
  by (auto simp: TimerList_Remove_def AdjustTimers_def PopDue_def Let_def
      split: list.splits if_splits option.splits dest: notin_set_remove1 [THEN contrapos_pp])
    (meson notin_set_remove1)+

text \<open>The steps of a loop: its own thread or another one starts a timer, at an address that is
  not in use, removes one, or queues a closure; the closure at the front of the queue is run; the
  clock has gone backwards; a timer is due.\<close>

inductive loop_step :: "'f runloop \<Rightarrow> 'f runloop \<Rightarrow> bool" where
  start: "p \<notin> fst ` set (timer_heap (timer_list l)) \<Longrightarrow> loop_step l (snd (schedule mine p v i cb l))"
| remove: "loop_step l (RunLoop_Remove mine t l)"
| queue: "loop_step l (RunLoop_QueueInLoop (Func f) l)"
| run: "funcs l = f # fs \<Longrightarrow> loop_step l (RunInLoop_timer True f (l\<lparr>funcs := fs\<rparr>))"
| clock: "loop_step l (l\<lparr>timer_list := AdjustTimers now (timer_list l)\<rparr>)"
| fire: "PopDue now (timer_list l) = Some (cb, L) \<Longrightarrow> loop_step l (l\<lparr>timer_list := L\<rparr>)"

inductive_cases loop_stepE: "loop_step l l'"

text \<open>The timers on their way to the loop.\<close>

fun inserts :: "'f func list \<Rightarrow> TimerId list" where
  "inserts [] = []"
| "inserts (InsertTimer t # fs) = t # inserts fs"
| "inserts (_ # fs) = inserts fs"

lemma inserts_append [simp]: "inserts (fs @ gs) = inserts fs @ inserts gs"
  by (induction fs rule: inserts.induct) simp_all

definition waiting :: "'f timerlist \<Rightarrow> TimerId \<Rightarrow> bool" where
  "waiting L t \<longleftrightarrow>
     snd t \<notin> set (timer_ptrs L) \<and> (\<exists>tm. map_of (timer_heap L) (snd t) = Some tm \<and> ms_value tm = fst t)"

definition loop_ok :: "'f runloop \<Rightarrow> bool" where
  "loop_ok l \<longleftrightarrow>
     timers_ok (timer_list l) \<and> distinct (map snd (inserts (funcs l))) \<and>
     (\<forall>t\<in>set (inserts (funcs l)). waiting (timer_list l) t)"

lemma waiting_keep:
  "waiting L t \<Longrightarrow> map_of (timer_heap L') (snd t) = map_of (timer_heap L) (snd t) \<Longrightarrow>
    set (timer_ptrs L') \<subseteq> insert p (set (timer_ptrs L)) \<Longrightarrow> p \<noteq> snd t \<Longrightarrow> waiting L' t"
  by (auto simp: waiting_def)

lemma waiting_list:
  assumes "timers_ok L" "waiting L t"
  shows "waiting (TimerList_Remove u L) t" "waiting (AdjustTimers now L) t" "PopDue now L = Some (cb, L') \<Longrightarrow> waiting L' t"
proof -
  have p: "snd t \<notin> set (timer_ptrs L)" using assms(2) by (simp add: waiting_def)
  note h = heap_elsewhere [OF p assms(1)]
  show "waiting (TimerList_Remove u L) t" "waiting (AdjustTimers now L) t"
    using assms(2) h(1,2) ptrs_shrink(1) [of u L] ptrs_shrink(2) [of now L] by (auto simp: waiting_def)
  assume "PopDue now L = Some (cb, L')"
  with h(3) ptrs_shrink(3) assms(2) show "waiting L' t" by (fastforce simp: waiting_def)
qed

lemma loop_ok_schedule:
  assumes ok: "loop_ok l" and fresh: "p \<notin> fst ` set (timer_heap (timer_list l))"
  shows "loop_ok (snd (schedule mine p v i cb l))"
proof -
  let ?L = "timer_list l" and ?N = "Timer_new p v i cb (timer_list l)"
  have L: "timers_ok ?L" and d: "distinct (map snd (inserts (funcs l)))"
    and w: "\<And>t. t \<in> set (inserts (funcs l)) \<Longrightarrow> waiting ?L t" using ok by (auto simp: loop_ok_def)
  have none: "map_of (timer_heap ?L) p = None" using fresh by (simp add: map_of_eq_None_iff)
  have p: "p \<notin> set (timer_ptrs ?L)"
  proof
    assume "p \<in> set (timer_ptrs ?L)"
    then obtain x where "(x, p) \<in> set (timers ?L)" using L by (auto simp: timers_ok_def)
    with L none show False by (fastforce simp: timers_ok_def)
  qed
  have away: "p \<noteq> snd t" if "t \<in> set (inserts (funcs l))" for t using w [OF that] none by (auto simp: waiting_def)
  have N: "timers_ok ?N" by (rule timers_ok_new_timer [OF L p])
  have new: "map_of (timer_heap ?N) p = Some \<lparr>ms_value = v, ms_interval = i, timerproc_cb = cb\<rparr>" "timer_ptrs ?N = timer_ptrs ?L"
    by (simp_all add: Timer_new_def update_conv')
  have wN: "waiting ?N t" if "t \<in> set (inserts (funcs l))" for t
    using w [OF that] away [OF that] by (auto simp: waiting_def Timer_new_def update_conv')
  show ?thesis
  proof (cases mine)
    case True
    have "timers_ok (InsertInLoop (v, p) ?N)" by (rule timers_ok_Insert [OF N _ new(1)]) (use p new(2) in simp_all)
    moreover have "waiting (InsertInLoop (v, p) ?N) t" if "t \<in> set (inserts (funcs l))" for t
      using wN [OF that] away [OF that] by (auto simp: waiting_def InsertInLoop_def)
    ultimately show ?thesis using True d by (simp add: loop_ok_def schedule_def RunInLoop_timer_def)
  next
    case False
    have "waiting ?N (v, p)" using new p by (simp add: waiting_def)
    with False N wN d away show ?thesis
      by (auto simp: loop_ok_def schedule_def RunInLoop_timer_def RunLoop_QueueInLoop_def image_iff)
  qed
qed

lemma loop_ok_step: "loop_step l l' \<Longrightarrow> loop_ok l \<Longrightarrow> loop_ok l'"
proof (induction rule: loop_step.induct)
  case (start p l mine v i cb)
  from loop_ok_schedule [OF start(2,1)] show ?case .
next
  case (remove l mine t)
  then show ?case
    by (cases mine)
      (auto simp: loop_ok_def RunLoop_Remove_def RunInLoop_timer_def RunLoop_QueueInLoop_def timers_ok_Remove waiting_list)
next
  case (queue l f)
  then show ?case by (simp add: loop_ok_def RunLoop_QueueInLoop_def)
next
  case (run l f fs)
  show ?case
  proof (cases f)
    case (InsertTimer t)
    with run have w: "waiting (timer_list l) t" and ok: "timers_ok (timer_list l)"
      and d: "snd t \<notin> snd ` set (inserts fs)" "distinct (map snd (inserts fs))"
      and ws: "\<And>u. u \<in> set (inserts fs) \<Longrightarrow> waiting (timer_list l) u" by (auto simp: loop_ok_def)
    from w have "timers_ok (InsertInLoop (fst t, snd t) (timer_list l))"
      unfolding waiting_def by (elim conjE exE) (rule timers_ok_Insert [OF ok])
    then have "timers_ok (InsertInLoop t (timer_list l))" by simp
    moreover have "waiting (InsertInLoop t (timer_list l)) u" if "u \<in> set (inserts fs)" for u
    proof -
      have "snd u \<noteq> snd t" using d(1) that by (metis imageI)
      with ws [OF that] show ?thesis by (auto simp: waiting_def InsertInLoop_def)
    qed
    ultimately show ?thesis using InsertTimer d(2) by (simp add: loop_ok_def RunInLoop_timer_def)
  qed (use run in \<open>auto simp: loop_ok_def RunInLoop_timer_def timers_ok_Remove waiting_list\<close>)
next
  case (clock l now)
  then show ?case by (auto simp: loop_ok_def AdjustTimers_ok waiting_list)
next
  case (fire now l cb L)
  then show ?case by (auto simp: loop_ok_def waiting_list elim: PopDue_live)
qed

text \<open>
  C28. The containers of a timer list always agree, over any sequence of steps of a new loop:
  \<^verbatim>\<open>timers_\<close> is sorted, holds exactly the addresses of \<^verbatim>\<open>timer_ptrs_\<close>, each once, and each
  belongs to a live timer filed under its deadline. So the lookups of the code never miss, also
  for timers started by other threads, which wait in the queue.
\<close>

theorem timer_containers_agree:
  assumes "loop_step\<^sup>*\<^sup>* (RunLoop_new now) l"
  shows "timers_ok (timer_list l) \<and> (\<forall>t\<in>set (inserts (funcs l)). waiting (timer_list l) t)"
proof -
  have "loop_ok (RunLoop_new now :: 'a runloop)" by (simp add: loop_ok_def RunLoop_new_def)
  with assms have "loop_ok l" by (induction rule: rtranclp_induct) (auto intro: loop_ok_step)
  then show ?thesis by (simp add: loop_ok_def)
qed

end
