(* ===== verification/Decimals.thy ===== *)
theory Decimals
  imports Prelude "HOL-Library.Char_ord"
begin

text \<open>
  Numbers as text, the parts of the C and C++ libraries the sources use: \<^verbatim>\<open>std::to_string\<close>,
  \<^verbatim>\<open>std::stoull\<close>, \<^verbatim>\<open>std::stoi\<close>, \<^verbatim>\<open>atoi\<close>, and the integers and strings of \<^verbatim>\<open>printf\<close>.
\<close>

section \<open>Printing and parsing\<close>

text \<open>\<^verbatim>\<open>std::to_string\<close> of an unsigned number.\<close>

fun to_string :: "nat \<Rightarrow> string" where
  "to_string n =
     (if n < 10 then [char_of (48 + n)] else to_string (n div 10) @ [char_of (48 + n mod 10)])"

declare to_string.simps [simp del]

text \<open>\<^verbatim>\<open>std::stoull\<close>: leading white space, an optional sign, then at least one digit;
  anything else, and a number that does not fit, is an exception.\<close>

definition is_digit :: "char \<Rightarrow> bool" where
  "is_digit c \<longleftrightarrow> 48 \<le> (of_char c :: nat) \<and> of_char c \<le> (57::nat)"

definition is_space :: "char \<Rightarrow> bool" where
  "is_space c \<longleftrightarrow> of_char c = (32::nat) \<or> (9 \<le> (of_char c :: nat) \<and> of_char c \<le> (13::nat))"

definition digits_value :: "string \<Rightarrow> nat" where
  "digits_value ds = foldl (\<lambda>n c. 10 * n + (of_char c - 48)) 0 ds"

definition stoull :: "string \<Rightarrow> u64 option" where
  "stoull str =
     (let s1 = dropWhile is_space str;
          neg = (case s1 of c # _ \<Rightarrow> c = CHR ''-'' | [] \<Rightarrow> False);
          s2 = (case s1 of c # r \<Rightarrow> if c = CHR ''-'' \<or> c = CHR ''+'' then r else s1 | [] \<Rightarrow> []);
          ds = takeWhile is_digit s2;
          n = digits_value ds
      in if ds = [] \<or> n \<ge> 2 ^ 64 then None
         else Some (if neg then - word_of_nat n else word_of_nat n))"

text \<open>\<^verbatim>\<open>std::stoi\<close> reads a signed number, \<^const>\<open>None\<close> for its exceptions. \<^verbatim>\<open>atoi\<close>
  gives 0 when there is no number; one that does not fit is undefined, \<^const>\<open>None\<close>.\<close>

definition scan_int :: "string \<Rightarrow> int option" where
  "scan_int str =
     (let s1 = dropWhile is_space str;
          neg = (case s1 of c # _ \<Rightarrow> c = CHR ''-'' | [] \<Rightarrow> False);
          s2 = (case s1 of c # r \<Rightarrow> if c = CHR ''-'' \<or> c = CHR ''+'' then r else s1 | [] \<Rightarrow> []);
          ds = takeWhile is_digit s2;
          n = int (digits_value ds)
      in if ds = [] then None else Some (if neg then - n else n))"

definition fits_int :: "int \<Rightarrow> bool" where
  "fits_int n \<longleftrightarrow> - (2 ^ 31) \<le> n \<and> n < 2 ^ 31"

definition stoi :: "string \<Rightarrow> int option" where
  "stoi str = (case scan_int str of None \<Rightarrow> None | Some n \<Rightarrow> if fits_int n then Some n else None)"

definition atoi :: "string \<Rightarrow> int option" where
  "atoi str = (case scan_int str of None \<Rightarrow> Some 0 | Some n \<Rightarrow> if fits_int n then Some n else None)"

text \<open>\<^verbatim>\<open>%0wd\<close> and \<^verbatim>\<open>%d\<close> of \<^verbatim>\<open>printf\<close>: a width counts the sign.\<close>

definition print_int :: "nat \<Rightarrow> int \<Rightarrow> string" where
  "print_int w n =
     (let sign = (if n < 0 then ''-'' else []); ds = to_string (nat \<bar>n\<bar>)
      in sign @ replicate (w - length sign - length ds) (CHR ''0'') @ ds)"

text \<open>\<^verbatim>\<open>%s\<close> prints up to the first null character.\<close>

definition c_str :: "string \<Rightarrow> string" where
  "c_str = takeWhile (\<lambda>c. c \<noteq> CHR 0x00)"

section \<open>What is printed reads back\<close>

lemma char_of_digit:
  "char_of (48 :: nat) = CHR ''0''" "char_of (49 :: nat) = CHR ''1''" "char_of (50 :: nat) = CHR ''2''"
  "char_of (51 :: nat) = CHR ''3''" "char_of (52 :: nat) = CHR ''4''" "char_of (53 :: nat) = CHR ''5''"
  "char_of (54 :: nat) = CHR ''6''" "char_of (55 :: nat) = CHR ''7''" "char_of (56 :: nat) = CHR ''8''"
  "char_of (57 :: nat) = CHR ''9''"
  by code_simp+

text \<open>For concrete numbers.\<close>

lemmas to_string_eval = to_string.simps char_of_digit

lemma to_string_digits:
  "digits_value (to_string n) = n \<and> (\<forall>c \<in> set (to_string n). is_digit c) \<and> to_string n \<noteq> []"
proof (induction n rule: to_string.induct)
  case (1 n)
  show ?case
  proof (cases "n < 10")
    case True
    then show ?thesis
      by (subst to_string.simps) (auto simp: digits_value_def is_digit_def to_string.simps [of n])
  next
    case False
    with 1 have "digits_value (to_string (n div 10)) = n div 10"
      "\<forall>c \<in> set (to_string (n div 10)). is_digit c" by auto
    moreover have "to_string n = to_string (n div 10) @ [char_of (48 + n mod 10)]"
      using False by (subst to_string.simps) simp
    ultimately show ?thesis by (simp add: digits_value_def is_digit_def)
  qed
qed

lemma to_string_inject [simp]: "to_string a = to_string b \<longleftrightarrow> a = b"
  using to_string_digits by metis

lemma to_string_length: "n < 10 ^ Suc k \<Longrightarrow> length (to_string n) \<le> Suc k"
proof (induction k arbitrary: n)
  case 0
  then show ?case by (subst to_string.simps) simp
next
  case (Suc k)
  have "n div 10 < 10 ^ Suc k" using Suc.prems by (simp add: less_mult_imp_div_less)
  from Suc.IH [OF this] show ?case by (subst to_string.simps) simp
qed

lemma digit_not_space:
  "is_digit c \<Longrightarrow> \<not> is_space c" "is_digit c \<Longrightarrow> c \<noteq> CHR ''-''" "is_digit c \<Longrightarrow> c \<noteq> CHR ''+''"
  by (auto simp: is_digit_def is_space_def)

lemma stoull_to_string: "stoull (to_string (unat i)) = Some i"
proof -
  obtain c cs where c: "to_string (unat i) = c # cs" using to_string_digits by (meson neq_Nil_conv)
  have d: "\<forall>x \<in> set (c # cs). is_digit x" "digits_value (c # cs) = unat i"
    using to_string_digits [of "unat i"] by (simp_all add: c)
  then have whole: "takeWhile is_digit cs = cs" by (auto simp: takeWhile_eq_all_conv)
  have "unat i < 2 ^ 64" using unsigned_less [of i] by simp
  then show ?thesis using d digit_not_space [of c] by (simp add: c stoull_def Let_def whole)
qed

lemma scan_int_to_string: "scan_int (to_string n) = Some (int n)"
proof -
  obtain c cs where c: "to_string n = c # cs" using to_string_digits by (meson neq_Nil_conv)
  have d: "\<forall>x \<in> set (c # cs). is_digit x" "digits_value (c # cs) = n"
    using to_string_digits [of n] by (simp_all add: c)
  then have whole: "takeWhile is_digit cs = cs" by (auto simp: takeWhile_eq_all_conv)
  then show ?thesis using d digit_not_space [of c] by (simp add: c scan_int_def Let_def whole)
qed

lemma int_of_to_string [simp]:
  "n < 2 ^ 31 \<Longrightarrow> stoi (to_string n) = Some (int n)" "n < 2 ^ 31 \<Longrightarrow> atoi (to_string n) = Some (int n)"
  by (simp_all add: stoi_def atoi_def scan_int_to_string fits_int_def)

lemma to_string_no_colon [simp]: "CHR '':'' \<notin> set (to_string n)"
  using to_string_digits [of n] by (auto simp: is_digit_def)

lemma print_int_length: "w \<le> length (print_int w n)"
  by (simp add: print_int_def Let_def)

end
