(* ===== verification/Manager.thy ===== *)
theory Manager
  imports Machines Timers Decimals
begin

text \<open>
  \<^verbatim>\<open>MachineManager\<close>, \<^verbatim>\<open>src/machine/machine_manager.cc\<close>: the registry of
  the state machines, their execution, and the life cycle of checkpoints on disk. Its state
  is the record \<open>mach\<close>; the log manager and the Paxos instance extend it, so that the
  operations here work on their states unchanged. \<open>aborted\<close> is set where the process
  stops: a failed assertion, an access out of range, an uncaught exception.
\<close>

section \<open>State\<close>

text \<open>The virtual dispatch on \<^verbatim>\<open>StateMachine*\<close>.\<close>

datatype machine = Membership_machine | Master_machine | User_machine

text \<open>Closures queued to the clean loop by \<^verbatim>\<open>MakeCheckpoint\<close> of the two built-in
  machines, each with the copy of the machine's state it captures, and the periodic
  closure of the log cleaner.\<close>

datatype clean_task =
    WriteMembership u32 u64 string Membership
  | WriteMaster u32 u64 string MasterState
  | GCLoop

record 'w world =
  world :: 'w
  aborted :: bool

record 'w mach = "'w world" +
  machines :: "(u32 \<times> machine) list"
  membership :: Membership
  master :: MasterState
  checkpoints :: "u64 list"
  latest_checkpoint_instance_id :: u64
  oldest_checkpoint_instance_id :: u64
  make_checkpoint :: bool
  make_checkpoint_result :: "u32 list"
  checkpoint_locked :: bool
  clean_loop :: "clean_task runloop"
  io_loop_set :: bool

text \<open>An operation of the world component applied inside a larger state.\<close>

definition in_world :: "('w \<Rightarrow> 'a \<times> 'w) \<Rightarrow> ('w, 'z) world_scheme \<Rightarrow> 'a \<times> ('w, 'z) world_scheme" where
  "in_world f s = (case f (world s) of (r, w) \<Rightarrow> (r, s\<lparr>world := w\<rparr>))"

definition abort :: "('w, 'z) world_scheme \<Rightarrow> ('w, 'z) world_scheme" where
  "abort s = s\<lparr>aborted := True\<rparr>"

section \<open>Paths\<close>

definition GetCheckpointPath :: "('d, 'w) env \<Rightarrow> u64 \<Rightarrow> string" where
  "GetCheckpointPath E instance_id =
     cfg_checkpoint_path E @ ''/checkpoint-'' @ to_string (unat instance_id)"

definition GetCheckpointPath_machine :: "('d, 'w) env \<Rightarrow> u64 \<Rightarrow> u32 \<Rightarrow> string" where
  "GetCheckpointPath_machine E instance_id machine_id =
     cfg_checkpoint_path E @ ''/checkpoint-'' @ to_string (unat instance_id) @
     ''/m'' @ to_string (unat machine_id)"

definition GetTempCheckpointPath :: "('d, 'w) env \<Rightarrow> u64 \<Rightarrow> string" where
  "GetTempCheckpointPath E instance_id = cfg_temp_checkpoint_path E"

definition GetTempCheckpointPath_machine :: "('d, 'w) env \<Rightarrow> u64 \<Rightarrow> u32 \<Rightarrow> string" where
  "GetTempCheckpointPath_machine E instance_id machine_id =
     cfg_temp_checkpoint_path E @ ''/m'' @ to_string (unat machine_id)"

text \<open>\<^verbatim>\<open>DeleteTempCheckpoint\<close>: the inner loop stops at the first file that cannot be
  deleted, the outer one goes on and tries to remove each directory.\<close>

fun delete_files :: "('d, 'w) env \<Rightarrow> string \<Rightarrow> string list \<Rightarrow> bool \<Rightarrow> 'w \<Rightarrow> bool \<times> 'w" where
  "delete_files E d [] res w = (res, w)"
| "delete_files E d (file # files) res w =
     (case DeleteFile E (d @ ''/'' @ file) w of
        (del, w') \<Rightarrow> if \<not> Status_ok del then (False, w') else delete_files E d files res w')"

fun delete_dirs :: "('d, 'w) env \<Rightarrow> string \<Rightarrow> string list \<Rightarrow> bool \<Rightarrow> 'w \<Rightarrow> bool \<times> 'w" where
  "delete_dirs E path [] res w = (res, w)"
| "delete_dirs E path (dir # dirs) res w =
     (let d = path @ ''/'' @ dir;
          (res1, w1) = delete_files E d (snd (GetChildren E d True w)) res w;
          (_, w2) = DeleteDir E d w1
      in delete_dirs E path dirs res1 w2)"

definition DeleteTempCheckpoint :: "('d, 'w) env \<Rightarrow> 'w \<Rightarrow> bool \<times> 'w" where
  "DeleteTempCheckpoint E w =
     (let path = cfg_temp_checkpoint_path E;
          (res, w1) = delete_dirs E path (snd (GetChildren E path False w)) True w
      in (res, if \<not> FileExists E path w1 then snd (CreateDir E path w1) else w1))"

section \<open>Registry\<close>

text \<open>The fields the constructor does not initialise (\<^verbatim>\<open>oldest_checkpoint_instance_id_\<close>)
  hold the given value. \<^verbatim>\<open>std::map\<close> keeps its keys in order.\<close>

definition MachineManager_new :: "(loop_name \<Rightarrow> u64) \<Rightarrow> u64 \<Rightarrow> Membership \<Rightarrow> 'w \<Rightarrow> 'w mach" where
  "MachineManager_new born uninit m w =
     \<lparr>world = w, aborted = False, machines = [], membership = m, master = MasterState_default,
      checkpoints = [], latest_checkpoint_instance_id = 0,
      oldest_checkpoint_instance_id = uninit, make_checkpoint = False,
      make_checkpoint_result = [], checkpoint_locked = False, clean_loop = RunLoop_new (born CleanLoop),
      io_loop_set = False\<rparr>"

definition AddMachine :: "u32 \<Rightarrow> machine \<Rightarrow> ('w, 'z) mach_scheme \<Rightarrow> ('w, 'z) mach_scheme" where
  "AddMachine i m s =
     (if map_of (machines s) i \<noteq> None then abort s
      else s\<lparr>machines := insort_key fst (i, m) (machines s)\<rparr>)"

definition RemoveMachine :: "u32 \<Rightarrow> ('w, 'z) mach_scheme \<Rightarrow> ('w, 'z) mach_scheme" where
  "RemoveMachine i s = s\<lparr>machines := AList.delete i (machines s)\<rparr>"

section \<open>Making a checkpoint\<close>

text \<open>The virtual call \<^verbatim>\<open>it.second->MakeCheckpoint\<close>: the built-in machines queue a
  closure on the clean loop and return true.\<close>

definition machine_MakeCheckpoint ::
    "('d, 'w) env \<Rightarrow> u32 \<Rightarrow> machine \<Rightarrow> u64 \<Rightarrow> string \<Rightarrow> ('w, 'z) mach_scheme \<Rightarrow>
      bool \<times> ('w, 'z) mach_scheme" where
  "machine_MakeCheckpoint E i m instance_id dir s =
     (case m of
        Membership_machine \<Rightarrow>
          (True, s\<lparr>clean_loop := RunLoop_QueueInLoop
             (Func (WriteMembership (cfg_group_id E) instance_id dir (membership s)))
             (clean_loop s)\<rparr>)
      | Master_machine \<Rightarrow>
          (True, s\<lparr>clean_loop := RunLoop_QueueInLoop
             (Func (WriteMaster (cfg_group_id E) instance_id dir (master s))) (clean_loop s)\<rparr>)
      | User_machine \<Rightarrow>
          in_world (sm_make_checkpoint E i (cfg_group_id E) instance_id dir) s)"

fun make_checkpoints ::
    "('d, 'w) env \<Rightarrow> u64 \<Rightarrow> (u32 \<times> machine) list \<Rightarrow> ('w, 'z) mach_scheme \<Rightarrow>
      bool \<times> ('w, 'z) mach_scheme" where
  "make_checkpoints E instance_id [] s = (True, s)"
| "make_checkpoints E instance_id ((i, m) # ms) s =
     (let dir = GetTempCheckpointPath_machine E instance_id i;
          (status, s1) = in_world (CreateDir E dir) s
      in if \<not> Status_ok status then (False, s1)
         else (let (b, s2) = machine_MakeCheckpoint E i m instance_id dir s1
               in if \<not> b then (False, s2)
                  else make_checkpoints E instance_id ms
                    (s2\<lparr>make_checkpoint_result := List.insert i (make_checkpoint_result s2)\<rparr>)))"

definition MakeCheckpoint ::
    "('d, 'w) env \<Rightarrow> u64 \<Rightarrow> ('w, 'z) mach_scheme \<Rightarrow> bool \<times> ('w, 'z) mach_scheme" where
  "MakeCheckpoint E instance_id s =
     (if make_checkpoint s then (False, s)
      else if \<not> io_loop_set s then (False, s)
      else if \<not> instance_id > latest_checkpoint_instance_id s then (False, abort s)
      else
        (let interval = instance_id - latest_checkpoint_instance_id s;
             half = cfg_keep_log_count E div 2;
             (r, s1) = in_world (uniform_int E 1 half) s
         in if interval < ucast (half + r) then (False, s1)
            else
              (let (deleted, s2) = in_world (DeleteTempCheckpoint E) s1
               in if \<not> deleted then (False, s2)
                  else
                    (let (b, s3) = make_checkpoints E instance_id (machines s2)
                           (s2\<lparr>make_checkpoint_result := []\<rparr>)
                     in if \<not> b then (False, s3)
                        else (True, if make_checkpoint_result s3 \<noteq> []
                                    then s3\<lparr>make_checkpoint := True\<rparr> else s3)))))"

section \<open>Executing a chosen value\<close>

definition machine_Execute ::
    "('d, 'w) env \<Rightarrow> u32 \<Rightarrow> machine \<Rightarrow> u64 \<Rightarrow> bytes \<Rightarrow> ctx_ptr \<Rightarrow> ('w, 'z) mach_scheme \<Rightarrow>
      bool \<times> ('w, 'z) mach_scheme" where
  "machine_Execute E i m instance_id value context s =
     (case m of
        Membership_machine \<Rightarrow>
          (case MembershipMachine_Execute E (cfg_group_id E) instance_id value
                  (membership s) (world s) of
             None \<Rightarrow> (False, abort s)
           | Some (r, m', w) \<Rightarrow> (r, s\<lparr>membership := m', world := w\<rparr>))
      | Master_machine \<Rightarrow>
          (case MasterMachine_Execute E (cfg_group_id E) instance_id value context
                  (master s) (world s) of
             (r, st, w) \<Rightarrow> (r, s\<lparr>master := st, world := w\<rparr>))
      | User_machine \<Rightarrow>
          in_world (sm_execute E i (cfg_group_id E) instance_id value context) s)"

definition MachineManager_Execute ::
    "('d, 'w) env \<Rightarrow> u64 \<Rightarrow> PaxosValue \<Rightarrow> ctx_ptr \<Rightarrow> ('w, 'z) mach_scheme \<Rightarrow>
      bool \<times> ('w, 'z) mach_scheme" where
  "MachineManager_Execute E instance_id value context s =
     (let (result, s1) =
            (case map_of (machines s) (pv_machine_id value) of
               Some m \<Rightarrow> machine_Execute E (pv_machine_id value) m instance_id
                           (pv_user_data value) context s
             | None \<Rightarrow> (False, s))
      in (result, if result then snd (MakeCheckpoint E instance_id s1) else s1))"

section \<open>Finishing, updating and cleaning checkpoints\<close>

definition TryLockCheckpoint :: "('w, 'z) mach_scheme \<Rightarrow> bool \<times> ('w, 'z) mach_scheme" where
  "TryLockCheckpoint s =
     (if checkpoint_locked s then (False, s) else (True, s\<lparr>checkpoint_locked := True\<rparr>))"

definition UnLockCheckpoint :: "('w, 'z) mach_scheme \<Rightarrow> ('w, 'z) mach_scheme" where
  "UnLockCheckpoint s = s\<lparr>checkpoint_locked := False\<rparr>"

definition UpdateCheckpoint ::
    "('d, 'w) env \<Rightarrow> u64 \<Rightarrow> ('w, 'z) mach_scheme \<Rightarrow> bool \<times> ('w, 'z) mach_scheme" where
  "UpdateCheckpoint E instance_id s =
     (let (status, s1) = in_world (RenameFile E (GetTempCheckpointPath E instance_id)
            (GetCheckpointPath E instance_id)) s
      in (Status_ok status,
          if Status_ok status then s1\<lparr>latest_checkpoint_instance_id := instance_id\<rparr> else s1))"

text \<open>The ids in the names of the checkpoint directories, in directory order;
  \<^const>\<open>None\<close> when \<^verbatim>\<open>stoull\<close> throws.\<close>

fun checkpoint_ids :: "string list \<Rightarrow> u64 list option" where
  "checkpoint_ids [] = Some []"
| "checkpoint_ids (dir # dirs) =
     (if CHR ''-'' \<in> set dir then
        (case stoull (tl (dropWhile (\<lambda>c. c \<noteq> CHR ''-'') dir)) of
           None \<Rightarrow> None
         | Some i \<Rightarrow> (case checkpoint_ids dirs of None \<Rightarrow> None | Some is \<Rightarrow> Some (i # is)))
      else checkpoint_ids dirs)"

text \<open>Deleting one checkpoint directory, renaming it out of the way when that fails.\<close>

fun remove_children :: "('d, 'w) env \<Rightarrow> string \<Rightarrow> string list \<Rightarrow> 'w \<Rightarrow> 'w" where
  "remove_children E path [] w = w"
| "remove_children E path (dir # dirs) w =
     (let d = path @ ''/'' @ dir;
          w1 = fold (\<lambda>file w. snd (DeleteFile E (d @ ''/'' @ file) w))
                 (snd (GetChildren E d True w)) w
      in remove_children E path dirs (snd (DeleteDir E d w1)))"

definition remove_checkpoint :: "('d, 'w) env \<Rightarrow> u64 \<Rightarrow> 'w \<Rightarrow> 'w" where
  "remove_checkpoint E instance_id w =
     (let path = GetCheckpointPath E instance_id;
          w1 = remove_children E path (snd (GetChildren E path False w)) w;
          (status, w2) = DeleteDir E path w1
      in if \<not> Status_ok status
         then snd (RenameFile E path (cfg_checkpoint_path E @ ''/deletedcheckpoint'') w2)
         else w2)"

text \<open>The \<^verbatim>\<open>while\<close> loop of \<^verbatim>\<open>CleanCheckpoint\<close>. It drops the front of the
  vector by swapping it with the back and popping; reading element 1 of a vector of one
  element is out of range.\<close>

fun clean_loop_body ::
    "('d, 'w) env \<Rightarrow> u64 list \<Rightarrow> ('w, 'z) mach_scheme \<Rightarrow> ('w, 'z) mach_scheme" where
  "clean_loop_body E [] s = s\<lparr>checkpoints := []\<rparr>"
| "clean_loop_body E (c # cs) s =
     (if Suc (length cs) > unat (cfg_keep_checkpoint_count E) then
        (case cs of
           [] \<Rightarrow> abort (s\<lparr>checkpoints := [c]\<rparr>)
         | c1 # _ \<Rightarrow>
             clean_loop_body E (last cs # butlast cs)
               (s\<lparr>oldest_checkpoint_instance_id := c1,
                  world := remove_checkpoint E c (world s)\<rparr>))
      else s\<lparr>checkpoints := c # cs\<rparr>)"

definition CleanCheckpoint :: "('d, 'w) env \<Rightarrow> ('w, 'z) mach_scheme \<Rightarrow> ('w, 'z) mach_scheme" where
  "CleanCheckpoint E s =
     (let (locked, s1) = TryLockCheckpoint s
      in if \<not> locked then s1
         else
           (case checkpoint_ids (snd (GetChildren E (cfg_checkpoint_path E) False (world s1))) of
              None \<Rightarrow> abort s1
            | Some ids \<Rightarrow>
               (let cs = sort ids;
                    s2 = s1\<lparr>oldest_checkpoint_instance_id := (case cs of [] \<Rightarrow> 0 | c # _ \<Rightarrow> c)\<rparr>
                in UnLockCheckpoint (clean_loop_body E cs s2))))"

text \<open>The closure \<^verbatim>\<open>FinishMakeCheckpoint\<close> queues on the io loop.\<close>

definition FinishMakeCheckpoint ::
    "('d, 'w) env \<Rightarrow> u32 \<Rightarrow> u64 \<Rightarrow> bool \<Rightarrow> ('w, 'z) mach_scheme \<Rightarrow> ('w, 'z) mach_scheme" where
  "FinishMakeCheckpoint E machine_id instance_id result s =
     (if \<not> make_checkpoint s then s
      else if \<not> result then s\<lparr>make_checkpoint := False\<rparr>
      else
        (let s1 = s\<lparr>make_checkpoint_result := removeAll machine_id (make_checkpoint_result s)\<rparr>
         in if make_checkpoint_result s1 = []
            then (CleanCheckpoint E (snd (UpdateCheckpoint E instance_id s1)))\<lparr>make_checkpoint := False\<rparr>
            else s1))"

text \<open>A closure of the clean loop that writes a checkpoint: it reports the machine, the
  instance and the outcome to \<^verbatim>\<open>FinishMakeCheckpoint\<close>.\<close>

definition run_checkpoint_task ::
    "('d, 'w) env \<Rightarrow> clean_task \<Rightarrow> ('w, 'z) mach_scheme \<Rightarrow>
      (u32 \<times> u64 \<times> bool) option \<times> ('w, 'z) mach_scheme" where
  "run_checkpoint_task E t s =
     (case t of
        WriteMembership g i dir m \<Rightarrow>
          (case in_world (MembershipMachine_WriteCheckpoint E g i dir m) s of
             (b, s') \<Rightarrow> (Some (1, i, b), s'))
      | WriteMaster g i dir st \<Rightarrow>
          (case in_world (MasterMachine_WriteCheckpoint E g i dir st) s of
             (b, s') \<Rightarrow> (Some (2, i, b), s'))
      | GCLoop \<Rightarrow> (None, s))"

section \<open>Reading checkpoints\<close>

text \<open>The virtual call \<^verbatim>\<open>Recover\<close>; \<^const>\<open>None\<close> when a file does not end.\<close>

definition machine_Recover ::
    "('d, 'w) env \<Rightarrow> u32 \<Rightarrow> machine \<Rightarrow> u64 \<Rightarrow> string \<Rightarrow> ('w, 'z) mach_scheme \<Rightarrow>
      (bool \<times> ('w, 'z) mach_scheme) option" where
  "machine_Recover E i m instance_id dir s =
     (case m of
        Membership_machine \<Rightarrow>
          map_option (\<lambda>((b, m'), w). (b, s\<lparr>membership := m', world := w\<rparr>))
            (MembershipMachine_Recover E (cfg_group_id E) instance_id dir (membership s) (world s))
      | Master_machine \<Rightarrow>
          map_option (\<lambda>((b, st), w). (b, s\<lparr>master := st, world := w\<rparr>))
            (MasterMachine_Recover E (cfg_group_id E) instance_id dir (master s) (world s))
      | User_machine \<Rightarrow>
          Some (in_world (sm_recover E i (cfg_group_id E) instance_id dir) s))"

fun recover_machines ::
    "('d, 'w) env \<Rightarrow> u64 \<Rightarrow> (u32 \<times> machine) list \<Rightarrow> ('w, 'z) mach_scheme \<Rightarrow>
      (bool \<times> ('w, 'z) mach_scheme) option" where
  "recover_machines E instance_id [] s = Some (True, s)"
| "recover_machines E instance_id ((i, m) # ms) s =
     (let dir = GetCheckpointPath_machine E instance_id i
      in if \<not> FileExists E dir (world s) then recover_machines E instance_id ms s
         else (case machine_Recover E i m instance_id dir s of
            None \<Rightarrow> None
          | Some (b, s') \<Rightarrow> if b then recover_machines E instance_id ms s' else Some (False, s')))"

definition MachineManager_Recover ::
    "('d, 'w) env \<Rightarrow> ('w, 'z) mach_scheme \<Rightarrow> (bool \<times> ('w, 'z) mach_scheme) option" where
  "MachineManager_Recover E s =
     (let s1 = CleanCheckpoint E s;
          latest = (if checkpoints s1 = [] then 0 else last (checkpoints s1));
          s2 = s1\<lparr>latest_checkpoint_instance_id := latest\<rparr>
      in if latest = 0 then Some (True, s2)
         else recover_machines E latest (machines s2) s2)"

text \<open>\<^verbatim>\<open>GetCheckpoint\<close> with its two outputs; the caller passes the current values of
  both, and they come back unchanged where the code does not write them.\<close>

definition GetCheckpoint ::
    "('d, 'w) env \<Rightarrow> u64 \<Rightarrow> u32 \<Rightarrow> string \<Rightarrow> string list \<Rightarrow> ('w, 'z) mach_scheme \<Rightarrow>
      (bool \<times> string \<times> string list) \<times> ('w, 'z) mach_scheme" where
  "GetCheckpoint E instance_id machine_id dir files s =
     (if instance_id = 0 then ((True, dir, files), s)
      else (case map_of (machines s) machine_id of
         None \<Rightarrow> ((False, dir, files), s)
       | Some m \<Rightarrow>
          (let dir' = GetCheckpointPath_machine E instance_id machine_id
           in if \<not> FileExists E dir' (world s) then ((True, dir', files), s)
              else (case m of
                 Membership_machine \<Rightarrow>
                   (let (b, fs) = MembershipMachine_GetCheckpoint files in ((b, dir', fs), s))
               | Master_machine \<Rightarrow>
                   (let (b, fs) = MasterMachine_GetCheckpoint files in ((b, dir', fs), s))
               | User_machine \<Rightarrow>
                   (let ((b, fs), s') = in_world (sm_get_checkpoint E machine_id (cfg_group_id E)
                          instance_id dir') s
                    in ((b, dir', files @ fs), s'))))))"

section \<open>What the manager leaves alone\<close>

text \<open>
  \<open>mach_step s s'\<close>: the two states differ in fields of the manager only, and not in the
  registry. It is how the larger states that extend \<open>mach\<close> see an operation of this
  theory.
\<close>

definition mach_step :: "('w, 'z) mach_scheme \<Rightarrow> ('w, 'z) mach_scheme \<Rightarrow> bool" where
  "mach_step s s' \<longleftrightarrow>
     machines s' = machines s \<and> io_loop_set s' = io_loop_set s \<and> mach.more s' = mach.more s"

lemma mach_step_refl [simp, intro]: "mach_step s s"
  by (simp add: mach_step_def)

lemma mach_step_trans: "mach_step s t \<Longrightarrow> mach_step t u \<Longrightarrow> mach_step s u"
  by (simp add: mach_step_def)

lemma in_world_step [simp]: "mach_step s (snd (in_world f s))"
  by (simp add: mach_step_def in_world_def case_prod_beta)

lemma abort_step [simp]: "mach_step s (abort s)"
  by (simp add: mach_step_def abort_def)

lemma in_world_eqs [simp]:
  "io_loop_set (snd (in_world f s)) = io_loop_set s"
  "mach.more (snd (in_world f s)) = mach.more s"
  "machines (snd (in_world f s)) = machines s"
  "membership (snd (in_world f s)) = membership s"
  "latest_checkpoint_instance_id (snd (in_world f s)) = latest_checkpoint_instance_id s"
  "make_checkpoint (snd (in_world f s)) = make_checkpoint s"
  "make_checkpoint_result (snd (in_world f s)) = make_checkpoint_result s"
  "aborted (snd (in_world f s)) = aborted s"
  by (simp_all add: in_world_def case_prod_beta)

lemma machine_MakeCheckpoint_step [simp]:
  "mach_step s (snd (machine_MakeCheckpoint E i m ii dir s))"
  by (cases m) (simp_all add: machine_MakeCheckpoint_def, simp add: mach_step_def, simp add: mach_step_def)

lemma machine_MakeCheckpoint_eqs [simp]:
  "membership (snd (machine_MakeCheckpoint E i m ii dir s)) = membership s"
  "latest_checkpoint_instance_id (snd (machine_MakeCheckpoint E i m ii dir s)) =
     latest_checkpoint_instance_id s"
  "make_checkpoint (snd (machine_MakeCheckpoint E i m ii dir s)) = make_checkpoint s"
  "aborted (snd (machine_MakeCheckpoint E i m ii dir s)) = aborted s"
  by (cases m; simp add: machine_MakeCheckpoint_def)+

lemma make_checkpoints_step:
  "mach_step s (snd (make_checkpoints E ii ms s)) \<and>
   membership (snd (make_checkpoints E ii ms s)) = membership s \<and>
   latest_checkpoint_instance_id (snd (make_checkpoints E ii ms s)) =
     latest_checkpoint_instance_id s \<and>
   make_checkpoint (snd (make_checkpoints E ii ms s)) = make_checkpoint s \<and>
   aborted (snd (make_checkpoints E ii ms s)) = aborted s"
proof (induction ms arbitrary: s)
  case Nil
  then show ?case by simp
next
  case (Cons im ms)
  obtain i m where im: "im = (i, m)" by (cases im)
  let ?dir = "GetTempCheckpointPath_machine E ii i"
  let ?s1 = "snd (in_world (CreateDir E ?dir) s)"
  let ?s2 = "snd (machine_MakeCheckpoint E i m ii ?dir ?s1)"
  have step: "mach_step s ?s2"
    by (rule mach_step_trans [OF in_world_step machine_MakeCheckpoint_step])
  then show ?case
    using Cons.IH [of "?s2\<lparr>make_checkpoint_result := List.insert i (make_checkpoint_result ?s2)\<rparr>"]
    by (auto simp: im Let_def case_prod_beta mach_step_def)
qed

lemma MakeCheckpoint_step:
  "mach_step s (snd (MakeCheckpoint E ii s)) \<and>
   membership (snd (MakeCheckpoint E ii s)) = membership s \<and>
   latest_checkpoint_instance_id (snd (MakeCheckpoint E ii s)) = latest_checkpoint_instance_id s"
proof -
  let ?s1 = "snd (in_world (uniform_int E 1 (cfg_keep_log_count E div 2)) s)"
  let ?s2 = "snd (in_world (DeleteTempCheckpoint E) ?s1)"
  have "mach_step s ?s2" by (rule mach_step_trans [OF in_world_step in_world_step])
  then show ?thesis
    using make_checkpoints_step [of "?s2\<lparr>make_checkpoint_result := []\<rparr>" E ii "machines ?s2"]
    by (auto simp: MakeCheckpoint_def Let_def case_prod_beta abort_def mach_step_def)
qed

lemma machine_Execute_step [simp]: "mach_step s (snd (machine_Execute E i m ii v c s))"
  by (cases m) (auto simp: machine_Execute_def mach_step_def abort_def case_prod_beta
      split: option.splits)

lemma MachineManager_Execute_step [simp]: "mach_step s (snd (MachineManager_Execute E ii v c s))"
  by (auto simp: MachineManager_Execute_def Let_def case_prod_beta split: option.splits
      intro: mach_step_trans [OF machine_Execute_step conjunct1 [OF MakeCheckpoint_step]])

lemma clean_loop_body_step: "mach_step s (clean_loop_body E cs s)"
proof (induction "length cs" arbitrary: cs s)
  case 0
  then show ?case by (simp add: mach_step_def)
next
  case (Suc n)
  then obtain c ds where cs: "cs = c # ds" "n = length ds" by (cases cs) auto
  show ?case
  proof (cases ds)
    case Nil
    then show ?thesis by (simp add: cs(1) mach_step_def abort_def)
  next
    case (Cons d es)
    let ?t = "s\<lparr>oldest_checkpoint_instance_id := d, world := remove_checkpoint E c (world s)\<rparr>"
    have "n = length (last ds # butlast ds)" using cs(2) Cons by simp
    note * = Suc.hyps(1) [OF this, of ?t]
    have "mach_step s ?t" "mach_step s (s\<lparr>checkpoints := cs\<rparr>)" by (simp_all add: mach_step_def)
    with mach_step_trans [OF _ *] show ?thesis
      unfolding cs(1) by (subst clean_loop_body.simps(2)) (simp add: Cons del: clean_loop_body.simps)
  qed
qed

lemma CleanCheckpoint_step: "mach_step s (CleanCheckpoint E s)"
  by (auto simp: clean_loop_body_step [unfolded mach_step_def] CleanCheckpoint_def TryLockCheckpoint_def UnLockCheckpoint_def Let_def abort_def
      mach_step_def split: option.split)

lemma UpdateCheckpoint_step: "mach_step s (snd (UpdateCheckpoint E i s))"
  by (simp add: UpdateCheckpoint_def Let_def case_prod_beta in_world_def mach_step_def)

lemma FinishMakeCheckpoint_step: "mach_step s (FinishMakeCheckpoint E m i r s)"
proof -
  have "mach_step s (s\<lparr>make_checkpoint_result := ms\<rparr>)" for ms by (simp add: mach_step_def)
  from mach_step_trans [OF mach_step_trans [OF this UpdateCheckpoint_step [of _ E i]] CleanCheckpoint_step [of _ E]]
  show ?thesis by (simp add: FinishMakeCheckpoint_def Let_def mach_step_def)
qed

lemma run_checkpoint_task_step: "mach_step s (snd (run_checkpoint_task E t s))"
  by (cases t) (simp_all add: run_checkpoint_task_def case_prod_beta)

section \<open>Names of checkpoint directories\<close>

text \<open>
  The ids read back from the names of checkpoint directories are exactly the ones the
  directories were named after, in directory order, and entries without a hyphen, such as the
  temporary directory, are passed over.
\<close>

theorem checkpoint_names_roundtrip:
  "checkpoint_ids (concat (map (\<lambda>i. [''checkpoint-'' @ to_string (unat i), ''tempcheckpoint'']) is)) = Some is"
  by (induction "is") (simp_all add: stoull_to_string)

section \<open>Which checkpoints cleaning keeps\<close>

lemma clean_loop_body_within:
  "length cs \<le> unat (cfg_keep_checkpoint_count E) \<Longrightarrow> clean_loop_body E cs s = s\<lparr>checkpoints := cs\<rparr>"
  by (cases cs) auto

lemma clean_loop_body_one_over:
  assumes "Suc (length cs) = Suc (unat (cfg_keep_checkpoint_count E))" and "cs \<noteq> []"
  shows "clean_loop_body E (c # cs) s =
    s\<lparr>oldest_checkpoint_instance_id := hd cs, world := remove_checkpoint E c (world s),
      checkpoints := last cs # butlast cs\<rparr>"
  using assms by (cases cs) (auto simp: clean_loop_body_within simp del: clean_loop_body.simps(2)
      simp: clean_loop_body.simps(2) [of E c])

text \<open>The state and the directory listing from which cleaning starts.\<close>

definition clean_start :: "('d, 'w) env \<Rightarrow> u64 list \<Rightarrow> ('w, 'z) mach_scheme \<Rightarrow> bool" where
  "clean_start E ids s \<longleftrightarrow>
     \<not> checkpoint_locked s \<and> distinct ids \<and>
     checkpoint_ids (snd (GetChildren E (cfg_checkpoint_path E) False (world s))) = Some ids"

lemma CleanCheckpoint_one_over_eq:
  assumes "clean_start E ids s" and "length ids = Suc (unat (cfg_keep_checkpoint_count E))"
    and "1 < length ids"
  obtains c cs where "sort ids = c # cs" "cs \<noteq> []" "sorted (c # cs)" "distinct (c # cs)"
    "set ids = set (c # cs)"
    "CleanCheckpoint E s = s\<lparr>oldest_checkpoint_instance_id := hd cs,
       world := remove_checkpoint E c (world s), checkpoints := last cs # butlast cs,
       checkpoint_locked := False\<rparr>"
proof -
  obtain c cs where c: "sort ids = c # cs"
    using assms(3) by (metis length_sort list.size(3) neq_Nil_conv not_less_zero)
  have len: "Suc (length cs) = length ids" using c by (metis length_Cons length_sort)
  with assms(3) have ne: "cs \<noteq> []" by auto
  have "sorted (c # cs)" "distinct (c # cs)" "set ids = set (c # cs)"
    using assms(1) c by (metis sorted_sort, metis clean_start_def distinct_sort, metis set_sort)
  moreover have "CleanCheckpoint E s = s\<lparr>oldest_checkpoint_instance_id := hd cs,
       world := remove_checkpoint E c (world s), checkpoints := last cs # butlast cs,
       checkpoint_locked := False\<rparr>"
    using assms(1,2) c len ne
    by (simp add: CleanCheckpoint_def TryLockCheckpoint_def UnLockCheckpoint_def clean_start_def
        clean_loop_body_one_over del: clean_loop_body.simps)
  ultimately show thesis using that c ne by blast
qed

text \<open>
  C23. When the directory holds one checkpoint more than the configuration keeps, which is
  the situation right after a new one was published, cleaning removes exactly the oldest,
  records the oldest of those left, and releases the lock.
\<close>

theorem CleanCheckpoint_keeps_newest:
  assumes "clean_start E ids s" and "length ids = Suc (unat (cfg_keep_checkpoint_count E))"
    and "1 < length ids"
  shows "let s' = CleanCheckpoint E s
    in set (checkpoints s') = set ids - {Min (set ids)} \<and>
      oldest_checkpoint_instance_id s' = Min (set ids - {Min (set ids)}) \<and>
      world s' = remove_checkpoint E (Min (set ids)) (world s) \<and> \<not> checkpoint_locked s'"
proof -
  obtain c cs where c: "cs \<noteq> []" "sorted (c # cs)" "distinct (c # cs)" "set ids = set (c # cs)"
    and clean: "CleanCheckpoint E s = s\<lparr>oldest_checkpoint_instance_id := hd cs,
       world := remove_checkpoint E c (world s), checkpoints := last cs # butlast cs,
       checkpoint_locked := False\<rparr>"
    by (rule CleanCheckpoint_one_over_eq [OF assms])
  have min: "Min (set ids) = c" using c(2,4) by (auto intro: Min_eqI)
  have rest: "set ids - {c} = set cs" using c(3,4) by auto
  have "Min (set cs) = hd cs"
    using c(1,2) by (cases cs) (auto intro: Min_eqI)
  moreover have "set (last cs # butlast cs) = set cs"
    using c(1) by (cases cs rule: rev_cases) auto
  ultimately show ?thesis by (simp add: clean min rest Let_def)
qed

text \<open>
  C24. The vector is not in order afterwards: with at least three checkpoints on disk its
  last element, which \<^verbatim>\<open>Recover\<close> takes for the latest checkpoint, is not the
  newest one.
\<close>

theorem CleanCheckpoint_last_not_newest:
  assumes "clean_start E ids s" and "length ids = Suc (unat (cfg_keep_checkpoint_count E))"
    and "2 < length ids"
  shows "last (checkpoints (CleanCheckpoint E s)) < Max (set ids)"
proof -
  obtain c cs where c: "sort ids = c # cs" "cs \<noteq> []" "sorted (c # cs)" "distinct (c # cs)"
      "set ids = set (c # cs)"
    and clean: "CleanCheckpoint E s = s\<lparr>oldest_checkpoint_instance_id := hd cs,
       world := remove_checkpoint E c (world s), checkpoints := last cs # butlast cs,
       checkpoint_locked := False\<rparr>"
    using assms by (auto elim: CleanCheckpoint_one_over_eq)
  have "length (c # cs) > 2" using c(1) assms(3) by (metis length_sort)
  then obtain es y where es: "cs = es @ [y]" "es \<noteq> []" by (cases cs rule: rev_cases) auto
  then obtain ds x where "es = ds @ [x]" by (cases es rule: rev_cases) auto
  with es have cs: "cs = ds @ [x, y]" by simp
  have "x < y" using c(3,4) by (auto simp: cs sorted_append order.strict_iff_order)
  also have "y \<le> Max (set ids)" using c(5) by (intro Max_ge) (auto simp: cs)
  finally show ?thesis by (simp add: clean cs butlast_append)
qed

end
