(* ===== verification/Storage.thy ===== *)
theory Storage
  imports Env
begin

text \<open>
  \<^verbatim>\<open>src/storage/db.cc\<close> and \<^verbatim>\<open>src/storage/write_batch.cc\<close>: the log
  of a group in LevelDB, keyed by the fixed-width encoding of the instance id, with the
  largest 64-bit number set aside for the first instance id the log still holds. Results are
  the integers the methods return: 0 success, 1 not found, -1 error.
\<close>

section \<open>The class DB\<close>

definition kMinChosenKey :: u64 where
  "kMinChosenKey = - 1"

text \<open>\<^verbatim>\<open>SComparator::Compare\<close>.\<close>

definition SComparator_Compare :: "('d, 'w) env \<Rightarrow> bytes \<Rightarrow> bytes \<Rightarrow> int" where
  "SComparator_Compare E a b =
     (let key = decode64 E a; key2 = decode64 E b
      in if key = key2 then 0 else if key > key2 then 1 else -1)"

definition DB_Put :: "('d, 'w) env \<Rightarrow> bool \<Rightarrow> u64 \<Rightarrow> bytes \<Rightarrow> 'd \<Rightarrow> int \<times> 'd" where
  "DB_Put E sync instance_id value d =
     (case ldb_put E sync (encode64 E instance_id) value d of
        (st, d') \<Rightarrow> (if st \<noteq> LOk then -1 else 0, d'))"

definition DB_Delete :: "('d, 'w) env \<Rightarrow> bool \<Rightarrow> u64 \<Rightarrow> 'd \<Rightarrow> int \<times> 'd" where
  "DB_Delete E sync instance_id d =
     (case ldb_delete E sync (encode64 E instance_id) d of
        (st, d') \<Rightarrow> (if st \<noteq> LOk then -1 else 0, d'))"

definition DB_Write :: "('d, 'w) env \<Rightarrow> bool \<Rightarrow> batch_op list \<Rightarrow> 'd \<Rightarrow> int \<times> 'd" where
  "DB_Write E sync updates d =
     (case ldb_write E sync updates d of (st, d') \<Rightarrow> (if st \<noteq> LOk then -1 else 0, d'))"

text \<open>The output string is the second component; LevelDB leaves it alone on failure, and
  every caller passes an empty one.\<close>

definition DB_Get :: "('d, 'w) env \<Rightarrow> u64 \<Rightarrow> 'd \<Rightarrow> int \<times> bytes" where
  "DB_Get E instance_id d =
     (case ldb_get E (encode64 E instance_id) d of
        (LOk, v) \<Rightarrow> (0, v) | (LNotFound, v) \<Rightarrow> (1, v) | (LError, v) \<Rightarrow> (-1, v))"

text \<open>The iterator walks backwards from the last key, over the reserved one. The
  result \<^const>\<open>None\<close> for the id means that the output parameter is not written.\<close>

fun max_instance_scan :: "('d, 'w) env \<Rightarrow> bytes list \<Rightarrow> int \<times> u64 option" where
  "max_instance_scan E [] = (1, None)"
| "max_instance_scan E (k # before) =
     (let i = decode64 E k
      in if i = kMinChosenKey then max_instance_scan E before else (0, Some i))"

definition DB_GetMaxInstanceId :: "('d, 'w) env \<Rightarrow> 'd \<Rightarrow> int \<times> u64 option" where
  "DB_GetMaxInstanceId E d = max_instance_scan E (rev (ldb_keys E (SComparator_Compare E) d))"

text \<open>\<^verbatim>\<open>WriteOptions()\<close> asks for a synchronous write.\<close>

definition DB_SetMinChosenInstanceId :: "('d, 'w) env \<Rightarrow> u64 \<Rightarrow> 'd \<Rightarrow> int \<times> 'd" where
  "DB_SetMinChosenInstanceId E i d = DB_Put E True kMinChosenKey (encode64 E i) d"

definition DB_GetMinChosenInstanceId :: "('d, 'w) env \<Rightarrow> 'd \<Rightarrow> int \<times> u64 option" where
  "DB_GetMinChosenInstanceId E d =
     (case DB_Get E kMinChosenKey d of
        (ret, v) \<Rightarrow> (ret, if ret = 0 then Some (decode64 E v) else None))"

section \<open>The class WriteBatch\<close>

definition WriteBatch_Put ::
    "('d, 'w) env \<Rightarrow> u64 \<Rightarrow> bytes \<Rightarrow> batch_op list \<Rightarrow> batch_op list" where
  "WriteBatch_Put E instance_id value b = b @ [BPut (encode64 E instance_id) value]"

definition WriteBatch_Delete :: "('d, 'w) env \<Rightarrow> u64 \<Rightarrow> batch_op list \<Rightarrow> batch_op list" where
  "WriteBatch_Delete E instance_id b = b @ [BDelete (encode64 E instance_id)]"

definition WriteBatch_Clear :: "batch_op list \<Rightarrow> batch_op list" where
  "WriteBatch_Clear b = []"

section \<open>The log store as its clients see it\<close>

text \<open>
  The acceptor, the learner and the log manager only rely on the following contract: a map
  from instance ids to records, written by \<open>put\<close>, read by \<open>get\<close>. \<open>ok\<close> is what has
  to hold of the parameter \<open>e\<close> for the laws to hold.
\<close>

locale log_store =
  fixes ok :: "'e \<Rightarrow> ('d \<Rightarrow> 'b) \<Rightarrow> bool"
    and lookup :: "'e \<Rightarrow> 'b \<Rightarrow> u64 \<rightharpoonup> bytes"
    and put :: "'e \<Rightarrow> bool \<Rightarrow> u64 \<Rightarrow> bytes \<Rightarrow> 'd \<Rightarrow> int \<times> 'd"
    and get :: "'e \<Rightarrow> u64 \<Rightarrow> 'd \<Rightarrow> int \<times> bytes"
  assumes put_ret: "ok e c \<Longrightarrow> fst (put e sync i v d) = 0"
    and put_lookup: "ok e c \<Longrightarrow>
      lookup e (c (snd (put e sync i v d))) = (lookup e (c d))(i \<mapsto> v)"
    and get_found: "ok e c \<Longrightarrow> lookup e (c d) i = Some v \<Longrightarrow> get e i d = (0, v)"
    and get_missing: "ok e c \<Longrightarrow> lookup e (c d) i = None \<Longrightarrow> get e i d = (1, [])"
begin

text \<open>A read after a write returns what was written, and no other entry moves.\<close>

lemma get_put:
  assumes "ok e c"
  shows "get e j (snd (put e sync i v d)) = (if j = i then (0, v) else get e j d)"
proof (cases "j = i")
  case True
  with assms show ?thesis by (simp add: get_found put_lookup)
next
  case False
  show ?thesis
  proof (cases "lookup e (c d) j")
    case None
    with assms False show ?thesis by (simp add: get_missing put_lookup)
  next
    case (Some u)
    with assms False show ?thesis by (simp add: get_found put_lookup)
  qed
qed

lemma get_zero_iff:
  assumes "ok e c"
  shows "get e i d = (0, v) \<longleftrightarrow> lookup e (c d) i = Some v"
proof (cases "lookup e (c d) i")
  case None
  with assms show ?thesis by (simp add: get_missing)
next
  case (Some u)
  with assms show ?thesis by (auto simp: get_found)
qed

end

text \<open>The contents of the database by instance id.\<close>

definition log_of :: "('d, 'w) env \<Rightarrow> (bytes \<rightharpoonup> bytes) \<Rightarrow> u64 \<rightharpoonup> bytes" where
  "log_of E m i = m (encode64 E i)"

definition storage_ok :: "('d, 'w) env \<Rightarrow> ('d \<Rightarrow> bytes \<rightharpoonup> bytes) \<Rightarrow> bool" where
  "storage_ok E contents \<longleftrightarrow> leveldb_ok E contents \<and> coding_ok E"

interpretation db: log_store storage_ok log_of DB_Put DB_Get
proof unfold_locales
  fix E :: "('d, 'w) env" and c :: "'d \<Rightarrow> bytes \<rightharpoonup> bytes" and sync i v d
  assume ok: "storage_ok E c"
  then have put: "fst (ldb_put E sync k v d) = LOk"
      "c (snd (ldb_put E sync k v d)) = (c d)(k \<mapsto> v)" for k
    by (simp_all add: storage_ok_def leveldb_ok_def)
  from ok have enc: "encode64 E a = encode64 E b \<longleftrightarrow> a = b" for a b
    by (simp add: storage_ok_def encode64_inj)
  show "fst (DB_Put E sync i v d) = 0"
    using put(1) [of "encode64 E i"] by (simp add: DB_Put_def case_prod_beta)
  show "log_of E (c (snd (DB_Put E sync i v d))) = (log_of E (c d))(i \<mapsto> v)"
    using put(2) [of "encode64 E i"]
    by (auto simp: DB_Put_def log_of_def fun_eq_iff enc case_prod_beta)
next
  fix E :: "('d, 'w) env" and c :: "'d \<Rightarrow> bytes \<rightharpoonup> bytes" and i v d
  assume ok: "storage_ok E c"
  then have get: "ldb_get E k d = (case c d k of None \<Rightarrow> (LNotFound, []) | Some v \<Rightarrow> (LOk, v))"
    for k d by (simp add: storage_ok_def leveldb_ok_def)
  show "log_of E (c d) i = Some v \<Longrightarrow> DB_Get E i d = (0, v)"
    by (simp add: DB_Get_def log_of_def get)
  show "log_of E (c d) i = None \<Longrightarrow> DB_Get E i d = (1, [])"
    by (simp add: DB_Get_def log_of_def get)
qed

section \<open>The reserved key\<close>

lemma SComparator_less: "SComparator_Compare E a b < 0 \<longleftrightarrow> decode64 E a < decode64 E b"
  by (auto simp: SComparator_Compare_def Let_def)

lemma max_instance_scan_sorted:
  assumes "sorted_wrt (\<lambda>a b. decode64 E b < decode64 E a) ks"
  shows "max_instance_scan E ks =
    (let ids = {i. i \<in> decode64 E ` set ks \<and> i \<noteq> kMinChosenKey}
     in if ids = {} then (1, None) else (0, Some (Max ids)))"
  using assms
proof (induction ks)
  case Nil
  then show ?case by simp
next
  case (Cons k ks)
  let ?ids = "{i. i \<in> decode64 E ` set ks \<and> i \<noteq> kMinChosenKey}"
  have fin: "finite ?ids" by simp
  show ?case
  proof (cases "decode64 E k = kMinChosenKey")
    case True
    then have "{i. i \<in> decode64 E ` set (k # ks) \<and> i \<noteq> kMinChosenKey} = ?ids" by auto
    with True Cons show ?thesis by (simp add: Let_def)
  next
    case False
    then have eq: "{i. i \<in> decode64 E ` set (k # ks) \<and> i \<noteq> kMinChosenKey} =
        insert (decode64 E k) ?ids" by auto
    have "Max (insert (decode64 E k) ?ids) = decode64 E k"
      using Cons.prems fin by (intro Max_eqI) (auto intro: less_imp_le)
    with False show ?thesis unfolding Let_def eq by (simp add: Let_def)
  qed
qed

text \<open>Every key of the log was written through \<^const>\<open>encode64\<close>.\<close>

definition keys_ok :: "('d, 'w) env \<Rightarrow> (bytes \<rightharpoonup> bytes) \<Rightarrow> bool" where
  "keys_ok E m \<longleftrightarrow> dom m \<subseteq> range (encode64 E)"

lemma keys_ok_put: "keys_ok E m \<Longrightarrow> keys_ok E (m(encode64 E i \<mapsto> v))"
  by (auto simp: keys_ok_def)

lemma decode_keys:
  assumes "coding_ok E" and "keys_ok E m"
  shows "decode64 E ` dom m = dom (log_of E m)"
proof
  show "decode64 E ` dom m \<subseteq> dom (log_of E m)"
    using assms by (force simp: keys_ok_def log_of_def coding_okD(4))
  show "dom (log_of E m) \<subseteq> decode64 E ` dom m"
    using coding_okD(4) [OF assms(1)] by (force simp: log_of_def image_iff dom_def)
qed

text \<open>The comparator orders such keys.\<close>

lemma SComparator_orders:
  assumes "coding_ok E" and "keys_ok E m"
  shows "strict_order_on (SComparator_Compare E) (dom m)"
proof -
  have ne: "decode64 E a \<noteq> decode64 E b" if "a \<in> dom m" "b \<in> dom m" "a \<noteq> b" for a b
  proof -
    from that(1,2) assms(2) have "a \<in> range (encode64 E)" "b \<in> range (encode64 E)"
      unfolding keys_ok_def by blast+
    with that(3) show ?thesis by (auto simp: coding_okD(4) [OF assms(1)])
  qed
  show ?thesis
    unfolding strict_order_on_def SComparator_less
  proof (intro conjI ballI impI)
    fix a b assume "a \<in> dom m" "b \<in> dom m" "a \<noteq> b"
    from ne [OF this] show "(decode64 E a < decode64 E b) \<noteq> (decode64 E b < decode64 E a)"
      by (simp add: neq_iff) (auto dest: less_asym)
  next
    fix a b c assume "decode64 E a < decode64 E b" "decode64 E b < decode64 E c"
    then show "decode64 E a < decode64 E c" by (rule less_trans)
  qed
qed

lemma DB_GetMaxInstanceId_eq:
  assumes "storage_ok E contents" and "keys_ok E (contents d)"
  shows "DB_GetMaxInstanceId E d =
    (let ids = dom (log_of E (contents d)) - {kMinChosenKey}
     in if ids = {} then (1, None) else (0, Some (Max ids)))"
proof -
  let ?ks = "ldb_keys E (SComparator_Compare E) d"
  have cod: "coding_ok E" and ldb: "leveldb_ok E contents"
    using assms(1) by (simp_all add: storage_ok_def)
  have "strict_order_on (SComparator_Compare E) (dom (contents d))"
    using SComparator_orders [OF cod] assms(2) by blast
  with ldb have keys: "set ?ks = dom (contents d)"
    and "sorted_wrt (\<lambda>a b. SComparator_Compare E a b < 0) ?ks"
    by (simp_all add: leveldb_ok_def)
  then have sorted: "sorted_wrt (\<lambda>a b. decode64 E b < decode64 E a) (rev ?ks)"
    by (simp add: SComparator_less sorted_wrt_rev)
  have "{i. i \<in> decode64 E ` set (rev ?ks) \<and> i \<noteq> kMinChosenKey} =
      dom (log_of E (contents d)) - {kMinChosenKey}"
    using decode_keys [OF cod assms(2)] by (auto simp: keys)
  with max_instance_scan_sorted [OF sorted]
  show ?thesis unfolding DB_GetMaxInstanceId_def by (simp only:)
qed

text \<open>
  C19. \<^verbatim>\<open>GetMaxInstanceId\<close> skips the reserved key: on a database whose keys are
  encoded instance ids it finds the largest instance id stored, and reports 1 without
  touching its output exactly when no instance is stored.
\<close>

theorem DB_GetMaxInstanceId_Max:
  assumes "storage_ok E contents" and "keys_ok E (contents d)"
  shows "DB_GetMaxInstanceId E d =
    (let ids = dom (log_of E (contents d)) - {kMinChosenKey}
     in if ids = {} then (1, None) else (0, Some (Max ids)))"
  by (rule DB_GetMaxInstanceId_eq [OF assms])

text \<open>The first id the log holds survives a write and a read.\<close>

lemma min_chosen_roundtrip:
  assumes "storage_ok E contents"
  shows "DB_GetMinChosenInstanceId E (snd (DB_SetMinChosenInstanceId E i d)) = (0, Some i)"
proof -
  have "DB_Get E kMinChosenKey (snd (DB_Put E True kMinChosenKey (encode64 E i) d)) =
      (0, encode64 E i)"
    using db.get_put [OF assms] by simp
  with assms show ?thesis
    by (simp add: DB_GetMinChosenInstanceId_def DB_SetMinChosenInstanceId_def storage_ok_def
        coding_okD(4))
qed

end
