(* ===== verification/Logs.thy ===== *)
theory Logs
  imports Manager Storage
begin

text \<open>
  \<^verbatim>\<open>LogManager\<close> (\<^verbatim>\<open>src/log/log_manager.cc\<close>) and \<^verbatim>\<open>LogCleaner\<close>
  (\<^verbatim>\<open>src/log/log_cleaner.cc\<close>): replay of the stored log at start-up and the garbage
  collection of chosen instances. The state extends the machine manager's with the database
  and the two bounds of the log.
\<close>

section \<open>State\<close>

record ('d, 'w) logs = "'w mach" +
  db :: 'd
  min_chosen_id :: u64
  max_chosen_id :: u64
  gc_started :: bool
  gc_timer :: TimerId

section \<open>LogManager\<close>

definition SetMinChosenInstanceId ::
    "('d, 'w) env \<Rightarrow> u64 \<Rightarrow> ('d, 'w, 'z) logs_scheme \<Rightarrow> ('d, 'w, 'z) logs_scheme" where
  "SetMinChosenInstanceId E i s =
     (let (res, d) = DB_SetMinChosenInstanceId E i (db s);
          s1 = s\<lparr>db := d\<rparr>
      in if res = 0 then s1\<lparr>min_chosen_id := i\<rparr> else s1)"

definition SetMaxChosenInstanceId :: "u64 \<Rightarrow> ('d, 'w, 'z) logs_scheme \<Rightarrow> ('d, 'w, 'z) logs_scheme" where
  "SetMaxChosenInstanceId i s = s\<lparr>max_chosen_id := i\<rparr>"

text \<open>The loop of \<^verbatim>\<open>ReplayLog\<close> from the current instance id up to \<open>to\<close>. The
  results of the parser and of the machine are both ignored, as in the source.\<close>

function ReplayLog ::
    "('d, 'w) env \<Rightarrow> u64 \<Rightarrow> u64 \<Rightarrow> ('d, 'w, 'z) logs_scheme \<Rightarrow> bool \<times> ('d, 'w, 'z) logs_scheme" where
  "ReplayLog E instance_id to s =
     (if instance_id < to then
        (case DB_Get E instance_id (db s) of
           (res, str) \<Rightarrow>
             (if res \<noteq> 0 then (False, s)
              else ReplayLog E (instance_id + 1) to
                (snd (MachineManager_Execute E instance_id
                   (pi_accepted_value (snd (parse_instance E str))) Null s))))
      else (True, s))"
  by pat_completeness auto
termination
  by (relation "measure (\<lambda>(E, i, to, s). unat to - unat i)")
    (auto simp: unat_inc_u64 word_less_nat_alt)

declare ReplayLog.simps [simp del]

definition LogManager_Recover ::
    "('d, 'w) env \<Rightarrow> u64 \<Rightarrow> ('d, 'w, 'z) logs_scheme \<Rightarrow> (bool \<times> u64) \<times> ('d, 'w, 'z) logs_scheme" where
  "LogManager_Recover E instance_id s =
     (case DB_GetMinChosenInstanceId E (db s) of
        (ret, found) \<Rightarrow>
          (if ret = -1 then ((False, instance_id), s)
           else
             (let min_chosen = (case found of None \<Rightarrow> 0 | Some i \<Rightarrow> i);
                  max_instance = instance_id;
                  checkpoint_id = latest_checkpoint_instance_id s + 1;
                  instance' = max checkpoint_id max_instance;
                  s1 = s\<lparr>min_chosen_id := min_chosen, max_chosen_id := instance'\<rparr>
              in if checkpoint_id < max_instance
                 then (case ReplayLog E checkpoint_id max_instance s1 of
                         (res, s2) \<Rightarrow> ((res, instance'), s2))
                 else ((True, instance'), s1))))"

section \<open>LogCleaner\<close>

text \<open>\<^verbatim>\<open>StartGC\<close> and \<^verbatim>\<open>StopGC\<close> run in a thread that is not the clean loop's.\<close>

definition StartGC :: "('d, 'w) env \<Rightarrow> ('d, 'w, 'z) logs_scheme \<Rightarrow> ('d, 'w, 'z) logs_scheme" where
  "StartGC E s =
     (if gc_started s then s
      else
        (let (now, w1) = NowMillis E (world s);
             (p, w2) = new_timer E (map fst (timer_heap (timer_list (clean_loop s)))) w1;
             (t, l) = RunEvery False p now 3000 GCLoop (clean_loop s)
         in s\<lparr>gc_started := True, world := w2, gc_timer := t, clean_loop := l\<rparr>))"

definition StopGC :: "('d, 'w, 'z) logs_scheme \<Rightarrow> ('d, 'w, 'z) logs_scheme" where
  "StopGC s =
     (if gc_started s
      then s\<lparr>gc_started := False, clean_loop := RunLoop_Remove False (gc_timer s) (clean_loop s)\<rparr>
      else s)"

text \<open>The \<^verbatim>\<open>while\<close> loop of \<^verbatim>\<open>GCLoop\<close>. \<open>keep\<close> is an \<^verbatim>\<open>int\<close>, so it
  is sign-extended where it is added to a 64-bit id.\<close>

function gc_collect ::
    "('d, 'w) env \<Rightarrow> u32 \<Rightarrow> u64 \<Rightarrow> u64 \<Rightarrow> u64 \<Rightarrow> batch_op list \<Rightarrow> u64 \<times> batch_op list" where
  "gc_collect E keep max_chosen checkpoint_id min_chosen batch =
     (if min_chosen + scast keep < max_chosen \<and> min_chosen < checkpoint_id
      then gc_collect E keep max_chosen checkpoint_id (min_chosen + 1)
             (WriteBatch_Delete E min_chosen batch)
      else (min_chosen, batch))"
  by pat_completeness auto
termination
  by (relation "measure (\<lambda>(E, k, m, c, i, b). unat c - unat i)")
    (auto simp: unat_inc_u64 word_less_nat_alt)

declare gc_collect.simps [simp del]

definition LogCleaner_GCLoop ::
    "('d, 'w) env \<Rightarrow> ('d, 'w, 'z) logs_scheme \<Rightarrow> ('d, 'w, 'z) logs_scheme" where
  "LogCleaner_GCLoop E s =
     (let keep = cfg_keep_log_count E;
          checkpoint_id = oldest_checkpoint_instance_id s + 1;
          (min_chosen, batch) =
            gc_collect E keep (max_chosen_id s) checkpoint_id (min_chosen_id s) []
      in if min_chosen = min_chosen_id s then s
         else
           (let (res, d) = DB_Write E False batch (db s);
                s1 = s\<lparr>db := d\<rparr>
            in if res = 0 then SetMinChosenInstanceId E min_chosen s1 else s1))"

section \<open>Replay runs every stored instance, in order\<close>

text \<open>A step of the machine manager inside the larger state.\<close>

lemma mach_step_logs:
  assumes "mach_step s s'"
  shows "db s' = db s" "min_chosen_id s' = min_chosen_id s" "max_chosen_id s' = max_chosen_id s"
    "gc_started s' = gc_started s" "logs.more s' = logs.more s"
  using assms by (cases s; cases s'; simp add: mach_step_def)+

text \<open>The values the log holds from an instance on: the reference for replay.\<close>

fun stored_values :: "('d, 'w) env \<Rightarrow> (u64 \<rightharpoonup> bytes) \<Rightarrow> u64 \<Rightarrow> nat \<Rightarrow> (u64 \<times> PaxosValue) list" where
  "stored_values E m i 0 = []"
| "stored_values E m i (Suc n) =
     (case m i of None \<Rightarrow> []
      | Some str \<Rightarrow> (i, pi_accepted_value (snd (parse_instance E str))) # stored_values E m (i + 1) n)"

text \<open>Executing a list of chosen values one after the other.\<close>

definition execute_all ::
    "('d, 'w) env \<Rightarrow> (u64 \<times> PaxosValue) list \<Rightarrow> ('w, 'z) mach_scheme \<Rightarrow> ('w, 'z) mach_scheme" where
  "execute_all E vs s = fold (\<lambda>(i, v) s. snd (MachineManager_Execute E i v Null s)) vs s"

text \<open>
  C20. Recovery replays the log exactly: when the store holds every instance from the
  checkpoint to the last one, \<^verbatim>\<open>ReplayLog\<close> succeeds and has executed precisely those
  values, each once and in instance order; when one is missing it fails there, having
  executed those before it.
\<close>

theorem ReplayLog_executes:
  assumes "storage_ok E contents"
  shows "ReplayLog E i to s =
    (let vs = stored_values E (log_of E (contents (db s))) i (unat to - unat i)
     in (length vs = unat to - unat i, execute_all E vs s))"
  using assms
proof (induction E i to s rule: ReplayLog.induct)
  case (1 E i to s)
  show ?case
  proof (cases "i < to")
    case False
    then have "unat to - unat i = 0" by (simp add: not_less word_le_nat_alt)
    with False show ?thesis by (simp add: ReplayLog.simps [of E i to s] execute_all_def)
  next
    case True
    then have n: "unat to - unat i = Suc (unat to - unat (i + 1))"
      by (simp add: unat_inc_u64 word_less_nat_alt)
    show ?thesis
    proof (cases "log_of E (contents (db s)) i")
      case None
      then have "DB_Get E i (db s) = (1, [])" using db.get_missing [OF 1(2)] by simp
      with True None n show ?thesis
        by (simp add: ReplayLog.simps [of E i to s] execute_all_def)
    next
      case (Some str)
      then have g: "DB_Get E i (db s) = (0, str)" using db.get_found [OF 1(2)] by simp
      let ?s' = "snd (MachineManager_Execute E i (pi_accepted_value (snd (parse_instance E str))) Null s)"
      have d: "db ?s' = db s" by (rule mach_step_logs(1) [OF MachineManager_Execute_step])
      have "ReplayLog E i to s = ReplayLog E (i + 1) to ?s'"
        using True by (simp add: ReplayLog.simps [of E i to s] g)
      with 1(1) [OF True g [symmetric]] Some n show ?thesis
        by (simp add: d execute_all_def 1(2) Let_def)
    qed
  qed
qed

section \<open>Garbage collection\<close>

lemma u64_interval_step: "(a :: u64) < b \<Longrightarrow> insert a {a + 1..<b} = {a..<b}"
  by (auto simp: inc_le_iff_u64)

text \<open>What the loop collects: an interval of ids, every one of which passes both tests.\<close>

lemma gc_collect_interval:
  assumes "gc_collect E keep mx cp mn b = (m', b')"
  shows "mn \<le> m' \<and> (\<forall>i. mn \<le> i \<longrightarrow> i < m' \<longrightarrow> i + scast keep < mx \<and> i < cp) \<and>
    (\<exists>ids. b' = b @ map (\<lambda>i. BDelete (encode64 E i)) ids \<and> set ids = {mn..<m'})"
  using assms
proof (induction E keep mx cp mn b arbitrary: m' b' rule: gc_collect.induct)
  case (1 E keep mx cp mn b)
  show ?case
  proof (cases "mn + scast keep < mx \<and> mn < cp")
    case False
    with 1(2) have "m' = mn" "b' = b" by (auto simp: gc_collect.simps [of E keep mx cp mn b])
    then show ?thesis by (auto intro: exI [of _ "[]"])
  next
    case True
    with 1(2) have "gc_collect E keep mx cp (mn + 1) (WriteBatch_Delete E mn b) = (m', b')"
      by (simp add: gc_collect.simps [of E keep mx cp mn b])
    from 1(1) [OF True this] obtain ids where IH: "mn + 1 \<le> m'"
        "\<forall>i. mn + 1 \<le> i \<longrightarrow> i < m' \<longrightarrow> i + scast keep < mx \<and> i < cp"
        "b' = WriteBatch_Delete E mn b @ map (\<lambda>i. BDelete (encode64 E i)) ids"
        "set ids = {mn + 1..<m'}" by blast
    have lt: "mn < m'" using True IH(1) by (auto simp: inc_le_iff_u64)
    then have "set (mn # ids) = {mn..<m'}" by (simp add: IH(4) u64_interval_step)
    moreover have "b' = b @ map (\<lambda>i. BDelete (encode64 E i)) (mn # ids)"
      by (simp add: IH(3) WriteBatch_Delete_def)
    moreover have "i + scast keep < mx \<and> i < cp" if "mn \<le> i" "i < m'" for i
      using that True IH(2) by (cases "i = mn") (auto simp: inc_le_iff_u64)
    ultimately show ?thesis using lt by (auto intro: exI [of _ "mn # ids"] less_imp_le)
  qed
qed

lemma log_of_deletes:
  assumes "coding_ok E"
  shows "log_of E (fold (\<lambda>op m. case op of BPut k v \<Rightarrow> m(k \<mapsto> v) | BDelete k \<Rightarrow> m(k := None))
      (map (\<lambda>i. BDelete (encode64 E i)) ids) m) j = (if j \<in> set ids then None else log_of E m j)"
  by (induction ids arbitrary: m) (auto simp: log_of_def encode64_inj [OF assms])

lemma GCLoop_log:
  assumes ok: "storage_ok E contents" and j: "j \<noteq> kMinChosenKey"
  shows "\<exists>m'. min_chosen_id s \<le> m' \<and> min_chosen_id (LogCleaner_GCLoop E s) = m' \<and>
    (\<forall>i. min_chosen_id s \<le> i \<longrightarrow> i < m' \<longrightarrow>
       i + scast (cfg_keep_log_count E) < max_chosen_id s \<and> i \<le> oldest_checkpoint_instance_id s) \<and>
    log_of E (contents (db (LogCleaner_GCLoop E s))) j =
      (if min_chosen_id s \<le> j \<and> j < m' then None else log_of E (contents (db s)) j)"
proof -
  let ?cp = "oldest_checkpoint_instance_id s + 1"
  obtain m' b where g: "gc_collect E (cfg_keep_log_count E) (max_chosen_id s) ?cp (min_chosen_id s) []
      = (m', b)" by fastforce
  from gc_collect_interval [OF g] obtain ids where
      i: "min_chosen_id s \<le> m'"
        "\<forall>i. min_chosen_id s \<le> i \<longrightarrow> i < m' \<longrightarrow>
          i + scast (cfg_keep_log_count E) < max_chosen_id s \<and> i < ?cp"
        "b = map (\<lambda>i. BDelete (encode64 E i)) ids" "set ids = {min_chosen_id s..<m'}" by auto
  have cp: "i < ?cp \<Longrightarrow> i \<le> oldest_checkpoint_instance_id s" for i
    by (rule less_inc_u64)
  show ?thesis
  proof (cases "m' = min_chosen_id s")
    case True
    then show ?thesis by (auto simp: LogCleaner_GCLoop_def g intro!: exI [of _ m'])
  next
    case False
    let ?d = "snd (ldb_write E False b (db s))"
    have w: "DB_Write E False b (db s) = (0, ?d)"
      "contents ?d = fold (\<lambda>op m. case op of BPut k v \<Rightarrow> m(k \<mapsto> v) | BDelete k \<Rightarrow> m(k := None))
         b (contents (db s))"
      using ok by (simp_all add: DB_Write_def storage_ok_def leveldb_ok_def case_prod_beta)
    let ?put = "DB_Put E True kMinChosenKey (encode64 E m') ?d"
    have p: "fst ?put = 0" "log_of E (contents (snd ?put)) j = log_of E (contents ?d) j"
      using db.put_ret [OF ok] db.put_lookup [OF ok] j by simp_all
    have s': "LogCleaner_GCLoop E s = s\<lparr>db := snd ?put, min_chosen_id := m'\<rparr>"
      using False p(1)
      by (simp add: LogCleaner_GCLoop_def g w(1) SetMinChosenInstanceId_def
          DB_SetMinChosenInstanceId_def case_prod_beta)
    have "log_of E (contents ?d) j =
        (if min_chosen_id s \<le> j \<and> j < m' then None else log_of E (contents (db s)) j)"
      using ok by (simp only: w(2)) (simp add: i(3,4) log_of_deletes storage_ok_def)
    with i cp p(2) show ?thesis by (auto simp: s' intro!: exI [of _ m'])
  qed
qed

text \<open>
  C21. Garbage collection never touches a log entry that is still needed: neither one above
  the oldest checkpoint kept on disk, nor one within the configured number of entries below
  the highest chosen instance. The lower bound of the log only grows.
\<close>

theorem GCLoop_keeps_needed:
  assumes "storage_ok E contents" and "j \<noteq> kMinChosenKey"
    and "oldest_checkpoint_instance_id s < j \<or>
      max_chosen_id s \<le> j + scast (cfg_keep_log_count E)"
  shows "log_of E (contents (db (LogCleaner_GCLoop E s))) j = log_of E (contents (db s)) j \<and>
    min_chosen_id s \<le> min_chosen_id (LogCleaner_GCLoop E s)"
  using GCLoop_log [OF assms(1,2), of s] assms(3) by (auto simp: not_less [symmetric])

end
