(* ===== verification/ProposeQueue.thy ===== *)
theory ProposeQueue
  imports Timers
begin

text \<open>
  \<^verbatim>\<open>ProposeQueue\<close>, \<^verbatim>\<open>src/paxos/propose_queue.cc\<close>: it lets one proposal
  at a time through to the io loop and keeps the others, with their callbacks, in arrival
  order. \<open>'f\<close> is the type of the io loop's closures, \<open>'c\<close> that of the user's
  callbacks. A failed assertion is \<^const>\<open>None\<close>.
\<close>

section \<open>The class\<close>

record ('f, 'c) ProposeQueue =
  capacity_of :: nat
  last_finished :: bool
  propose_queue :: "'f list"
  cb_queue :: "'c list"

text \<open>A closure of the callback loop: the call of a user callback with its arguments.\<close>

type_synonym 'c cb_call = "'c \<times> u64 \<times> Status \<times> ctx_ptr"

definition ProposeQueue_new :: "nat \<Rightarrow> ('f, 'c) ProposeQueue" where
  "ProposeQueue_new capacity =
     \<lparr>capacity_of = capacity, last_finished = True, propose_queue = [], cb_queue = []\<rparr>"

definition CheckCapacity :: "('f, 'c) ProposeQueue \<Rightarrow> bool" where
  "CheckCapacity q \<longleftrightarrow>
     \<not> (capacity_of q \<noteq> 0 \<and> length (propose_queue q) > capacity_of q)"

text \<open>The result with the io loop, on which the closure may have been queued.\<close>

definition ProposeQueue_Put ::
    "'f \<Rightarrow> 'c \<Rightarrow> 'f runloop \<Rightarrow> ('f, 'c) ProposeQueue \<Rightarrow> bool \<times> 'f runloop \<times> ('f, 'c) ProposeQueue" where
  "ProposeQueue_Put f cb io q =
     (if last_finished q
      then (True, RunLoop_QueueInLoop (Func f) io,
            q\<lparr>last_finished := False, cb_queue := cb_queue q @ [cb]\<rparr>)
      else if \<not> CheckCapacity q then (False, io, q)
      else (True, io, q\<lparr>propose_queue := propose_queue q @ [f], cb_queue := cb_queue q @ [cb]\<rparr>))"

definition ProposeQueue_ProposeComplete ::
    "u64 \<Rightarrow> Status \<Rightarrow> ctx_ptr \<Rightarrow> 'f runloop \<Rightarrow> 'c cb_call runloop \<Rightarrow> ('f, 'c) ProposeQueue \<Rightarrow>
      ('f runloop \<times> 'c cb_call runloop \<times> ('f, 'c) ProposeQueue) option" where
  "ProposeQueue_ProposeComplete instance_id s context io cbl q =
     (if last_finished q then None
      else (case cb_queue q of
         [] \<Rightarrow> None
       | cb # cbs \<Rightarrow>
          (let cbl' = RunLoop_QueueInLoop (Func (cb, instance_id, Status_copy s, context)) cbl;
               q1 = q\<lparr>cb_queue := cbs\<rparr>
           in (case propose_queue q of
                 f # fs \<Rightarrow> Some (RunLoop_QueueInLoop (Func f) io, cbl', q1\<lparr>propose_queue := fs\<rparr>)
               | [] \<Rightarrow> Some (io, cbl', q1\<lparr>last_finished := True\<rparr>)))))"

lemmas [op_defs] = ProposeQueue_new_def CheckCapacity_def ProposeQueue_Put_def
  ProposeQueue_ProposeComplete_def RunLoop_QueueInLoop_def

section \<open>Its invariant\<close>

text \<open>An idle queue is empty; a busy one holds one callback more than proposals, the one of
  the proposal under way. The bound is one above the capacity.\<close>

definition queue_ok :: "('f, 'c) ProposeQueue \<Rightarrow> bool" where
  "queue_ok q \<longleftrightarrow>
     length (cb_queue q) = length (propose_queue q) + (if last_finished q then 0 else 1) \<and>
     (last_finished q \<longrightarrow> propose_queue q = []) \<and>
     (capacity_of q \<noteq> 0 \<longrightarrow> length (propose_queue q) \<le> capacity_of q + 1)"

lemma queue_ok_new [simp]: "queue_ok (ProposeQueue_new n)"
  by (simp add: queue_ok_def ProposeQueue_new_def)

lemma queue_ok_Put:
  "queue_ok q \<Longrightarrow> ProposeQueue_Put f cb io q = (r, io', q') \<Longrightarrow> queue_ok q'"
  by (auto simp: ProposeQueue_Put_def queue_ok_def CheckCapacity_def split: if_splits)

lemma queue_ok_Complete:
  "queue_ok q \<Longrightarrow> ProposeQueue_ProposeComplete i s c io cbl q = Some (io', cbl', q') \<Longrightarrow> queue_ok q'"
  by (auto simp: ProposeQueue_ProposeComplete_def queue_ok_def Let_def
      split: if_splits list.splits)

text \<open>With a proposal under way neither assertion of \<^verbatim>\<open>ProposeComplete\<close> fails.\<close>

lemma Complete_defined:
  "queue_ok q \<Longrightarrow> \<not> last_finished q \<Longrightarrow>
   \<exists>io' cbl' q'. ProposeQueue_ProposeComplete i s c io cbl q = Some (io', cbl', q')"
  by (auto simp: ProposeQueue_ProposeComplete_def queue_ok_def Let_def split: list.splits)

section \<open>One at a time, first come first served\<close>

text \<open>
  The abstract queue: the pairs of a proposal and its callback that have been taken in and
  not completed, in arrival order; the head is the one under way. \<open>cur\<close> is its proposal,
  which the concrete queue no longer holds.
\<close>

definition pending :: "'f \<Rightarrow> ('f, 'c) ProposeQueue \<Rightarrow> ('f \<times> 'c) list" where
  "pending cur q = (if last_finished q then [] else zip (cur # propose_queue q) (cb_queue q))"

lemma Put_accepted:
  assumes "queue_ok q" and "ProposeQueue_Put f cb io q = (True, io', q')"
  shows "pending (if last_finished q then f else cur) q' = pending cur q @ [(f, cb)]"
    and "funcs io' = funcs io @ (if last_finished q then [Func f] else [])"
proof -
  show "pending (if last_finished q then f else cur) q' = pending cur q @ [(f, cb)]"
  proof (cases "last_finished q")
    case True
    with assms show ?thesis
      by (auto simp: ProposeQueue_Put_def pending_def queue_ok_def)
  next
    case False
    have "length (cur # propose_queue q) = length (cb_queue q)"
      using assms(1) False by (simp add: queue_ok_def)
    then have "zip ((cur # propose_queue q) @ [f]) (cb_queue q @ [cb]) =
        zip (cur # propose_queue q) (cb_queue q) @ [(f, cb)]"
      by (subst zip_append) auto
    with False assms(2) show ?thesis
      by (auto simp: ProposeQueue_Put_def pending_def split: if_splits)
  qed
  show "funcs io' = funcs io @ (if last_finished q then [Func f] else [])"
    using assms(2) by (auto simp: ProposeQueue_Put_def RunLoop_QueueInLoop_def split: if_splits)
qed

lemma Complete_head:
  assumes "queue_ok q" and "\<not> last_finished q"
  obtains cb rest io' cbl' q' where
    "ProposeQueue_ProposeComplete i s c io cbl q = Some (io', cbl', q')"
    "pending cur q = (cur, cb) # rest"
    "funcs cbl' = funcs cbl @ [Func (cb, i, Status_copy s, c)]"
    "pending (case rest of [] \<Rightarrow> cur | (f, _) # _ \<Rightarrow> f) q' = rest"
    "funcs io' = funcs io @ (case rest of [] \<Rightarrow> [] | (f, _) # _ \<Rightarrow> [Func f])"
    "last_finished q' \<longleftrightarrow> rest = []"
proof -
  from assms obtain cb cbs where cb: "cb_queue q = cb # cbs" "length cbs = length (propose_queue q)"
    by (cases "cb_queue q") (auto simp: queue_ok_def)
  show thesis
  proof (cases "propose_queue q")
    case Nil
    with cb assms that [where rest = "[]" and cb = cb] show thesis
      by (simp add: ProposeQueue_ProposeComplete_def pending_def RunLoop_QueueInLoop_def)
  next
    case (Cons f fs)
    with cb obtain c2 cs2 where c2: "cbs = c2 # cs2" by (cases cbs) auto
    with Cons cb assms that [where rest = "zip (propose_queue q) cbs" and cb = cb] show thesis
      by (simp add: ProposeQueue_ProposeComplete_def pending_def RunLoop_QueueInLoop_def)
  qed
qed

end
