(* ===== verification/Rand.thy ===== *)
theory Rand
  imports Prelude
begin

text \<open>
  The pseudo-random generator of \<^verbatim>\<open>src/util/random.h\<close>, at the widths of the source:
  a 32-bit seed multiplied in 64 bits and reduced without a division. It spreads the retry
  and the learn timers. The theorem shows that the reduction computes the remainder modulo
  \<open>2\<^sup>3\<^sup>1 - 1\<close> and never leaves the generator's range.
\<close>

unbundle bit_operations_syntax

section \<open>The class Random\<close>

definition Random_new :: "u32 \<Rightarrow> u32" where
  "Random_new s =
     (let seed = s AND 0x7fffffff
      in if seed = 0 \<or> seed = 2147483647 then 1 else seed)"

text \<open>The number drawn is the new seed.\<close>

definition Random_Next :: "u32 \<Rightarrow> u32" where
  "Random_Next seed =
     (let M = 2147483647 :: u32;
          product = (ucast seed :: u64) * 16807;
          seed1 = ucast (drop_bit 31 product + (product AND ucast M)) :: u32
      in if seed1 > M then seed1 - M else seed1)"

text \<open>The result with the new seed; the bound is an \<^verbatim>\<open>int\<close>, converted to 32 bits.\<close>

definition Random_Uniform :: "u32 \<Rightarrow> u32 \<Rightarrow> u32 \<times> u32" where
  "Random_Uniform n seed = (let seed' = Random_Next seed in (seed' mod n, seed'))"

definition Random_OneIn :: "u32 \<Rightarrow> u32 \<Rightarrow> bool \<times> u32" where
  "Random_OneIn n seed = (let seed' = Random_Next seed in (seed' mod n = 0, seed'))"

text \<open>\<^verbatim>\<open>Uniform(1 << Uniform(max_log + 1))\<close>.\<close>

definition Random_Skewed :: "u32 \<Rightarrow> u32 \<Rightarrow> u32 \<times> u32" where
  "Random_Skewed max_log seed =
     (let (base, seed1) = Random_Uniform (max_log + 1) seed
      in Random_Uniform (push_bit (unat base) 1) seed1)"

lemmas [op_defs] = Random_new_def Random_Next_def Random_Uniform_def

section \<open>The reduction\<close>

text \<open>Folding the high part onto the low one changes a number by a multiple of the modulus.\<close>

lemma fold_mod:
  fixes p :: nat
  shows "(p div 2147483648 + p mod 2147483648) mod 2147483647 = p mod 2147483647"
proof -
  have "p = p div 2147483648 * 2147483648 + p mod 2147483648" by simp
  also have "\<dots> = (p div 2147483648 + p mod 2147483648) + p div 2147483648 * 2147483647" by simp
  finally show ?thesis by (metis mod_mult_self1)
qed

lemma prime_step_nonzero:
  fixes n :: nat
  assumes "0 < n" and "n < 2147483647"
  shows "n * 16807 mod 2147483647 \<noteq> 0"
proof
  assume "n * 16807 mod 2147483647 = 0"
  then have "(2147483647 :: nat) dvd n * 16807" by (simp add: mod_eq_0_iff_dvd)
  moreover have "coprime (2147483647 :: nat) 16807"
    by (simp add: coprime_iff_gcd_eq_1 gcd_non_0_nat)
  ultimately have "(2147483647 :: nat) dvd n" by (simp add: coprime_dvd_mult_left_iff)
  with assms show False by (auto dest: dvd_imp_le)
qed

lemma product_unat:
  assumes "unat (seed :: u32) < 2147483647"
  shows "unat ((ucast seed :: u64) * 16807) = unat seed * 16807"
proof -
  have "unat (ucast seed :: u64) = unat seed"
    using unsigned_less [of seed, where ?'a = nat]
    by (simp add: unsigned_ucast_eq take_bit_nat_eq_self)
  with assms show ?thesis by (simp add: unat_word_ariths)
qed

lemma unat_and_mask31: "unat (x AND mask 31) = unat x mod 2147483648" for x :: "'a::len word"
proof -
  have "unat (x AND mask 31) = take_bit 31 (unat x)"
    by (simp only: unsigned_take_bit_eq take_bit_eq_mask [symmetric])
  then show ?thesis by (simp add: take_bit_eq_mod)
qed

lemma folded_unat:
  fixes p :: u64
  assumes "unat p \<le> 2147483646 * 16807"
  shows "unat (ucast (drop_bit 31 p + (p AND 2147483647)) :: u32) =
    unat p div 2147483648 + unat p mod 2147483648"
proof -
  have m: "(2147483647 :: u64) = mask 31" by (simp add: mask_eq_exp_minus_1)
  have d: "unat (drop_bit 31 p) = unat p div 2147483648"
    by (simp add: drop_bit_eq_div unat_div)
  have a: "unat (p AND mask 31) = unat p mod 2147483648"
    by (rule unat_and_mask31)
  have "unat p div 2147483648 \<le> 16807" "unat p mod 2147483648 < 2147483648"
    using assms by simp_all
  with d a have "unat (drop_bit 31 p + (p AND mask 31)) =
      unat p div 2147483648 + unat p mod 2147483648"
    by (subst unat_add_lem [THEN iffD1]) simp_all
  with d a m show ?thesis
    using \<open>unat p div 2147483648 \<le> 16807\<close> \<open>unat p mod 2147483648 < 2147483648\<close>
    by (simp add: unsigned_ucast_eq take_bit_nat_eq_self)
qed

lemma reduce_once:
  fixes f :: nat
  assumes "n = (if 2147483647 < f then f - 2147483647 else f)" and "f < 2 * 2147483647"
  shows "n = (if f = 2147483647 then f else f mod 2147483647)"
proof (cases "2147483647 < f")
  case True
  then have "f mod 2147483647 = f - 2147483647" using assms(2) by (simp add: le_mod_geq)
  with True assms(1) show ?thesis by simp
next
  case False
  with assms(1) show ?thesis by simp
qed

lemma seed_range:
  fixes x :: u32
  assumes "x \<noteq> 0" and "x \<noteq> 2147483647" and "unat x < 2147483648"
  shows "0 < unat x \<and> unat x < 2147483647"
  using assms by unat_arith

lemma Random_new_range: "0 < unat (Random_new s) \<and> unat (Random_new s) < 2147483647"
proof -
  have m: "(2147483647 :: u32) = mask 31" by (simp add: mask_eq_exp_minus_1)
  have u: "unat (s AND 2147483647) < 2147483648" unfolding m unat_and_mask31 by simp
  show ?thesis
  proof (cases "s AND 2147483647 = 0 \<or> s AND 2147483647 = 2147483647")
    case True
    then have "Random_new s = 1" by (auto simp: Random_new_def Let_def)
    then show ?thesis by simp
  next
    case False
    then have "Random_new s = s AND 2147483647" by (simp add: Random_new_def Let_def)
    with False u show ?thesis using seed_range [of "s AND 2147483647"] by metis
  qed
qed

text \<open>
  C40. The generator is the multiplicative one it is meant to be: from a seed in its range
  the shift-and-add reduction yields the seed times 16807 modulo 2147483647, which is again in
  the range, so that the generator never gets stuck at 0; and the constructor starts it in
  the range from any argument.
\<close>

theorem Random_Next_mod:
  assumes "0 < unat seed" and "unat seed < 2147483647"
  shows "unat (Random_Next seed) = unat seed * 16807 mod 2147483647 \<and>
    0 < unat (Random_Next seed) \<and> unat (Random_Next seed) < 2147483647 \<and>
    0 < unat (Random_new s) \<and> unat (Random_new s) < 2147483647"
proof -
  let ?p = "(ucast seed :: u64) * 16807"
  let ?f = "unat ?p div 2147483648 + unat ?p mod 2147483648"
  let ?s1 = "ucast (drop_bit 31 ?p + (?p AND 2147483647)) :: u32"
  have p: "unat ?p = unat seed * 16807" by (rule product_unat [OF assms(2)])
  have s1: "unat ?s1 = ?f" by (rule folded_unat) (use assms(2) p in simp)
  have "unat (Random_Next seed) = (if 2147483647 < ?f then ?f - 2147483647 else ?f)"
    by (simp add: Random_Next_def Let_def word_less_nat_alt s1 unat_sub_if')
  moreover have "?f < 2 * 2147483647" using assms(2) p by simp
  ultimately have "unat (Random_Next seed) = (if ?f = 2147483647 then ?f else ?f mod 2147483647)"
    by (rule reduce_once)
  moreover have "?f mod 2147483647 = unat seed * 16807 mod 2147483647"
    using fold_mod [of "unat ?p"] p by simp
  moreover have "0 < unat (Random_new s) \<and> unat (Random_new s) < 2147483647"
    by (rule Random_new_range)
  ultimately show ?thesis using prime_step_nonzero [OF assms] by (auto split: if_splits)
qed

end
