(* ===== verification/Node.thy ===== *)
theory Node
  imports Ballot Logs ProposeQueue Rand
begin

text \<open>
  The state of one group of a node as the io thread works on it: acceptor, proposer,
  learner, instance, propose queue and the loops, on top of the log manager's state; with it
  the operations every role uses: \<^verbatim>\<open>Messager\<close> (\<^verbatim>\<open>src/network/messager.cc\<close>),
  \<^verbatim>\<open>Counter\<close> (\<^verbatim>\<open>src/paxos/counter.cc\<close>), the membership queries of
  \<^verbatim>\<open>Config\<close> (\<^verbatim>\<open>src/paxos/config.cc\<close>) and the timers of the io loop.
\<close>

section \<open>Closures\<close>

text \<open>What is queued on the io loop or fired by its timers: the retry timer of the proposer
  with the instance id it captured, the learn and the propose timer, \<^verbatim>\<open>SyncData\<close>, a bound
  \<^verbatim>\<open>Instance::OnPropose\<close>, the master election, a received content, and the report of a
  finished checkpoint.\<close>

datatype io_task =
    RetryTimer u64
  | LearnTimer
  | ProposeTimer
  | SyncTask bool
  | ProposeTask u32 bytes ctx_ptr
  | MasterTask
  | ContentTask Content
  | FinishTask u32 u64 bool

datatype learn_task =
    SendTask u64 Content
  | ASyncSendTask u64 u64 u64
  | SendCheckpointTask u64

text \<open>A completion callback: the user's, or the one \<^verbatim>\<open>Group::NewPropose\<close> binds.\<close>

datatype complete_cb = UserCallback nat | GroupComplete

text \<open>A call of \<^verbatim>\<open>Network::SendMessage\<close>, in either of its two forms.\<close>

datatype net_call = Unicast u64 Content | Multicast Membership Content

section \<open>State\<close>

record Acceptor =
  acc_instance_id :: u64
  log_sync_count :: u32
  promised_ballot :: BallotNumber
  accepted_ballot :: BallotNumber
  accepted_value :: PaxosValue

record Counter =
  received_nodes :: "u64 set"
  rejectors :: "u64 set"
  promisors_or_acceptors :: "u64 set"

record Proposer =
  counter :: Counter
  pro_instance_id :: u64
  proposal_id :: u64
  max_proposal_id :: u64
  max_ballot :: BallotNumber
  pro_value :: PaxosValue
  preparing :: bool
  accepting :: bool
  skip_prepare :: bool
  was_rejected_by_someone :: bool
  retry_timer :: TimerId
  pro_rand :: u32

record Learner =
  lrn_instance_id :: u64
  learn_timer :: TimerId
  lrn_rand :: u32
  is_learning :: bool
  has_learned :: bool
  learned_value :: PaxosValue
  is_receiving_checkpoint :: bool

record CheckpointReceiver =
  sender_node_id :: u64
  rcv_sequence_id :: u32
  rcv_dirs :: "u32 list"

record CheckpointSender =
  receiver_node_id :: u64
  snd_sequence_id :: u32
  ack_sequence_id :: u32
  snd_flag :: bool

record ('d, 'w) node = "('d, 'w) logs" +
  acceptor :: Acceptor
  learner :: Learner
  proposer :: Proposer
  instance_id :: u64
  is_proposing :: bool
  context_ptr :: ctx_ptr
  propose_value :: PaxosValue
  propose_timer :: TimerId
  seq_num :: u8
  queue :: "(io_task, complete_cb) ProposeQueue"
  io_loop :: "io_task runloop"
  callback_loop :: "complete_cb cb_call runloop"
  learn_loop :: "learn_task runloop"
  net :: "net_call list"
  receiver :: CheckpointReceiver
  sender :: CheckpointSender
  is_sending_checkpoint :: bool

section \<open>Config\<close>

definition GetNodeSize :: "('w, 'z) mach_scheme \<Rightarrow> nat" where
  "GetNodeSize s = length (ms_members (membership s))"

definition GetMajoritySize :: "('w, 'z) mach_scheme \<Rightarrow> nat" where
  "GetMajoritySize s = length (ms_members (membership s)) div 2 + 1"

definition IsValidNodeId :: "u64 \<Rightarrow> ('w, 'z) mach_scheme \<Rightarrow> bool" where
  "IsValidNodeId n s \<longleftrightarrow> map_of (ms_members (membership s)) n \<noteq> None"

section \<open>Counter\<close>

definition Counter_new :: Counter where
  "Counter_new = \<lparr>received_nodes = {}, rejectors = {}, promisors_or_acceptors = {}\<rparr>"

definition AddReceivedNode :: "u64 \<Rightarrow> Counter \<Rightarrow> Counter" where
  "AddReceivedNode n c = c\<lparr>received_nodes := insert n (received_nodes c)\<rparr>"

definition AddRejector :: "u64 \<Rightarrow> Counter \<Rightarrow> Counter" where
  "AddRejector n c = c\<lparr>rejectors := insert n (rejectors c)\<rparr>"

definition AddPromisorOrAcceptor :: "u64 \<Rightarrow> Counter \<Rightarrow> Counter" where
  "AddPromisorOrAcceptor n c = c\<lparr>promisors_or_acceptors := insert n (promisors_or_acceptors c)\<rparr>"

definition IsPassedOnThisRound :: "('w, 'z) mach_scheme \<Rightarrow> Counter \<Rightarrow> bool" where
  "IsPassedOnThisRound s c \<longleftrightarrow> card (promisors_or_acceptors c) \<ge> GetMajoritySize s"

definition IsRejectedOnThisRound :: "('w, 'z) mach_scheme \<Rightarrow> Counter \<Rightarrow> bool" where
  "IsRejectedOnThisRound s c \<longleftrightarrow> card (rejectors c) \<ge> GetMajoritySize s"

definition IsReceiveAllOnThisRound :: "('w, 'z) mach_scheme \<Rightarrow> Counter \<Rightarrow> bool" where
  "IsReceiveAllOnThisRound s c \<longleftrightarrow> card (received_nodes c) \<ge> GetNodeSize s"

definition StartNewRound :: "Counter \<Rightarrow> Counter" where
  "StartNewRound c = c\<lparr>received_nodes := {}, rejectors := {}, promisors_or_acceptors := {}\<rparr>"

section \<open>Messager\<close>

definition Messager_SendMessage ::
    "('d, 'w) env \<Rightarrow> u64 \<Rightarrow> Content \<Rightarrow> ('d, 'w, 'z) node_scheme \<Rightarrow> ('d, 'w, 'z) node_scheme" where
  "Messager_SendMessage E node_id content s =
     (if node_id = 0 \<or> node_id = cfg_node_id E then abort s
      else s\<lparr>net := net s @ [Unicast node_id content]\<rparr>)"

definition BroadcastMessage :: "Content \<Rightarrow> ('d, 'w, 'z) node_scheme \<Rightarrow> ('d, 'w, 'z) node_scheme" where
  "BroadcastMessage content s =
     (if length (ms_members (membership s)) > 0
      then s\<lparr>net := net s @ [Multicast (membership s) content]\<rparr> else s)"

text \<open>The membership message built from a map of the user's cluster object; a second member
  with an id already there is not inserted, and the context field is not copied.\<close>

definition cluster_members :: "(u64 \<times> Member) list \<Rightarrow> members" where
  "cluster_members ms =
     fold (\<lambda>(k, i) m. if map_of m (id_of i) = None
            then m @ [(id_of i, (member_message i)\<lparr>mb_context := []\<rparr>)] else m) ms []"

definition send_to_cluster ::
    "(u64 \<times> Member) list \<Rightarrow> Content \<Rightarrow> ('d, 'w, 'z) node_scheme \<Rightarrow> ('d, 'w, 'z) node_scheme" where
  "send_to_cluster ms content s =
     (let temp = Membership_default\<lparr>ms_members := cluster_members ms\<rparr>
      in if length (ms_members temp) > 0 then s\<lparr>net := net s @ [Multicast temp content]\<rparr> else s)"

definition BroadcastMessageForLearn ::
    "('d, 'w) env \<Rightarrow> Content \<Rightarrow> ('d, 'w, 'z) node_scheme \<Rightarrow> ('d, 'w, 'z) node_scheme" where
  "BroadcastMessageForLearn E content s =
     (if has_cluster E
      then send_to_cluster (newest_membership E (cfg_group_id E) (world s)) content s
      else BroadcastMessage content s)"

definition Messager_BroadcastMessageToFollower ::
    "('d, 'w) env \<Rightarrow> Content \<Rightarrow> ('d, 'w, 'z) node_scheme \<Rightarrow> ('d, 'w, 'z) node_scheme" where
  "Messager_BroadcastMessageToFollower E content s =
     (if has_cluster E
      then send_to_cluster (followers E (cfg_group_id E) (world s)) content s else s)"

section \<open>Timers of the io loop and the completion callback\<close>

text \<open>\<^verbatim>\<open>io_loop_->RunAfter\<close> and \<^verbatim>\<open>io_loop_->Remove\<close>, always called in the io
  thread.\<close>

definition io_RunAfter ::
    "('d, 'w) env \<Rightarrow> u64 \<Rightarrow> io_task \<Rightarrow> ('d, 'w, 'z) node_scheme \<Rightarrow> TimerId \<times> ('d, 'w, 'z) node_scheme" where
  "io_RunAfter E delay cb s =
     (let (now, w1) = NowMillis E (world s);
          (p, w2) = new_timer E (map fst (timer_heap (timer_list (io_loop s)))) w1;
          (t, l) = RunAfter True p now delay cb (io_loop s)
      in (t, s\<lparr>world := w2, io_loop := l\<rparr>))"

definition io_Remove :: "TimerId \<Rightarrow> ('d, 'w, 'z) node_scheme \<Rightarrow> ('d, 'w, 'z) node_scheme" where
  "io_Remove t s = s\<lparr>io_loop := RunLoop_Remove True t (io_loop s)\<rparr>"

text \<open>\<^verbatim>\<open>propose_cb_\<close> of the instance is bound to \<^verbatim>\<open>ProposeQueue::ProposeComplete\<close>
  by the constructor of \<^verbatim>\<open>Group\<close>.\<close>

definition propose_cb ::
    "u64 \<Rightarrow> Status \<Rightarrow> ctx_ptr \<Rightarrow> ('d, 'w, 'z) node_scheme \<Rightarrow> ('d, 'w, 'z) node_scheme" where
  "propose_cb i st ctx s =
     (case ProposeQueue_ProposeComplete i st ctx (io_loop s) (callback_loop s) (queue s) of
        None \<Rightarrow> abort s
      | Some (io, cbl, q) \<Rightarrow> s\<lparr>io_loop := io, callback_loop := cbl, queue := q\<rparr>)"

lemmas [op_defs] =
  GetNodeSize_def GetMajoritySize_def IsValidNodeId_def Counter_new_def AddReceivedNode_def
  AddRejector_def AddPromisorOrAcceptor_def IsPassedOnThisRound_def IsRejectedOnThisRound_def
  IsReceiveAllOnThisRound_def StartNewRound_def Messager_SendMessage_def BroadcastMessage_def
  cluster_members_def send_to_cluster_def BroadcastMessageForLearn_def
  Messager_BroadcastMessageToFollower_def io_RunAfter_def io_Remove_def propose_cb_def

section \<open>What these operations leave alone\<close>

lemma abort_frame [simp]:
  "acceptor (abort s) = acceptor s"
  "learner (abort s) = learner s"
  "proposer (abort s) = proposer s"
  "instance_id (abort s) = instance_id s"
  "is_proposing (abort s) = is_proposing s"
  "context_ptr (abort s) = context_ptr s"
  "propose_value (abort s) = propose_value s"
  "propose_timer (abort s) = propose_timer s"
  "seq_num (abort s) = seq_num s"
  "queue (abort s) = queue s"
  "io_loop (abort s) = io_loop s"
  "callback_loop (abort s) = callback_loop s"
  "learn_loop (abort s) = learn_loop s"
  "net (abort s) = net s"
  "receiver (abort s) = receiver s"
  "sender (abort s) = sender s"
  "is_sending_checkpoint (abort s) = is_sending_checkpoint s"
  "world (abort s) = world s"
  "machines (abort s) = machines s"
  "membership (abort s) = membership s"
  "master (abort s) = master s"
  "latest_checkpoint_instance_id (abort s) = latest_checkpoint_instance_id s"
  "io_loop_set (abort s) = io_loop_set s"
  "db (abort s) = db s"
  "min_chosen_id (abort s) = min_chosen_id s"
  "max_chosen_id (abort s) = max_chosen_id s"
  by (simp_all add: abort_def)

lemma SendMessage_frame [simp]:
  "acceptor (Messager_SendMessage E n c s) = acceptor s"
  "learner (Messager_SendMessage E n c s) = learner s"
  "proposer (Messager_SendMessage E n c s) = proposer s"
  "instance_id (Messager_SendMessage E n c s) = instance_id s"
  "is_proposing (Messager_SendMessage E n c s) = is_proposing s"
  "context_ptr (Messager_SendMessage E n c s) = context_ptr s"
  "propose_value (Messager_SendMessage E n c s) = propose_value s"
  "propose_timer (Messager_SendMessage E n c s) = propose_timer s"
  "seq_num (Messager_SendMessage E n c s) = seq_num s"
  "queue (Messager_SendMessage E n c s) = queue s"
  "io_loop (Messager_SendMessage E n c s) = io_loop s"
  "callback_loop (Messager_SendMessage E n c s) = callback_loop s"
  "learn_loop (Messager_SendMessage E n c s) = learn_loop s"
  "receiver (Messager_SendMessage E n c s) = receiver s"
  "sender (Messager_SendMessage E n c s) = sender s"
  "is_sending_checkpoint (Messager_SendMessage E n c s) = is_sending_checkpoint s"
  "world (Messager_SendMessage E n c s) = world s"
  "machines (Messager_SendMessage E n c s) = machines s"
  "membership (Messager_SendMessage E n c s) = membership s"
  "master (Messager_SendMessage E n c s) = master s"
  "latest_checkpoint_instance_id (Messager_SendMessage E n c s) = latest_checkpoint_instance_id s"
  "io_loop_set (Messager_SendMessage E n c s) = io_loop_set s"
  "db (Messager_SendMessage E n c s) = db s"
  "min_chosen_id (Messager_SendMessage E n c s) = min_chosen_id s"
  "max_chosen_id (Messager_SendMessage E n c s) = max_chosen_id s"
  by (simp_all add: Messager_SendMessage_def)

lemma BroadcastMessage_frame [simp]:
  "acceptor (BroadcastMessage c s) = acceptor s"
  "learner (BroadcastMessage c s) = learner s"
  "proposer (BroadcastMessage c s) = proposer s"
  "instance_id (BroadcastMessage c s) = instance_id s"
  "is_proposing (BroadcastMessage c s) = is_proposing s"
  "context_ptr (BroadcastMessage c s) = context_ptr s"
  "propose_value (BroadcastMessage c s) = propose_value s"
  "propose_timer (BroadcastMessage c s) = propose_timer s"
  "seq_num (BroadcastMessage c s) = seq_num s"
  "queue (BroadcastMessage c s) = queue s"
  "io_loop (BroadcastMessage c s) = io_loop s"
  "callback_loop (BroadcastMessage c s) = callback_loop s"
  "learn_loop (BroadcastMessage c s) = learn_loop s"
  "receiver (BroadcastMessage c s) = receiver s"
  "sender (BroadcastMessage c s) = sender s"
  "is_sending_checkpoint (BroadcastMessage c s) = is_sending_checkpoint s"
  "world (BroadcastMessage c s) = world s"
  "aborted (BroadcastMessage c s) = aborted s"
  "machines (BroadcastMessage c s) = machines s"
  "membership (BroadcastMessage c s) = membership s"
  "master (BroadcastMessage c s) = master s"
  "latest_checkpoint_instance_id (BroadcastMessage c s) = latest_checkpoint_instance_id s"
  "io_loop_set (BroadcastMessage c s) = io_loop_set s"
  "db (BroadcastMessage c s) = db s"
  "min_chosen_id (BroadcastMessage c s) = min_chosen_id s"
  "max_chosen_id (BroadcastMessage c s) = max_chosen_id s"
  by (simp_all add: BroadcastMessage_def)

lemma send_to_cluster_frame [simp]:
  "acceptor (send_to_cluster ms c s) = acceptor s"
  "learner (send_to_cluster ms c s) = learner s"
  "proposer (send_to_cluster ms c s) = proposer s"
  "instance_id (send_to_cluster ms c s) = instance_id s"
  "is_proposing (send_to_cluster ms c s) = is_proposing s"
  "context_ptr (send_to_cluster ms c s) = context_ptr s"
  "propose_value (send_to_cluster ms c s) = propose_value s"
  "propose_timer (send_to_cluster ms c s) = propose_timer s"
  "seq_num (send_to_cluster ms c s) = seq_num s"
  "queue (send_to_cluster ms c s) = queue s"
  "io_loop (send_to_cluster ms c s) = io_loop s"
  "callback_loop (send_to_cluster ms c s) = callback_loop s"
  "learn_loop (send_to_cluster ms c s) = learn_loop s"
  "receiver (send_to_cluster ms c s) = receiver s"
  "sender (send_to_cluster ms c s) = sender s"
  "is_sending_checkpoint (send_to_cluster ms c s) = is_sending_checkpoint s"
  "world (send_to_cluster ms c s) = world s"
  "aborted (send_to_cluster ms c s) = aborted s"
  "machines (send_to_cluster ms c s) = machines s"
  "membership (send_to_cluster ms c s) = membership s"
  "master (send_to_cluster ms c s) = master s"
  "latest_checkpoint_instance_id (send_to_cluster ms c s) = latest_checkpoint_instance_id s"
  "io_loop_set (send_to_cluster ms c s) = io_loop_set s"
  "db (send_to_cluster ms c s) = db s"
  "min_chosen_id (send_to_cluster ms c s) = min_chosen_id s"
  "max_chosen_id (send_to_cluster ms c s) = max_chosen_id s"
  by (simp_all add: send_to_cluster_def Let_def)

lemma BroadcastMessageForLearn_frame [simp]:
  "acceptor (BroadcastMessageForLearn E c s) = acceptor s"
  "learner (BroadcastMessageForLearn E c s) = learner s"
  "proposer (BroadcastMessageForLearn E c s) = proposer s"
  "instance_id (BroadcastMessageForLearn E c s) = instance_id s"
  "is_proposing (BroadcastMessageForLearn E c s) = is_proposing s"
  "context_ptr (BroadcastMessageForLearn E c s) = context_ptr s"
  "propose_value (BroadcastMessageForLearn E c s) = propose_value s"
  "propose_timer (BroadcastMessageForLearn E c s) = propose_timer s"
  "seq_num (BroadcastMessageForLearn E c s) = seq_num s"
  "queue (BroadcastMessageForLearn E c s) = queue s"
  "io_loop (BroadcastMessageForLearn E c s) = io_loop s"
  "callback_loop (BroadcastMessageForLearn E c s) = callback_loop s"
  "learn_loop (BroadcastMessageForLearn E c s) = learn_loop s"
  "receiver (BroadcastMessageForLearn E c s) = receiver s"
  "sender (BroadcastMessageForLearn E c s) = sender s"
  "is_sending_checkpoint (BroadcastMessageForLearn E c s) = is_sending_checkpoint s"
  "world (BroadcastMessageForLearn E c s) = world s"
  "aborted (BroadcastMessageForLearn E c s) = aborted s"
  "machines (BroadcastMessageForLearn E c s) = machines s"
  "membership (BroadcastMessageForLearn E c s) = membership s"
  "master (BroadcastMessageForLearn E c s) = master s"
  "latest_checkpoint_instance_id (BroadcastMessageForLearn E c s) = latest_checkpoint_instance_id s"
  "io_loop_set (BroadcastMessageForLearn E c s) = io_loop_set s"
  "db (BroadcastMessageForLearn E c s) = db s"
  "min_chosen_id (BroadcastMessageForLearn E c s) = min_chosen_id s"
  "max_chosen_id (BroadcastMessageForLearn E c s) = max_chosen_id s"
  by (simp_all add: BroadcastMessageForLearn_def)

lemma BroadcastMessageToFollower_frame [simp]:
  "acceptor (Messager_BroadcastMessageToFollower E c s) = acceptor s"
  "learner (Messager_BroadcastMessageToFollower E c s) = learner s"
  "proposer (Messager_BroadcastMessageToFollower E c s) = proposer s"
  "instance_id (Messager_BroadcastMessageToFollower E c s) = instance_id s"
  "is_proposing (Messager_BroadcastMessageToFollower E c s) = is_proposing s"
  "context_ptr (Messager_BroadcastMessageToFollower E c s) = context_ptr s"
  "propose_value (Messager_BroadcastMessageToFollower E c s) = propose_value s"
  "propose_timer (Messager_BroadcastMessageToFollower E c s) = propose_timer s"
  "seq_num (Messager_BroadcastMessageToFollower E c s) = seq_num s"
  "queue (Messager_BroadcastMessageToFollower E c s) = queue s"
  "io_loop (Messager_BroadcastMessageToFollower E c s) = io_loop s"
  "callback_loop (Messager_BroadcastMessageToFollower E c s) = callback_loop s"
  "learn_loop (Messager_BroadcastMessageToFollower E c s) = learn_loop s"
  "receiver (Messager_BroadcastMessageToFollower E c s) = receiver s"
  "sender (Messager_BroadcastMessageToFollower E c s) = sender s"
  "is_sending_checkpoint (Messager_BroadcastMessageToFollower E c s) = is_sending_checkpoint s"
  "world (Messager_BroadcastMessageToFollower E c s) = world s"
  "aborted (Messager_BroadcastMessageToFollower E c s) = aborted s"
  "machines (Messager_BroadcastMessageToFollower E c s) = machines s"
  "membership (Messager_BroadcastMessageToFollower E c s) = membership s"
  "master (Messager_BroadcastMessageToFollower E c s) = master s"
  "latest_checkpoint_instance_id (Messager_BroadcastMessageToFollower E c s) = latest_checkpoint_instance_id s"
  "io_loop_set (Messager_BroadcastMessageToFollower E c s) = io_loop_set s"
  "db (Messager_BroadcastMessageToFollower E c s) = db s"
  "min_chosen_id (Messager_BroadcastMessageToFollower E c s) = min_chosen_id s"
  "max_chosen_id (Messager_BroadcastMessageToFollower E c s) = max_chosen_id s"
  by (simp_all add: Messager_BroadcastMessageToFollower_def)

lemma io_RunAfter_frame [simp]:
  "acceptor (snd (io_RunAfter E d cb s)) = acceptor s"
  "learner (snd (io_RunAfter E d cb s)) = learner s"
  "proposer (snd (io_RunAfter E d cb s)) = proposer s"
  "instance_id (snd (io_RunAfter E d cb s)) = instance_id s"
  "is_proposing (snd (io_RunAfter E d cb s)) = is_proposing s"
  "context_ptr (snd (io_RunAfter E d cb s)) = context_ptr s"
  "propose_value (snd (io_RunAfter E d cb s)) = propose_value s"
  "propose_timer (snd (io_RunAfter E d cb s)) = propose_timer s"
  "seq_num (snd (io_RunAfter E d cb s)) = seq_num s"
  "queue (snd (io_RunAfter E d cb s)) = queue s"
  "callback_loop (snd (io_RunAfter E d cb s)) = callback_loop s"
  "learn_loop (snd (io_RunAfter E d cb s)) = learn_loop s"
  "net (snd (io_RunAfter E d cb s)) = net s"
  "receiver (snd (io_RunAfter E d cb s)) = receiver s"
  "sender (snd (io_RunAfter E d cb s)) = sender s"
  "is_sending_checkpoint (snd (io_RunAfter E d cb s)) = is_sending_checkpoint s"
  "aborted (snd (io_RunAfter E d cb s)) = aborted s"
  "machines (snd (io_RunAfter E d cb s)) = machines s"
  "membership (snd (io_RunAfter E d cb s)) = membership s"
  "master (snd (io_RunAfter E d cb s)) = master s"
  "latest_checkpoint_instance_id (snd (io_RunAfter E d cb s)) = latest_checkpoint_instance_id s"
  "io_loop_set (snd (io_RunAfter E d cb s)) = io_loop_set s"
  "db (snd (io_RunAfter E d cb s)) = db s"
  "min_chosen_id (snd (io_RunAfter E d cb s)) = min_chosen_id s"
  "max_chosen_id (snd (io_RunAfter E d cb s)) = max_chosen_id s"
  by (simp_all add: io_RunAfter_def case_prod_beta Let_def)

lemma io_Remove_frame [simp]:
  "acceptor (io_Remove t s) = acceptor s"
  "learner (io_Remove t s) = learner s"
  "proposer (io_Remove t s) = proposer s"
  "instance_id (io_Remove t s) = instance_id s"
  "is_proposing (io_Remove t s) = is_proposing s"
  "context_ptr (io_Remove t s) = context_ptr s"
  "propose_value (io_Remove t s) = propose_value s"
  "propose_timer (io_Remove t s) = propose_timer s"
  "seq_num (io_Remove t s) = seq_num s"
  "queue (io_Remove t s) = queue s"
  "callback_loop (io_Remove t s) = callback_loop s"
  "learn_loop (io_Remove t s) = learn_loop s"
  "net (io_Remove t s) = net s"
  "receiver (io_Remove t s) = receiver s"
  "sender (io_Remove t s) = sender s"
  "is_sending_checkpoint (io_Remove t s) = is_sending_checkpoint s"
  "world (io_Remove t s) = world s"
  "aborted (io_Remove t s) = aborted s"
  "machines (io_Remove t s) = machines s"
  "membership (io_Remove t s) = membership s"
  "master (io_Remove t s) = master s"
  "latest_checkpoint_instance_id (io_Remove t s) = latest_checkpoint_instance_id s"
  "io_loop_set (io_Remove t s) = io_loop_set s"
  "db (io_Remove t s) = db s"
  "min_chosen_id (io_Remove t s) = min_chosen_id s"
  "max_chosen_id (io_Remove t s) = max_chosen_id s"
  by (simp_all add: io_Remove_def)

lemma propose_cb_frame [simp]:
  "acceptor (propose_cb i st c s) = acceptor s"
  "learner (propose_cb i st c s) = learner s"
  "proposer (propose_cb i st c s) = proposer s"
  "instance_id (propose_cb i st c s) = instance_id s"
  "is_proposing (propose_cb i st c s) = is_proposing s"
  "context_ptr (propose_cb i st c s) = context_ptr s"
  "propose_value (propose_cb i st c s) = propose_value s"
  "propose_timer (propose_cb i st c s) = propose_timer s"
  "seq_num (propose_cb i st c s) = seq_num s"
  "learn_loop (propose_cb i st c s) = learn_loop s"
  "net (propose_cb i st c s) = net s"
  "receiver (propose_cb i st c s) = receiver s"
  "sender (propose_cb i st c s) = sender s"
  "is_sending_checkpoint (propose_cb i st c s) = is_sending_checkpoint s"
  "world (propose_cb i st c s) = world s"
  "machines (propose_cb i st c s) = machines s"
  "membership (propose_cb i st c s) = membership s"
  "master (propose_cb i st c s) = master s"
  "latest_checkpoint_instance_id (propose_cb i st c s) = latest_checkpoint_instance_id s"
  "io_loop_set (propose_cb i st c s) = io_loop_set s"
  "db (propose_cb i st c s) = db s"
  "min_chosen_id (propose_cb i st c s) = min_chosen_id s"
  "max_chosen_id (propose_cb i st c s) = max_chosen_id s"
  by (auto simp: propose_cb_def split: option.splits)

text \<open>A step of the machine manager inside the node's state.\<close>

lemma mach_step_node:
  assumes "mach_step s s'"
  shows
    "acceptor s' = acceptor s" "learner s' = learner s" "proposer s' = proposer s"
    "instance_id s' = instance_id s" "is_proposing s' = is_proposing s" "context_ptr s' = context_ptr s"
    "propose_value s' = propose_value s" "propose_timer s' = propose_timer s" "seq_num s' = seq_num s"
    "queue s' = queue s" "io_loop s' = io_loop s" "callback_loop s' = callback_loop s"
    "learn_loop s' = learn_loop s" "net s' = net s" "receiver s' = receiver s"
    "sender s' = sender s" "is_sending_checkpoint s' = is_sending_checkpoint s" "node.more s' = node.more s"
  using mach_step_logs(5) [OF assms] by (cases s; cases s'; simp)+

end
