(* ===== verification/Acceptors.thy ===== *)
theory Acceptors
  imports Node
begin

text \<open>
  \<^verbatim>\<open>Acceptor\<close>, \<^verbatim>\<open>src/paxos/acceptor.cc\<close>. The role calls back into the
  instance it belongs to (\<^verbatim>\<open>instance_->OnPaxosMessage\<close>) when the reply is for its own
  node: that call is the parameter \<open>rec\<close> of its two handlers, which the theory
  \<open>Instances\<close> ties to the instance.
\<close>

section \<open>Operations\<close>

definition Acceptor_new :: Acceptor where
  "Acceptor_new =
     \<lparr>acc_instance_id = 0, log_sync_count = 0, promised_ballot = Ballot_default,
      accepted_ballot = Ballot_default, accepted_value = PaxosValue_default\<rparr>"

text \<open>The record \<^verbatim>\<open>WriteToDB\<close> fills.\<close>

definition acceptor_instance :: "Acceptor \<Rightarrow> PaxosInstance" where
  "acceptor_instance a =
     \<lparr>pi_instance_id = acc_instance_id a,
      pi_promised_id = GetProposalId (promised_ballot a),
      pi_promised_node_id = GetNodeId (promised_ballot a),
      pi_accepted_id = GetProposalId (accepted_ballot a),
      pi_accepted_node_id = GetNodeId (accepted_ballot a),
      pi_accepted_value = accepted_value a\<rparr>"

definition Acceptor_WriteToDB ::
    "('d, 'w) env \<Rightarrow> ('d, 'w, 'z) node_scheme \<Rightarrow> bool \<times> ('d, 'w, 'z) node_scheme" where
  "Acceptor_WriteToDB E s =
     (let a = acceptor s;
          (sync, count) =
            (if cfg_log_sync E then
               (let c = log_sync_count a + 1
                in if c > cfg_sync_interval E then (True, 0) else (False, c))
             else (False, log_sync_count a));
          (ret, d) = DB_Put E sync (acc_instance_id a) (ser_instance E (acceptor_instance a)) (db s)
      in (ret = 0, s\<lparr>acceptor := a\<lparr>log_sync_count := count\<rparr>, db := d\<rparr>))"

text \<open>\<^verbatim>\<open>GetMaxInstanceId\<close> writes the id straight into \<^verbatim>\<open>instance_id_\<close>.\<close>

definition Acceptor_ReadFromDB ::
    "('d, 'w) env \<Rightarrow> ('d, 'w, 'z) node_scheme \<Rightarrow> bool \<times> ('d, 'w, 'z) node_scheme" where
  "Acceptor_ReadFromDB E s =
     (let (res, found) = DB_GetMaxInstanceId E (db s);
          a = acceptor s;
          i = (case found of None \<Rightarrow> acc_instance_id a | Some i \<Rightarrow> i);
          a1 = a\<lparr>acc_instance_id := i\<rparr>;
          s1 = s\<lparr>acceptor := a1\<rparr>
      in if res = 1 then (True, s1)
         else if res = -1 then (False, s1)
         else
           (case DB_Get E i (db s) of
              (res2, str) \<Rightarrow>
                (if res2 \<noteq> 0 then (False, s1)
                 else
                   (let temp = snd (parse_instance E str)
                    in (True, s1\<lparr>acceptor := a1\<lparr>
                         promised_ballot := BallotNumber (pi_promised_id temp) (pi_promised_node_id temp),
                         accepted_ballot := BallotNumber (pi_accepted_id temp) (pi_accepted_node_id temp),
                         accepted_value := pi_accepted_value temp\<rparr>\<rparr>)))))"

text \<open>\<^verbatim>\<open>Recover(&instance_id)\<close>: the result, the caller's variable, the state.\<close>

definition Acceptor_Recover ::
    "('d, 'w) env \<Rightarrow> u64 \<Rightarrow> ('d, 'w, 'z) node_scheme \<Rightarrow> (bool \<times> u64) \<times> ('d, 'w, 'z) node_scheme" where
  "Acceptor_Recover E i s =
     (case Acceptor_ReadFromDB E s of
        (ok, s1) \<Rightarrow> ((ok, if ok then acc_instance_id (acceptor s1) else i), s1))"

definition Acceptor_NewChosenValue ::
    "(PaxosMessage \<Rightarrow> ('d, 'w, 'z) node_scheme \<Rightarrow> ('d, 'w, 'z) node_scheme) \<Rightarrow> PaxosMessage \<Rightarrow>
      ('d, 'w, 'z) node_scheme \<Rightarrow> ('d, 'w, 'z) node_scheme" where
  "Acceptor_NewChosenValue rec msg s =
     rec (PaxosMessage_default\<lparr>pm_type := NEW_CHOSEN_VALUE, pm_node_id := pm_node_id msg,
            pm_instance_id := acc_instance_id (acceptor s),
            pm_proposal_id := pm_proposal_id msg\<rparr>) s"

text \<open>Where a reply goes: to the instance itself or over the network.\<close>

definition reply_to ::
    "('d, 'w) env \<Rightarrow> (PaxosMessage \<Rightarrow> ('d, 'w, 'z) node_scheme \<Rightarrow> ('d, 'w, 'z) node_scheme) \<Rightarrow>
      u64 \<Rightarrow> PaxosMessage \<Rightarrow> ('d, 'w, 'z) node_scheme \<Rightarrow> ('d, 'w, 'z) node_scheme" where
  "reply_to E rec node_id reply_msg s =
     (if node_id = cfg_node_id E then rec reply_msg s
      else Messager_SendMessage E node_id (Content_paxos (cfg_group_id E) reply_msg) s)"

definition Acceptor_OnPrepare ::
    "('d, 'w) env \<Rightarrow> (PaxosMessage \<Rightarrow> ('d, 'w, 'z) node_scheme \<Rightarrow> ('d, 'w, 'z) node_scheme) \<Rightarrow>
      PaxosMessage \<Rightarrow> ('d, 'w, 'z) node_scheme \<Rightarrow> ('d, 'w, 'z) node_scheme" where
  "Acceptor_OnPrepare E rec msg s =
     (let a = acceptor s
      in if pm_instance_id msg = acc_instance_id a then
           (let reply_msg = PaxosMessage_default\<lparr>pm_type := PREPARE_REPLY,
                  pm_node_id := cfg_node_id E, pm_instance_id := pm_instance_id msg,
                  pm_proposal_id := pm_proposal_id msg\<rparr>;
                b = BallotNumber (pm_proposal_id msg) (pm_node_id msg)
            in if ballot_ge b (promised_ballot a) then
                 (let reply1 =
                        (if GetProposalId (accepted_ballot a) > 0
                         then reply_msg\<lparr>pm_pre_accepted_id := GetProposalId (accepted_ballot a),
                                pm_pre_accepted_node_id := GetNodeId (accepted_ballot a),
                                pm_value := accepted_value a\<rparr>
                         else reply_msg);
                      s1 = snd (Acceptor_WriteToDB E (s\<lparr>acceptor := a\<lparr>promised_ballot := b\<rparr>\<rparr>))
                  in reply_to E rec (pm_node_id msg) reply1 s1)
               else
                 reply_to E rec (pm_node_id msg)
                   (reply_msg\<lparr>pm_rejected_id := GetProposalId (promised_ballot a)\<rparr>) s)
         else if pm_instance_id msg = acc_instance_id a + 1 then Acceptor_NewChosenValue rec msg s
         else s)"

definition Acceptor_OnAccpet ::
    "('d, 'w) env \<Rightarrow> (PaxosMessage \<Rightarrow> ('d, 'w, 'z) node_scheme \<Rightarrow> ('d, 'w, 'z) node_scheme) \<Rightarrow>
      PaxosMessage \<Rightarrow> ('d, 'w, 'z) node_scheme \<Rightarrow> ('d, 'w, 'z) node_scheme" where
  "Acceptor_OnAccpet E rec msg s =
     (let a = acceptor s
      in if pm_instance_id msg = acc_instance_id a then
           (let reply_msg = PaxosMessage_default\<lparr>pm_type := ACCEPT_REPLY,
                  pm_node_id := cfg_node_id E, pm_instance_id := pm_instance_id msg,
                  pm_proposal_id := pm_proposal_id msg\<rparr>;
                b = BallotNumber (pm_proposal_id msg) (pm_node_id msg)
            in if ballot_ge b (promised_ballot a) then
                 (let s1 = snd (Acceptor_WriteToDB E (s\<lparr>acceptor := a\<lparr>promised_ballot := b,
                        accepted_ballot := b, accepted_value := pm_value msg\<rparr>\<rparr>))
                  in reply_to E rec (pm_node_id msg) reply_msg s1)
               else
                 reply_to E rec (pm_node_id msg)
                   (reply_msg\<lparr>pm_rejected_id := GetProposalId (promised_ballot a)\<rparr>) s)
         else if pm_instance_id msg = acc_instance_id a + 1 then Acceptor_NewChosenValue rec msg s
         else s)"

definition Acceptor_SetInstanceId :: "u64 \<Rightarrow> Acceptor \<Rightarrow> Acceptor" where
  "Acceptor_SetInstanceId i a =
     (if acc_instance_id a \<noteq> i
      then a\<lparr>acc_instance_id := i, accepted_ballot := Ballot_default,
             accepted_value := PaxosValue_default\<rparr>
      else a)"

definition Acceptor_NextInstance :: "Acceptor \<Rightarrow> Acceptor" where
  "Acceptor_NextInstance a = Acceptor_SetInstanceId (acc_instance_id a + 1) a"

lemmas [op_defs] = Acceptor_new_def acceptor_instance_def Acceptor_WriteToDB_def
  Acceptor_ReadFromDB_def Acceptor_Recover_def Acceptor_NewChosenValue_def reply_to_def
  Acceptor_OnPrepare_def Acceptor_OnAccpet_def Acceptor_SetInstanceId_def
  Acceptor_NextInstance_def

section \<open>Which messages the handlers pass on\<close>

lemma Acceptor_OnPrepare_cong [fundef_cong]:
  assumes "E = E'" "msg = msg'" "s = s'"
    and "\<And>m t. pm_type m = PREPARE_REPLY \<or> pm_type m = NEW_CHOSEN_VALUE \<Longrightarrow> rec m t = rec' m t"
  shows "Acceptor_OnPrepare E rec msg s = Acceptor_OnPrepare E' rec' msg' s'"
  using assms by (auto simp: Acceptor_OnPrepare_def reply_to_def Acceptor_NewChosenValue_def Let_def)

lemma Acceptor_OnAccpet_cong [fundef_cong]:
  assumes "E = E'" "msg = msg'" "s = s'"
    and "\<And>m t. pm_type m = ACCEPT_REPLY \<or> pm_type m = NEW_CHOSEN_VALUE \<Longrightarrow> rec m t = rec' m t"
  shows "Acceptor_OnAccpet E rec msg s = Acceptor_OnAccpet E' rec' msg' s'"
  using assms by (auto simp: Acceptor_OnAccpet_def reply_to_def Acceptor_NewChosenValue_def Let_def)

end
