(* ===== verification/Proposers.thy ===== *)
theory Proposers
  imports Acceptors
begin

text \<open>
  \<^verbatim>\<open>Proposer\<close>, \<^verbatim>\<open>src/paxos/proposer.cc\<close>. As for the acceptor, \<open>rec\<close> is
  \<^verbatim>\<open>instance_->OnPaxosMessage\<close>, by which the proposer delivers its own messages to its
  own node before it returns.
\<close>

section \<open>Operations\<close>

definition Proposer_new :: "u32 \<Rightarrow> Proposer" where
  "Proposer_new seed =
     \<lparr>counter = Counter_new, pro_instance_id = 1, proposal_id = 0, max_proposal_id = 0,
      max_ballot = Ballot_default, pro_value = PaxosValue_default, preparing = False,
      accepting = False, skip_prepare = False, was_rejected_by_someone = False,
      retry_timer = (0, 0), pro_rand = Random_new seed\<rparr>"

definition AddRetryTimer ::
    "('d, 'w) env \<Rightarrow> u64 \<Rightarrow> ('d, 'w, 'z) node_scheme \<Rightarrow> ('d, 'w, 'z) node_scheme" where
  "AddRetryTimer E timeout s =
     (let (t, s1) = io_RunAfter E timeout (RetryTimer (pro_instance_id (proposer s))) s
      in s1\<lparr>proposer := (proposer s1)\<lparr>retry_timer := t\<rparr>\<rparr>)"

definition RemoveRetryTimer :: "('d, 'w, 'z) node_scheme \<Rightarrow> ('d, 'w, 'z) node_scheme" where
  "RemoveRetryTimer s = io_Remove (retry_timer (proposer s)) s"

text \<open>\<^verbatim>\<open>AddRetryTimer(rand_.Uniform(15) + 15)\<close>.\<close>

definition AddShortRetryTimer ::
    "('d, 'w) env \<Rightarrow> ('d, 'w, 'z) node_scheme \<Rightarrow> ('d, 'w, 'z) node_scheme" where
  "AddShortRetryTimer E s =
     (let (r, seed) = Random_Uniform 15 (pro_rand (proposer s))
      in AddRetryTimer E (ucast (r + 15)) (s\<lparr>proposer := (proposer s)\<lparr>pro_rand := seed\<rparr>\<rparr>))"

definition Proposer_SetMaxProposalId :: "PaxosMessage \<Rightarrow> Proposer \<Rightarrow> Proposer" where
  "Proposer_SetMaxProposalId msg p =
     (let p1 = (if pm_rejected_id msg \<ge> proposal_id p then p\<lparr>was_rejected_by_someone := True\<rparr> else p)
      in if max_proposal_id p1 < pm_rejected_id msg
         then p1\<lparr>max_proposal_id := pm_rejected_id msg\<rparr> else p1)"

text \<open>The part of \<^verbatim>\<open>Prepare\<close> before the message is built.\<close>

definition start_prepare :: "bool \<Rightarrow> Proposer \<Rightarrow> Proposer" where
  "start_prepare need_new_proposal_id p =
     (let p1 = p\<lparr>preparing := True, accepting := False, skip_prepare := False,
                 was_rejected_by_someone := False, max_ballot := Ballot_default\<rparr>
      in if need_new_proposal_id
         then p1\<lparr>proposal_id := (if proposal_id p1 < max_proposal_id p1 then max_proposal_id p1
                                 else proposal_id p1) + 1\<rparr>
         else p1)"

definition Prepare ::
    "('d, 'w) env \<Rightarrow> (PaxosMessage \<Rightarrow> ('d, 'w, 'z) node_scheme \<Rightarrow> ('d, 'w, 'z) node_scheme) \<Rightarrow>
      bool \<Rightarrow> ('d, 'w, 'z) node_scheme \<Rightarrow> ('d, 'w, 'z) node_scheme" where
  "Prepare E rec need_new_proposal_id s =
     (let p = start_prepare need_new_proposal_id (proposer s);
          msg = PaxosMessage_default\<lparr>pm_type := PREPARE, pm_node_id := cfg_node_id E,
                  pm_instance_id := pro_instance_id p, pm_proposal_id := proposal_id p\<rparr>;
          s1 = AddRetryTimer E 200000 (s\<lparr>proposer := p\<lparr>counter := StartNewRound (counter p)\<rparr>\<rparr>);
          s2 = BroadcastMessage (Content_paxos (cfg_group_id E) msg) s1
      in rec msg s2)"

definition Accept ::
    "('d, 'w) env \<Rightarrow> (PaxosMessage \<Rightarrow> ('d, 'w, 'z) node_scheme \<Rightarrow> ('d, 'w, 'z) node_scheme) \<Rightarrow>
      ('d, 'w, 'z) node_scheme \<Rightarrow> ('d, 'w, 'z) node_scheme" where
  "Accept E rec s =
     (let p = (proposer s)\<lparr>preparing := False, accepting := True\<rparr>;
          msg = PaxosMessage_default\<lparr>pm_type := ACCEPT, pm_node_id := cfg_node_id E,
                  pm_instance_id := pro_instance_id p, pm_proposal_id := proposal_id p,
                  pm_value := pro_value p\<rparr>;
          s1 = AddRetryTimer E 200000 (s\<lparr>proposer := p\<lparr>counter := StartNewRound (counter p)\<rparr>\<rparr>);
          s2 = BroadcastMessage (Content_paxos (cfg_group_id E) msg) s1
      in rec msg s2)"

definition NewPropose ::
    "('d, 'w) env \<Rightarrow> (PaxosMessage \<Rightarrow> ('d, 'w, 'z) node_scheme \<Rightarrow> ('d, 'w, 'z) node_scheme) \<Rightarrow>
      PaxosValue \<Rightarrow> ('d, 'w, 'z) node_scheme \<Rightarrow> ('d, 'w, 'z) node_scheme" where
  "NewPropose E rec value s =
     (let s1 = s\<lparr>proposer := (proposer s)\<lparr>pro_value := value\<rparr>\<rparr>
      in if skip_prepare (proposer s1) \<and> \<not> was_rejected_by_someone (proposer s1)
         then Accept E rec s1
         else Prepare E rec (was_rejected_by_someone (proposer s1)) s1)"

text \<open>The bookkeeping of the two reply handlers. A prepare reply without a rejection may
  bring the value of a higher ballot.\<close>

definition count_prepare_reply :: "PaxosMessage \<Rightarrow> Proposer \<Rightarrow> Proposer" where
  "count_prepare_reply msg p =
     (let c1 = AddReceivedNode (pm_node_id msg) (counter p)
      in if pm_rejected_id msg = 0 then
           (let p1 = p\<lparr>counter := AddPromisorOrAcceptor (pm_node_id msg) c1\<rparr>;
                b = BallotNumber (pm_pre_accepted_id msg) (pm_pre_accepted_node_id msg)
            in if ballot_gt b (max_ballot p1)
               then p1\<lparr>max_ballot := b, pro_value := pm_value msg\<rparr> else p1)
         else p\<lparr>counter := AddRejector (pm_node_id msg) c1\<rparr>)"

definition count_accept_reply :: "PaxosMessage \<Rightarrow> Proposer \<Rightarrow> Proposer" where
  "count_accept_reply msg p =
     (let c1 = AddReceivedNode (pm_node_id msg) (counter p)
      in p\<lparr>counter := if pm_rejected_id msg = 0 then AddPromisorOrAcceptor (pm_node_id msg) c1
                      else AddRejector (pm_node_id msg) c1\<rparr>)"

definition Proposer_NewChosenValue ::
    "('d, 'w) env \<Rightarrow> (PaxosMessage \<Rightarrow> ('d, 'w, 'z) node_scheme \<Rightarrow> ('d, 'w, 'z) node_scheme) \<Rightarrow>
      ('d, 'w, 'z) node_scheme \<Rightarrow> ('d, 'w, 'z) node_scheme" where
  "Proposer_NewChosenValue E rec s =
     (let msg = PaxosMessage_default\<lparr>pm_type := NEW_CHOSEN_VALUE, pm_node_id := cfg_node_id E,
            pm_instance_id := pro_instance_id (proposer s),
            pm_proposal_id := proposal_id (proposer s)\<rparr>
      in rec msg (BroadcastMessage (Content_paxos (cfg_group_id E) msg) s))"

definition OnPrepareReply ::
    "('d, 'w) env \<Rightarrow> (PaxosMessage \<Rightarrow> ('d, 'w, 'z) node_scheme \<Rightarrow> ('d, 'w, 'z) node_scheme) \<Rightarrow>
      PaxosMessage \<Rightarrow> ('d, 'w, 'z) node_scheme \<Rightarrow> ('d, 'w, 'z) node_scheme" where
  "OnPrepareReply E rec msg s =
     (let s1 =
        (if preparing (proposer s) \<and> pm_instance_id msg = pro_instance_id (proposer s) then
           (let p = count_prepare_reply msg (proposer s)
            in if IsPassedOnThisRound s (counter p) then
                 Accept E rec (RemoveRetryTimer
                   (s\<lparr>proposer := p\<lparr>preparing := False, skip_prepare := True\<rparr>\<rparr>))
               else if IsRejectedOnThisRound s (counter p) \<or> IsReceiveAllOnThisRound s (counter p)
               then AddShortRetryTimer E (RemoveRetryTimer (s\<lparr>proposer := p\<lparr>preparing := False\<rparr>\<rparr>))
               else s\<lparr>proposer := p\<rparr>)
         else s)
      in s1\<lparr>proposer := Proposer_SetMaxProposalId msg (proposer s1)\<rparr>)"

definition OnAccpetReply ::
    "('d, 'w) env \<Rightarrow> (PaxosMessage \<Rightarrow> ('d, 'w, 'z) node_scheme \<Rightarrow> ('d, 'w, 'z) node_scheme) \<Rightarrow>
      PaxosMessage \<Rightarrow> ('d, 'w, 'z) node_scheme \<Rightarrow> ('d, 'w, 'z) node_scheme" where
  "OnAccpetReply E rec msg s =
     (let s1 =
        (if accepting (proposer s) \<and> pm_instance_id msg = pro_instance_id (proposer s) then
           (let p = count_accept_reply msg (proposer s)
            in if IsPassedOnThisRound s (counter p) then
                 Proposer_NewChosenValue E rec
                   (RemoveRetryTimer (s\<lparr>proposer := p\<lparr>accepting := False\<rparr>\<rparr>))
               else if IsRejectedOnThisRound s (counter p) \<or> IsReceiveAllOnThisRound s (counter p)
               then AddShortRetryTimer E (RemoveRetryTimer (s\<lparr>proposer := p\<lparr>accepting := False\<rparr>\<rparr>))
               else s\<lparr>proposer := p\<rparr>)
         else s)
      in s1\<lparr>proposer := Proposer_SetMaxProposalId msg (proposer s1)\<rparr>)"

definition QuitPropose :: "('d, 'w, 'z) node_scheme \<Rightarrow> ('d, 'w, 'z) node_scheme" where
  "QuitPropose s =
     RemoveRetryTimer (s\<lparr>proposer := (proposer s)\<lparr>preparing := False, accepting := False\<rparr>\<rparr>)"

definition Proposer_NextInstance :: "Proposer \<Rightarrow> Proposer" where
  "Proposer_NextInstance p = p\<lparr>pro_instance_id := pro_instance_id p + 1\<rparr>"

text \<open>The closure of the retry timer.\<close>

definition run_RetryTimer ::
    "('d, 'w) env \<Rightarrow> (PaxosMessage \<Rightarrow> ('d, 'w, 'z) node_scheme \<Rightarrow> ('d, 'w, 'z) node_scheme) \<Rightarrow>
      u64 \<Rightarrow> ('d, 'w, 'z) node_scheme \<Rightarrow> ('d, 'w, 'z) node_scheme" where
  "run_RetryTimer E rec i s =
     (if i = pro_instance_id (proposer s)
      then Prepare E rec (was_rejected_by_someone (proposer s)) s else s)"

lemmas [op_defs] = Proposer_new_def AddRetryTimer_def RemoveRetryTimer_def AddShortRetryTimer_def
  Proposer_SetMaxProposalId_def start_prepare_def Prepare_def Accept_def NewPropose_def
  count_prepare_reply_def count_accept_reply_def Proposer_NewChosenValue_def OnPrepareReply_def
  OnAccpetReply_def QuitPropose_def Proposer_NextInstance_def run_RetryTimer_def

section \<open>Which messages the handlers pass on\<close>

lemma OnPrepareReply_cong [fundef_cong]:
  assumes "E = E'" "msg = msg'" "s = s'"
    and "\<And>m t. pm_type m = ACCEPT \<Longrightarrow> rec m t = rec' m t"
  shows "OnPrepareReply E rec msg s = OnPrepareReply E' rec' msg' s'"
  using assms by (simp add: OnPrepareReply_def Accept_def Let_def)

lemma OnAccpetReply_cong [fundef_cong]:
  assumes "E = E'" "msg = msg'" "s = s'"
    and "\<And>m t. pm_type m = NEW_CHOSEN_VALUE \<Longrightarrow> rec m t = rec' m t"
  shows "OnAccpetReply E rec msg s = OnAccpetReply E' rec' msg' s'"
  using assms by (simp add: OnAccpetReply_def Proposer_NewChosenValue_def Let_def)

end
