(* ===== verification/Receiving.thy ===== *)
theory Receiving
  imports Node
begin

text \<open>
  Receiving a checkpoint: \<^verbatim>\<open>src/log/checkpoint_receiver.cc\<close>, with the dispatch of
  \<^verbatim>\<open>src/log/checkpoint_manager.cc\<close> and the handler of the sender that runs in the io
  thread (\<^verbatim>\<open>OnComfirmReceive\<close> of \<^verbatim>\<open>src/log/checkpoint_sender.cc\<close>). The
  receiver ends the process with \<^verbatim>\<open>_exit\<close> once a checkpoint has been installed; as
  everywhere, the flag \<open>aborted\<close> says that the process has stopped.
\<close>

section \<open>CheckpointReceiver\<close>

definition CheckpointReceiver_Reset :: "CheckpointReceiver" where
  "CheckpointReceiver_Reset = \<lparr>sender_node_id = 0, rcv_sequence_id = 0, rcv_dirs = []\<rparr>"

definition ComfirmReceive ::
    "('d, 'w) env \<Rightarrow> CheckpointMessage \<Rightarrow> bool \<Rightarrow> ('d, 'w, 'z) node_scheme \<Rightarrow> bool \<times> ('d, 'w, 'z) node_scheme" where
  "ComfirmReceive E msg res s =
     (let reply_msg = CheckpointMessage_default\<lparr>cm_type := CHECKPOINT_COMFIRM,
            cm_node_id := cfg_node_id E, cm_sequence_id := cm_sequence_id msg, cm_flag := res\<rparr>;
          s1 = Messager_SendMessage E (cm_node_id msg) (Content_checkpoint (cfg_group_id E) reply_msg) s
      in if \<not> res \<and> cm_node_id msg = sender_node_id (receiver s1)
         then (False, s1\<lparr>receiver := CheckpointReceiver_Reset\<rparr>)
         else (True, s1))"

definition BeginToReceive ::
    "('d, 'w) env \<Rightarrow> CheckpointMessage \<Rightarrow> ('d, 'w, 'z) node_scheme \<Rightarrow> bool \<times> ('d, 'w, 'z) node_scheme" where
  "BeginToReceive E msg s =
     (let s1 = s\<lparr>receiver := \<lparr>sender_node_id = cm_node_id msg, rcv_sequence_id = 0, rcv_dirs = []\<rparr>\<rparr>;
          (res, s2) = in_world (DeleteTempCheckpoint E) s1
      in ComfirmReceive E msg res s2)"

text \<open>Appending the data of a message to its file; \<^verbatim>\<open>delete file\<close> closes it.\<close>

definition append_fragment ::
    "('d, 'w) env \<Rightarrow> string \<Rightarrow> bytes \<Rightarrow> 'w \<Rightarrow> Status \<times> 'w" where
  "append_fragment E fname data w =
     (case NewAppendableFile E fname w of
        ((st, None), w1) \<Rightarrow> (st, w1)
      | ((st, Some f), w1) \<Rightarrow>
         (case WritableFile_Append E fname f data w1 of
            (st2, w2) \<Rightarrow> (st2, snd (sys_fclose E f w2))))"

definition ReceiveFiles ::
    "('d, 'w) env \<Rightarrow> CheckpointMessage \<Rightarrow> ('d, 'w, 'z) node_scheme \<Rightarrow> bool \<times> ('d, 'w, 'z) node_scheme" where
  "ReceiveFiles E msg s =
     (let r = receiver s
      in if cm_node_id msg \<noteq> sender_node_id r then (False, s)
         else if cm_sequence_id msg = rcv_sequence_id r then (True, s)
         else if cm_sequence_id msg \<noteq> rcv_sequence_id r + 1 then (False, s)
         else
           (let dir = GetTempCheckpointPath_machine E (cm_instance_id msg) (cm_machine_id msg);
                known = cm_machine_id msg \<in> set (rcv_dirs r);
                s1 = (if known then s else snd (in_world (CreateDir E dir) s))
            in if \<not> known \<and> \<not> FileExists E dir (world s1) then (False, s1)
               else
                 (let s2 = s1\<lparr>receiver := r\<lparr>rcv_dirs := List.insert (cm_machine_id msg) (rcv_dirs r)\<rparr>\<rparr>;
                      (st, s3) = in_world (append_fragment E (dir @ ''/'' @ cm_file msg) (cm_data msg)) s2
                  in if Status_ok st
                     then (True, s3\<lparr>receiver := (receiver s3)\<lparr>rcv_sequence_id := rcv_sequence_id r + 1\<rparr>\<rparr>)
                     else (False, s3))))"

definition Receiver_ReceiveCheckpoint ::
    "('d, 'w) env \<Rightarrow> CheckpointMessage \<Rightarrow> ('d, 'w, 'z) node_scheme \<Rightarrow> bool \<times> ('d, 'w, 'z) node_scheme" where
  "Receiver_ReceiveCheckpoint E msg s =
     (case ReceiveFiles E msg s of (res, s1) \<Rightarrow> ComfirmReceive E msg res s1)"

definition EndToReceive ::
    "('d, 'w) env \<Rightarrow> CheckpointMessage \<Rightarrow> ('d, 'w, 'z) node_scheme \<Rightarrow> bool \<times> ('d, 'w, 'z) node_scheme" where
  "EndToReceive E msg s =
     (if cm_node_id msg \<noteq> sender_node_id (receiver s) then (True, s)
      else if cm_sequence_id msg \<noteq> rcv_sequence_id (receiver s) + 1 then (False, s)
      else (case UpdateCheckpoint E (cm_instance_id msg) s of
         (updated, s1) \<Rightarrow> (False, if updated then abort s1 else s1)))"

section \<open>The confirmations, and the dispatch\<close>

definition OnComfirmReceive :: "CheckpointMessage \<Rightarrow> CheckpointSender \<Rightarrow> CheckpointSender" where
  "OnComfirmReceive msg c =
     (if cm_node_id msg = receiver_node_id c \<and> cm_sequence_id msg = ack_sequence_id c
      then c\<lparr>ack_sequence_id := ack_sequence_id c + 1, snd_flag := cm_flag msg\<rparr> else c)"

definition CheckpointManager_ReceiveCheckpoint ::
    "('d, 'w) env \<Rightarrow> CheckpointMessage \<Rightarrow> ('d, 'w, 'z) node_scheme \<Rightarrow> bool \<times> ('d, 'w, 'z) node_scheme" where
  "CheckpointManager_ReceiveCheckpoint E msg s =
     (case cm_type msg of
        CHECKPOINT_BEGIN \<Rightarrow> BeginToReceive E msg s
      | CHECKPOINT_FILE \<Rightarrow> Receiver_ReceiveCheckpoint E msg s
      | CHECKPOINT_END \<Rightarrow> EndToReceive E msg s
      | CHECKPOINT_COMFIRM \<Rightarrow> (True, s\<lparr>sender := OnComfirmReceive msg (sender s)\<rparr>)
      | OTHER_CHECKPOINT _ \<Rightarrow> (True, s))"

lemmas [op_defs] = CheckpointReceiver_Reset_def ComfirmReceive_def BeginToReceive_def
  append_fragment_def ReceiveFiles_def Receiver_ReceiveCheckpoint_def EndToReceive_def
  OnComfirmReceive_def CheckpointManager_ReceiveCheckpoint_def

section \<open>What receiving leaves alone\<close>

text \<open>The consensus state of the node, which no checkpoint message touches.\<close>

definition transfer_step :: "('d, 'w, 'z) node_scheme \<Rightarrow> ('d, 'w, 'z) node_scheme \<Rightarrow> bool" where
  "transfer_step s s' \<longleftrightarrow>
     acceptor s' = acceptor s \<and> learner s' = learner s \<and> proposer s' = proposer s \<and>
     instance_id s' = instance_id s \<and> is_proposing s' = is_proposing s \<and>
     context_ptr s' = context_ptr s \<and> propose_value s' = propose_value s \<and>
     propose_timer s' = propose_timer s \<and> queue s' = queue s \<and> io_loop s' = io_loop s \<and>
     callback_loop s' = callback_loop s \<and> db s' = db s \<and> membership s' = membership s"

lemma transfer_step_refl [simp]: "transfer_step s s"
  by (simp add: transfer_step_def)

lemma transfer_step_trans: "transfer_step s t \<Longrightarrow> transfer_step t u \<Longrightarrow> transfer_step s u"
  by (simp add: transfer_step_def)

lemma in_world_transfer [simp]: "transfer_step s (snd (in_world f s))"
  by (simp add: transfer_step_def in_world_def case_prod_beta)

lemma ComfirmReceive_step: "transfer_step s (snd (ComfirmReceive E msg res s))"
  by (simp add: transfer_step_def ComfirmReceive_def Let_def)

lemma ReceiveFiles_step: "transfer_step s (snd (ReceiveFiles E msg s))"
  by (simp add: transfer_step_def ReceiveFiles_def Let_def in_world_def case_prod_beta)

lemma EndToReceive_step: "transfer_step s (snd (EndToReceive E msg s))"
  by (simp add: transfer_step_def EndToReceive_def UpdateCheckpoint_def Let_def in_world_def
      case_prod_beta)

lemma ReceiveCheckpoint_step:
  "transfer_step s (snd (CheckpointManager_ReceiveCheckpoint E msg s))"
proof (cases "cm_type msg")
  case CHECKPOINT_BEGIN
  let ?s1 = "s\<lparr>receiver := \<lparr>sender_node_id = cm_node_id msg, rcv_sequence_id = 0, rcv_dirs = []\<rparr>\<rparr>"
  have "transfer_step s ?s1" by (simp add: transfer_step_def)
  also note in_world_transfer [of ?s1 "DeleteTempCheckpoint E"]
  finally (transfer_step_trans) show ?thesis
    using CHECKPOINT_BEGIN transfer_step_trans [OF _ ComfirmReceive_step]
    by (simp add: CheckpointManager_ReceiveCheckpoint_def BeginToReceive_def Let_def case_prod_beta)
next
  case CHECKPOINT_FILE
  then show ?thesis
    using transfer_step_trans [OF ReceiveFiles_step ComfirmReceive_step]
    by (simp add: CheckpointManager_ReceiveCheckpoint_def Receiver_ReceiveCheckpoint_def case_prod_beta)
next
  case CHECKPOINT_END
  then show ?thesis by (simp add: CheckpointManager_ReceiveCheckpoint_def EndToReceive_step)
next
  case CHECKPOINT_COMFIRM
  then show ?thesis by (simp add: CheckpointManager_ReceiveCheckpoint_def transfer_step_def)
next
  case (OTHER_CHECKPOINT x)
  then show ?thesis by (simp add: CheckpointManager_ReceiveCheckpoint_def)
qed

end
