(* ===== verification/Learners.thy ===== *)
theory Learners
  imports Acceptors Receiving
begin

text \<open>
  \<^verbatim>\<open>Learner\<close>, \<^verbatim>\<open>src/paxos/learner.cc\<close>. Unlike the other two roles it never
  calls back into the instance: the instance looks at \<^verbatim>\<open>HasLearned\<close> after every
  message. The functions at the end of the file's send side run in the learn thread, which
  takes them from the queue \<open>learn_loop\<close>.
\<close>

section \<open>Operations of the io thread\<close>

definition Learner_new :: "u32 \<Rightarrow> Learner" where
  "Learner_new seed =
     \<lparr>lrn_instance_id = 1, learn_timer = (0, 0), lrn_rand = Random_new seed,
      is_learning = False, has_learned = False, learned_value = PaxosValue_default,
      is_receiving_checkpoint = False\<rparr>"

definition FinishLearnValue :: "PaxosValue \<Rightarrow> Learner \<Rightarrow> Learner" where
  "FinishLearnValue v l = l\<lparr>learned_value := v, has_learned := True\<rparr>"

definition Learner_BroadcastMessageToFollower ::
    "('d, 'w) env \<Rightarrow> BallotNumber \<Rightarrow> ('d, 'w, 'z) node_scheme \<Rightarrow> ('d, 'w, 'z) node_scheme" where
  "Learner_BroadcastMessageToFollower E ballot s =
     (if has_cluster E \<and> followers E (cfg_group_id E) (world s) \<noteq> []
      then Messager_BroadcastMessageToFollower E
        (Content_paxos (cfg_group_id E)
          (PaxosMessage_default\<lparr>pm_type := SEND_LEARNED_VALUE, pm_node_id := cfg_node_id E,
             pm_instance_id := lrn_instance_id (learner s), pm_proposal_id := GetProposalId ballot,
             pm_proposal_node_id := GetNodeId ballot, pm_value := learned_value (learner s)\<rparr>)) s
      else s)"

definition OnNewChosenValue ::
    "('d, 'w) env \<Rightarrow> PaxosMessage \<Rightarrow> ('d, 'w, 'z) node_scheme \<Rightarrow> ('d, 'w, 'z) node_scheme" where
  "OnNewChosenValue E msg s =
     (if pm_instance_id msg = lrn_instance_id (learner s) then
        (let b = accepted_ballot (acceptor s);
             ballot = BallotNumber (pm_proposal_id msg) (pm_node_id msg)
         in if ballot_eq ballot b
            then Learner_BroadcastMessageToFollower E b
              (s\<lparr>learner := FinishLearnValue (accepted_value (acceptor s)) (learner s)\<rparr>)
            else s)
      else s)"

definition AddLearnTimer ::
    "('d, 'w) env \<Rightarrow> u64 \<Rightarrow> ('d, 'w, 'z) node_scheme \<Rightarrow> ('d, 'w, 'z) node_scheme" where
  "AddLearnTimer E timeout s =
     (let (t, s1) = io_RunAfter E timeout LearnTimer s
      in s1\<lparr>learner := (learner s1)\<lparr>learn_timer := t\<rparr>\<rparr>)"

definition RemoveLearnTimer :: "('d, 'w, 'z) node_scheme \<Rightarrow> ('d, 'w, 'z) node_scheme" where
  "RemoveLearnTimer s = io_Remove (learn_timer (learner s)) s"

definition AskForLearn ::
    "('d, 'w) env \<Rightarrow> bool \<Rightarrow> ('d, 'w, 'z) node_scheme \<Rightarrow> ('d, 'w, 'z) node_scheme" where
  "AskForLearn E add_timer s =
     (let s1 = s\<lparr>learner := (learner s)\<lparr>is_learning := False, is_receiving_checkpoint := False\<rparr>\<rparr>;
          msg = PaxosMessage_default\<lparr>pm_type := ASK_FOR_LEARN, pm_node_id := cfg_node_id E,
                  pm_instance_id := lrn_instance_id (learner s)\<rparr>;
          s2 = BroadcastMessageForLearn E (Content_paxos (cfg_group_id E) msg) s1
      in if add_timer then
           (let (r, seed) = Random_Uniform 10000 (lrn_rand (learner s2))
            in AddLearnTimer E (ucast (30000 + r)) (s2\<lparr>learner := (learner s2)\<lparr>lrn_rand := seed\<rparr>\<rparr>))
         else s2)"

definition learned_message :: "('d, 'w) env \<Rightarrow> PaxosInstance \<Rightarrow> PaxosMessage" where
  "learned_message E p =
     PaxosMessage_default\<lparr>pm_type := SEND_LEARNED_VALUE, pm_node_id := cfg_node_id E,
       pm_instance_id := pi_instance_id p, pm_proposal_id := pi_accepted_id p,
       pm_proposal_node_id := pi_accepted_node_id p, pm_value := pi_accepted_value p\<rparr>"

definition SendLearnedValue ::
    "('d, 'w) env \<Rightarrow> u64 \<Rightarrow> PaxosInstance \<Rightarrow> ('d, 'w, 'z) node_scheme \<Rightarrow> ('d, 'w, 'z) node_scheme" where
  "SendLearnedValue E node_id p s =
     Messager_SendMessage E node_id (Content_paxos (cfg_group_id E) (learned_message E p)) s"

definition SendNowInstanceId ::
    "('d, 'w) env \<Rightarrow> PaxosMessage \<Rightarrow> ('d, 'w, 'z) node_scheme \<Rightarrow> ('d, 'w, 'z) node_scheme" where
  "SendNowInstanceId E msg s =
     (let reply_msg = PaxosMessage_default\<lparr>pm_type := SEND_NOW_INSTANCE_ID,
            pm_node_id := cfg_node_id E, pm_instance_id := pm_instance_id msg,
            pm_now_instance_id := lrn_instance_id (learner s),
            pm_min_chosen_instance_id := min_chosen_id s\<rparr>
      in s\<lparr>learn_loop := RunLoop_QueueInLoop
           (Func (SendTask (pm_node_id msg) (Content_paxos (cfg_group_id E) reply_msg))) (learn_loop s)\<rparr>)"

definition OnAskForLearn ::
    "('d, 'w) env \<Rightarrow> PaxosMessage \<Rightarrow> ('d, 'w, 'z) node_scheme \<Rightarrow> ('d, 'w, 'z) node_scheme" where
  "OnAskForLearn E msg s =
     (if pm_instance_id msg < lrn_instance_id (learner s) then
        (if pm_instance_id msg = lrn_instance_id (learner s) - 1 then
           (case DB_Get E (pm_instance_id msg) (db s) of
              (res, str) \<Rightarrow>
                (if res = 0 then SendLearnedValue E (pm_node_id msg) (snd (parse_instance E str)) s
                 else s))
         else if \<not> is_sending_checkpoint s then SendNowInstanceId E msg s
         else s)
      else s)"

definition ComfirmAskForLearn ::
    "('d, 'w) env \<Rightarrow> PaxosMessage \<Rightarrow> ('d, 'w, 'z) node_scheme \<Rightarrow> ('d, 'w, 'z) node_scheme" where
  "ComfirmAskForLearn E msg s =
     Messager_SendMessage E (pm_node_id msg) (Content_paxos (cfg_group_id E)
       (PaxosMessage_default\<lparr>pm_type := COMFIRM_ASK_FOR_LEARN, pm_node_id := cfg_node_id E,
          pm_instance_id := lrn_instance_id (learner s)\<rparr>)) s"

definition AskForCheckpoint ::
    "('d, 'w) env \<Rightarrow> PaxosMessage \<Rightarrow> ('d, 'w, 'z) node_scheme \<Rightarrow> ('d, 'w, 'z) node_scheme" where
  "AskForCheckpoint E msg s =
     Messager_SendMessage E (pm_node_id msg) (Content_paxos (cfg_group_id E)
       (PaxosMessage_default\<lparr>pm_type := ASK_FOR_CHECKPOINT, pm_node_id := cfg_node_id E,
          pm_instance_id := lrn_instance_id (learner s)\<rparr>)) s"

definition OnSendNowInstanceId ::
    "('d, 'w) env \<Rightarrow> PaxosMessage \<Rightarrow> ('d, 'w, 'z) node_scheme \<Rightarrow> ('d, 'w, 'z) node_scheme" where
  "OnSendNowInstanceId E msg s =
     (let i = lrn_instance_id (learner s)
      in if pm_instance_id msg = i \<and> pm_now_instance_id msg > i then
           (if pm_min_chosen_instance_id msg > i then
              (if \<not> is_receiving_checkpoint (learner s) then
                 (let s1 = AskForCheckpoint E msg s
                  in s1\<lparr>learner := (learner s1)\<lparr>is_receiving_checkpoint := True\<rparr>\<rparr>)
               else s)
            else if \<not> is_receiving_checkpoint (learner s) \<and> \<not> is_learning (learner s) then
              (let s1 = ComfirmAskForLearn E msg s
               in s1\<lparr>learner := (learner s1)\<lparr>is_learning := True\<rparr>\<rparr>)
            else s)
         else s)"

definition OnComfirmAskForLearn ::
    "PaxosMessage \<Rightarrow> ('d, 'w, 'z) node_scheme \<Rightarrow> ('d, 'w, 'z) node_scheme" where
  "OnComfirmAskForLearn msg s =
     s\<lparr>learn_loop := RunLoop_QueueInLoop
         (Func (ASyncSendTask (pm_node_id msg) (pm_instance_id msg) (lrn_instance_id (learner s))))
         (learn_loop s)\<rparr>"

definition Learner_WriteToDB ::
    "('d, 'w) env \<Rightarrow> PaxosMessage \<Rightarrow> ('d, 'w, 'z) node_scheme \<Rightarrow> bool \<times> ('d, 'w, 'z) node_scheme" where
  "Learner_WriteToDB E msg s =
     (let temp = \<lparr>pi_instance_id = pm_instance_id msg, pi_promised_id = pm_proposal_id msg,
            pi_promised_node_id = pm_node_id msg, pi_accepted_id = pm_proposal_id msg,
            pi_accepted_node_id = pm_node_id msg, pi_accepted_value = pm_value msg\<rparr>;
          (res, d) = DB_Put E False (pm_instance_id msg) (ser_instance E temp) (db s)
      in (res = 0, s\<lparr>db := d\<rparr>))"

definition OnSendLearnedValue ::
    "('d, 'w) env \<Rightarrow> PaxosMessage \<Rightarrow> ('d, 'w, 'z) node_scheme \<Rightarrow> ('d, 'w, 'z) node_scheme" where
  "OnSendLearnedValue E msg s =
     (if pm_instance_id msg = lrn_instance_id (learner s) then
        (case Learner_WriteToDB E msg s of
           (ok, s1) \<Rightarrow>
             (if ok then Learner_BroadcastMessageToFollower E
                 (BallotNumber (pm_proposal_id msg) (pm_node_id msg))
                 (s1\<lparr>learner := FinishLearnValue (pm_value msg) (learner s1)\<rparr>)
              else s1))
      else s)"

definition OnAskForCheckpoint ::
    "PaxosMessage \<Rightarrow> ('d, 'w, 'z) node_scheme \<Rightarrow> ('d, 'w, 'z) node_scheme" where
  "OnAskForCheckpoint msg s =
     s\<lparr>learn_loop := RunLoop_QueueInLoop (Func (SendCheckpointTask (pm_node_id msg))) (learn_loop s)\<rparr>"

definition OnSendCheckpoint ::
    "('d, 'w) env \<Rightarrow> CheckpointMessage \<Rightarrow> ('d, 'w, 'z) node_scheme \<Rightarrow> ('d, 'w, 'z) node_scheme" where
  "OnSendCheckpoint E msg s =
     (case CheckpointManager_ReceiveCheckpoint E msg s of
        (success, s1) \<Rightarrow>
          AddLearnTimer E (if success then 180000 else 10) (RemoveLearnTimer s1))"

definition Learner_NextInstance :: "('d, 'w, 'z) node_scheme \<Rightarrow> ('d, 'w, 'z) node_scheme" where
  "Learner_NextInstance s =
     (let s1 = SetMaxChosenInstanceId (lrn_instance_id (learner s)) s
      in s1\<lparr>learner := (learner s1)\<lparr>has_learned := False, learned_value := PaxosValue_default,
             lrn_instance_id := lrn_instance_id (learner s1) + 1\<rparr>\<rparr>)"

section \<open>Operations of the learn thread\<close>

text \<open>The loop of \<^verbatim>\<open>ASyncSend\<close>: it stops at the first instance the log does not hold.\<close>

function ASyncSend ::
    "('d, 'w) env \<Rightarrow> u64 \<Rightarrow> u64 \<Rightarrow> u64 \<Rightarrow> ('d, 'w, 'z) node_scheme \<Rightarrow> ('d, 'w, 'z) node_scheme" where
  "ASyncSend E node_id from to s =
     (if from < to then
        (case DB_Get E from (db s) of
           (ret, str) \<Rightarrow>
             (if ret = 0
              then ASyncSend E node_id (from + 1) to
                (SendLearnedValue E node_id (snd (parse_instance E str)) s)
              else s))
      else s)"
  by pat_completeness auto
termination
  by (relation "measure (\<lambda>(E, n, i, to, s). unat to - unat i)")
    (auto simp: unat_inc_u64 word_less_nat_alt)

declare ASyncSend.simps [simp del]

lemmas [op_defs] = Learner_new_def FinishLearnValue_def Learner_BroadcastMessageToFollower_def
  OnNewChosenValue_def AddLearnTimer_def RemoveLearnTimer_def AskForLearn_def learned_message_def
  SendLearnedValue_def SendNowInstanceId_def OnAskForLearn_def ComfirmAskForLearn_def
  AskForCheckpoint_def OnSendNowInstanceId_def OnComfirmAskForLearn_def Learner_WriteToDB_def
  OnSendLearnedValue_def OnAskForCheckpoint_def OnSendCheckpoint_def Learner_NextInstance_def

end
