(* ===== verification/Instances.thy ===== *)
theory Instances
  imports Proposers Learners
begin

text \<open>
  \<^verbatim>\<open>Instance\<close>, \<^verbatim>\<open>src/paxos/instance.cc\<close>: it dispatches the messages to the
  three roles, runs a learned value through the state machines and moves all roles to the
  next instance. Handling one message can handle more of them before it returns, because the
  roles deliver to their own node by a direct call; the recursion ends because each such call
  carries a message of a later phase.
\<close>

section \<open>Learning\<close>

definition Instance_NextInstance :: "('d, 'w, 'z) node_scheme \<Rightarrow> ('d, 'w, 'z) node_scheme" where
  "Instance_NextInstance s =
     Learner_NextInstance
       (s\<lparr>instance_id := instance_id s + 1,
          acceptor := Acceptor_NextInstance (acceptor s),
          proposer := Proposer_NextInstance (proposer s)\<rparr>)"

definition MachineExecute ::
    "('d, 'w) env \<Rightarrow> PaxosValue \<Rightarrow> bool \<Rightarrow> ('d, 'w, 'z) node_scheme \<Rightarrow> bool \<times> ('d, 'w, 'z) node_scheme" where
  "MachineExecute E value my s =
     MachineManager_Execute E (instance_id s) value (if my then context_ptr s else Null) s"

text \<open>The status a finished proposal gets; the text of the error is cut to a buffer of 64
  characters.\<close>

definition learn_status :: "bool \<Rightarrow> bool \<Rightarrow> PaxosValue \<Rightarrow> Status" where
  "learn_status success my v =
     (if success then (if my then Status_OK else Status_Conflict ''another value has been chosen.'')
      else Status_MachineError (take 63 (''machine(id='' @ to_string (unat (pv_machine_id v)) @
        '') execute value(id='' @ to_string (unat (pv_value_id v)) @ '') failed.'')))"

definition CheckLearn ::
    "('d, 'w) env \<Rightarrow> ('d, 'w, 'z) node_scheme \<Rightarrow> ('d, 'w, 'z) node_scheme" where
  "CheckLearn E s =
     (if has_learned (learner s) then
        (let v = learned_value (learner s);
             s1 = (if is_proposing s then io_Remove (propose_timer s) s else s);
             my = (is_proposing s \<and> pv_value_id (propose_value s) = pv_value_id v);
             (success, s2) = MachineExecute E v my s1;
             s3 = (if is_proposing s2
                   then (propose_cb (instance_id s2) (learn_status success my v) (context_ptr s2) s2)
                     \<lparr>is_proposing := False, context_ptr := Null\<rparr>
                   else s2)
         in if success then Instance_NextInstance s3
            else s3\<lparr>proposer := (proposer s3)\<lparr>skip_prepare := False\<rparr>\<rparr>)
      else s)"

section \<open>Messages\<close>

fun phase :: "PaxosMessageType \<Rightarrow> nat" where
  "phase PREPARE = 4"
| "phase PREPARE_REPLY = 3"
| "phase ACCEPT = 2"
| "phase ACCEPT_REPLY = 1"
| "phase _ = 0"

function OnPaxosMessage ::
    "('d, 'w) env \<Rightarrow> PaxosMessage \<Rightarrow> ('d, 'w, 'z) node_scheme \<Rightarrow> ('d, 'w, 'z) node_scheme" where
  "OnPaxosMessage E msg s =
     (if is_receiving_checkpoint (learner s) then s
      else CheckLearn E
        (case pm_type msg of
           PREPARE \<Rightarrow> Acceptor_OnPrepare E (\<lambda>m t. OnPaxosMessage E m t) msg s
         | ACCEPT \<Rightarrow> Acceptor_OnAccpet E (\<lambda>m t. OnPaxosMessage E m t) msg s
         | PREPARE_REPLY \<Rightarrow> OnPrepareReply E (\<lambda>m t. OnPaxosMessage E m t) msg s
         | ACCEPT_REPLY \<Rightarrow> OnAccpetReply E (\<lambda>m t. OnPaxosMessage E m t) msg s
         | NEW_CHOSEN_VALUE \<Rightarrow> OnNewChosenValue E msg s
         | ASK_FOR_LEARN \<Rightarrow> OnAskForLearn E msg s
         | SEND_LEARNED_VALUE \<Rightarrow> OnSendLearnedValue E msg s
         | SEND_NOW_INSTANCE_ID \<Rightarrow> OnSendNowInstanceId E msg s
         | COMFIRM_ASK_FOR_LEARN \<Rightarrow> OnComfirmAskForLearn msg s
         | ASK_FOR_CHECKPOINT \<Rightarrow> OnAskForCheckpoint msg s
         | OTHER_MESSAGE _ \<Rightarrow> s))"
  by pat_completeness auto
termination
  by (relation "measure (\<lambda>(E, msg, s). phase (pm_type msg))") auto

declare OnPaxosMessage.simps [simp del]

definition OnCheckpointMessage ::
    "('d, 'w) env \<Rightarrow> CheckpointMessage \<Rightarrow> ('d, 'w, 'z) node_scheme \<Rightarrow> ('d, 'w, 'z) node_scheme" where
  "OnCheckpointMessage E msg s = OnSendCheckpoint E msg s"

definition Instance_OnContent ::
    "('d, 'w) env \<Rightarrow> Content \<Rightarrow> ('d, 'w, 'z) node_scheme \<Rightarrow> ('d, 'w, 'z) node_scheme" where
  "Instance_OnContent E content s =
     (case ct_type content of
        PAXOS_MESSAGE \<Rightarrow> OnPaxosMessage E (ct_paxos_msg content) s
      | CHECKPOINT_MESSAGE \<Rightarrow> OnCheckpointMessage E (ct_checkpoint_msg content) s
      | OTHER_CONTENT _ \<Rightarrow> s)"

section \<open>Proposals\<close>

text \<open>\<^verbatim>\<open>(NowMillis() << 22) | mrand(rd) | (++seq_num_)\<close>; the random number is drawn from
  \<open>1 << 8\<close> to \<open>1 << 22\<close>.\<close>

definition GetPaxosValueId ::
    "('d, 'w) env \<Rightarrow> ('d, 'w, 'z) node_scheme \<Rightarrow> u64 \<times> ('d, 'w, 'z) node_scheme" where
  "GetPaxosValueId E s =
     (let (now, s1) = in_world (NowMillis E) s;
          (r, s2) = in_world (uniform_int E 256 4194304) s1;
          n = seq_num s2 + 1
      in (push_bit 22 now OR ucast r OR ucast n, s2\<lparr>seq_num := n\<rparr>))"

definition Instance_OnPropose ::
    "('d, 'w) env \<Rightarrow> u32 \<Rightarrow> bytes \<Rightarrow> ctx_ptr \<Rightarrow> ('d, 'w, 'z) node_scheme \<Rightarrow> ('d, 'w, 'z) node_scheme" where
  "Instance_OnPropose E machine_id value ctx s =
     (if \<not> IsValidNodeId (cfg_node_id E) s then
        propose_cb (instance_id s)
          (Status_InvalidNode ''this node is not in the membership, please add it firstly.'') ctx s
      else if is_proposing s then abort s
      else if context_ptr s \<noteq> Null then abort (s\<lparr>is_proposing := True\<rparr>)
      else
        (let (i, s1) = GetPaxosValueId E (s\<lparr>is_proposing := True, context_ptr := ctx\<rparr>);
             v = \<lparr>pv_value_id = i, pv_machine_id = machine_id, pv_user_data = value\<rparr>;
             (t, s2) = io_RunAfter E (cfg_propose_timeout E) ProposeTimer (s1\<lparr>propose_value := v\<rparr>)
         in NewPropose E (OnPaxosMessage E) v (s2\<lparr>propose_timer := t\<rparr>)))"

text \<open>The closure of the propose timer.\<close>

definition run_ProposeTimer :: "('d, 'w, 'z) node_scheme \<Rightarrow> ('d, 'w, 'z) node_scheme" where
  "run_ProposeTimer s =
     (let s1 = (QuitPropose s)\<lparr>is_proposing := False\<rparr>;
          s2 = propose_cb (instance_id s1) (Status_Timeout ''proposal time more than a second.'')
                 (context_ptr s1) s1
      in s2\<lparr>context_ptr := Null\<rparr>)"

section \<open>Start\<close>

text \<open>The constructors of the roles, with the two clock readings their generators are seeded
  with; the fields of \<^verbatim>\<open>CheckpointReceiver\<close> are not initialised by the source.\<close>

definition Instance_new ::
    "u32 \<Rightarrow> u32 \<Rightarrow> (loop_name \<Rightarrow> u64) \<Rightarrow> CheckpointReceiver \<Rightarrow> (io_task, complete_cb) ProposeQueue \<Rightarrow> ('d, 'w) logs \<Rightarrow> ('d, 'w) node" where
  "Instance_new seed1 seed2 born uninit q l =
     logs.extend (logs.truncate l)
       (node.fields Acceptor_new (Learner_new seed1) (Proposer_new seed2) 1 False Null
          PaxosValue_default (0, 0) 0 q (RunLoop_new (born IoLoop)) (RunLoop_new (born CallbackLoop))
          (RunLoop_new (born LearnLoop)) [] uninit
          \<lparr>receiver_node_id = 0, snd_sequence_id = 0, ack_sequence_id = 0, snd_flag = True\<rparr> False)"

definition Instance_Recover ::
    "('d, 'w) env \<Rightarrow> ('d, 'w, 'z) node_scheme \<Rightarrow> bool \<times> ('d, 'w, 'z) node_scheme" where
  "Instance_Recover E s =
     (case Acceptor_Recover E (instance_id s) s of
        ((ok, i), s1) \<Rightarrow>
          (if \<not> ok then (False, s1\<lparr>instance_id := i\<rparr>)
           else
             (case LogManager_Recover E i (s1\<lparr>instance_id := i\<rparr>) of
                ((ok2, i2), s2) \<Rightarrow>
                  (if \<not> ok2 then (False, s2\<lparr>instance_id := i2\<rparr>)
                   else
                     (let a = Acceptor_SetInstanceId i2 (acceptor s2)
                      in (True, s2\<lparr>instance_id := i2, acceptor := a,
                            learner := (learner s2)\<lparr>lrn_instance_id := i2\<rparr>,
                            proposer := (proposer s2)\<lparr>pro_instance_id := i2,
                              proposal_id := GetProposalId (promised_ballot a) + 1\<rparr>\<rparr>))))))"

definition SyncData :: "bool \<Rightarrow> ('d, 'w, 'z) node_scheme \<Rightarrow> ('d, 'w, 'z) node_scheme" where
  "SyncData add_timer s =
     s\<lparr>io_loop := RunLoop_QueueInLoop (Func (SyncTask add_timer)) (io_loop s)\<rparr>"

lemmas [op_defs] = Instance_NextInstance_def MachineExecute_def learn_status_def CheckLearn_def
  OnCheckpointMessage_def Instance_OnContent_def GetPaxosValueId_def Instance_OnPropose_def
  run_ProposeTimer_def Instance_new_def Instance_Recover_def SyncData_def

end
