(* ===== verification/Handlers.thy ===== *)
theory Handlers
  imports Instances
begin

text \<open>
  What the handlers of an instance have in common. Everything the io thread does to the
  node's state between two instances is one of a few primitive changes; a relation between
  states that is reflexive, transitive and respected by each of them holds between the states
  before and after any handler, through all the nested deliveries, except that at most once on
  the way the node may move to the next instance. The locale states that once; each invariant
  of the node is an interpretation of it.
\<close>

text \<open>Whether \<^verbatim>\<open>CheckLearn\<close> moves on to the next instance.\<close>

definition advances :: "('d, 'w) env \<Rightarrow> ('d, 'w, 'z) node_scheme \<Rightarrow> bool" where
  "advances E s \<longleftrightarrow>
     has_learned (learner s) \<and>
     fst (MachineExecute E (learned_value (learner s))
       (is_proposing s \<and> pv_value_id (propose_value s) = pv_value_id (learned_value (learner s)))
       (if is_proposing s then io_Remove (propose_timer s) s else s))"

lemma CheckLearn_learned: "advances E s \<Longrightarrow> \<not> has_learned (learner (CheckLearn E s))"
  by (simp add: CheckLearn_def advances_def Let_def case_prod_beta Instance_NextInstance_def
      Learner_NextInstance_def SetMaxChosenInstanceId_def)

lemma CheckLearn_nothing: "\<not> has_learned (learner s) \<Longrightarrow> CheckLearn E s = s"
  by (simp add: CheckLearn_def)

text \<open>What the acceptor may become when it answers a message.\<close>

definition acceptor_step :: "Acceptor \<Rightarrow> Acceptor \<Rightarrow> bool" where
  "acceptor_step a a' \<longleftrightarrow>
     acc_instance_id a' = acc_instance_id a \<and> promised_ballot a \<le> promised_ballot a' \<and>
     (accepted_ballot a' = accepted_ballot a \<and> accepted_value a' = accepted_value a \<or>
      accepted_ballot a' = promised_ballot a')"

locale handler_relation =
  fixes E :: "('d, 'w) env"
    and R :: "('d, 'w, 'z) node_scheme \<Rightarrow> ('d, 'w, 'z) node_scheme \<Rightarrow> bool"
  assumes R_refl: "R s s"
    and R_trans: "R s t \<Longrightarrow> R t u \<Longrightarrow> R s u"
    and R_abort: "R s (abort s)"
    and R_net: "R s (s\<lparr>net := net s @ ns\<rparr>)"
    and R_learn_loop: "R s (s\<lparr>learn_loop := ll\<rparr>)"
    and R_timer: "cb = LearnTimer \<or> (\<exists>i. cb = RetryTimer i) \<Longrightarrow> R s (snd (io_RunAfter E d cb s))"
    and R_remove: "R s (io_Remove timer s)"
    and R_proposer: "pro_instance_id p = pro_instance_id (proposer s) \<Longrightarrow> R s (s\<lparr>proposer := p\<rparr>)"
    and R_learner: "lrn_instance_id l = lrn_instance_id (learner s) \<Longrightarrow> R s (s\<lparr>learner := l\<rparr>)"
    and R_acceptor: "acceptor_step (acceptor s) a \<Longrightarrow>
      R s (snd (Acceptor_WriteToDB E (s\<lparr>acceptor := a\<rparr>)))"
    and R_learn_db: "pm_instance_id msg = lrn_instance_id (learner s) \<Longrightarrow>
      R s (snd (Learner_WriteToDB E msg s))"
    and R_stay: "\<not> advances E s \<Longrightarrow> R s (CheckLearn E s)"
begin

text \<open>The state after a handler: related, or related up to one advance.\<close>

definition stepped :: "('d, 'w, 'z) node_scheme \<Rightarrow> ('d, 'w, 'z) node_scheme \<Rightarrow> bool" where
  "stepped s s' \<longleftrightarrow>
     R s s' \<or> (\<exists>t. R s t \<and> advances E t \<and> R (CheckLearn E t) s' \<and> \<not> has_learned (learner s'))"

lemma stepped_R: "R s t \<Longrightarrow> stepped s t"
  by (simp add: stepped_def)

lemma stepped_cases:
  assumes "stepped s t"
  obtains "R s t"
  | v where "R s v" "advances E v" "R (CheckLearn E v) t" "\<not> has_learned (learner t)"
  using assms by (auto simp: stepped_def)

lemma stepped_advance:
  "R s v \<Longrightarrow> advances E v \<Longrightarrow> R (CheckLearn E v) t \<Longrightarrow> \<not> has_learned (learner t) \<Longrightarrow> stepped s t"
  by (auto simp: stepped_def)

lemma stepped_before:
  assumes st: "R s t" and tu: "stepped t u"
  shows "stepped s u"
  using tu
proof (cases rule: stepped_cases)
  case 1
  from R_trans [OF st this] show ?thesis by (rule stepped_R)
next
  case (2 v)
  from R_trans [OF st 2(1)] 2(2-4) show ?thesis by (rule stepped_advance)
qed

text \<open>A later change that does not touch what has been learned.\<close>

lemma stepped_after:
  assumes st: "stepped s t" and tu: "R t u" and keep: "has_learned (learner u) = has_learned (learner t)"
  shows "stepped s u"
  using st
proof (cases rule: stepped_cases)
  case 1
  from R_trans [OF this tu] show ?thesis by (rule stepped_R)
next
  case (2 v)
  from 2(1,2) R_trans [OF 2(3) tu] 2(4) [folded keep] show ?thesis by (rule stepped_advance)
qed

lemma stepped_CheckLearn: "stepped s t \<Longrightarrow> stepped s (CheckLearn E t)"
proof (cases "advances E t")
  case True
  assume "stepped s t"
  moreover have "has_learned (learner t)" using True by (simp add: advances_def)
  ultimately have "R s t" by (auto simp: stepped_def)
  from this True R_refl CheckLearn_learned [OF True] show ?thesis by (rule stepped_advance)
next
  case False
  assume st: "stepped s t"
  show ?thesis
  proof (cases "has_learned (learner t)")
    case True
    with st have "R s t" by (auto simp: stepped_def)
    from R_trans [OF this R_stay [OF False]] show ?thesis by (rule stepped_R)
  next
    case False
    with st show ?thesis by (simp add: CheckLearn_nothing)
  qed
qed

lemma R_Send: "R s (Messager_SendMessage E n c s)"
  by (simp add: Messager_SendMessage_def R_abort R_net)

lemma R_Broadcast: "R s (BroadcastMessage c s)"
  by (simp add: BroadcastMessage_def R_net R_refl)

lemma R_cluster: "R s (send_to_cluster ms c s)"
  by (simp add: send_to_cluster_def Let_def R_net R_refl)

lemma R_BroadcastForLearn: "R s (BroadcastMessageForLearn E c s)"
  by (simp add: BroadcastMessageForLearn_def R_cluster R_Broadcast)

lemma R_ToFollower: "R s (Learner_BroadcastMessageToFollower E b s)"
  by (simp add: Learner_BroadcastMessageToFollower_def Messager_BroadcastMessageToFollower_def
      R_cluster R_refl)

lemma R_AddRetryTimer: "R s (AddRetryTimer E d s)"
  unfolding AddRetryTimer_def Let_def case_prod_beta
  by (rule R_trans [OF R_timer R_proposer]) simp_all

lemma R_AddShortRetryTimer: "R s (AddShortRetryTimer E s)"
  unfolding AddShortRetryTimer_def Let_def case_prod_beta
  by (rule R_trans [OF R_proposer R_AddRetryTimer]) simp

lemma R_RemoveRetryTimer: "R s (RemoveRetryTimer s)"
  by (simp add: RemoveRetryTimer_def R_remove)

lemma R_AddLearnTimer: "R s (AddLearnTimer E d s)"
  unfolding AddLearnTimer_def Let_def case_prod_beta
  by (rule R_trans [OF R_timer R_learner]) simp_all

lemma R_AskForLearn: "R s (AskForLearn E b s)"
proof -
  let ?s1 = "s\<lparr>learner := (learner s)\<lparr>is_learning := False, is_receiving_checkpoint := False\<rparr>\<rparr>"
  have 1: "R s (BroadcastMessageForLearn E c ?s1)" for c
    by (rule R_trans [OF R_learner R_BroadcastForLearn]) simp
  have 2: "R t (AddLearnTimer E d (t\<lparr>learner := (learner t)\<lparr>lrn_rand := r\<rparr>\<rparr>))" for t d r
    by (rule R_trans [OF R_learner R_AddLearnTimer]) simp
  show ?thesis
    unfolding AskForLearn_def Let_def case_prod_beta
    by (simp add: 1 R_trans [OF 1 2] del: BroadcastMessageForLearn_frame)
qed

subsection \<open>The roles, given the instance they call back into\<close>

lemma stepped_reply:
  assumes "\<And>t. stepped t (rec m t)"
  shows "stepped s (reply_to E rec n m s)"
  by (simp add: reply_to_def assms stepped_R R_Send)

lemma stepped_OnPrepare:
  assumes rec: "\<And>m t. pm_type m = PREPARE_REPLY \<or> pm_type m = NEW_CHOSEN_VALUE \<Longrightarrow> stepped t (rec m t)"
  shows "stepped s (Acceptor_OnPrepare E rec msg s)"
proof -
  let ?a = "acceptor s" and ?b = "BallotNumber (pm_proposal_id msg) (pm_node_id msg)"
  have stored: "?b \<ge> promised_ballot ?a \<Longrightarrow>
      R s (snd (Acceptor_WriteToDB E (s\<lparr>acceptor := ?a\<lparr>promised_ballot := ?b\<rparr>\<rparr>)))"
    by (rule R_acceptor) (simp add: acceptor_step_def)
  have reply: "pm_type m = PREPARE_REPLY \<Longrightarrow> stepped t (reply_to E rec n m t)" for m n t
    by (rule stepped_reply) (simp add: rec)
  show ?thesis
    unfolding Acceptor_OnPrepare_def Let_def Acceptor_NewChosenValue_def
    by (simp add: R_refl stepped_R rec reply stepped_before [OF stored reply])
qed

lemma stepped_OnAccpet:
  assumes rec: "\<And>m t. pm_type m = ACCEPT_REPLY \<or> pm_type m = NEW_CHOSEN_VALUE \<Longrightarrow> stepped t (rec m t)"
  shows "stepped s (Acceptor_OnAccpet E rec msg s)"
proof -
  let ?a = "acceptor s" and ?b = "BallotNumber (pm_proposal_id msg) (pm_node_id msg)"
  have stored: "?b \<ge> promised_ballot ?a \<Longrightarrow>
      R s (snd (Acceptor_WriteToDB E (s\<lparr>acceptor := ?a\<lparr>promised_ballot := ?b,
        accepted_ballot := ?b, accepted_value := pm_value msg\<rparr>\<rparr>)))"
    by (rule R_acceptor) (simp add: acceptor_step_def)
  have reply: "pm_type m = ACCEPT_REPLY \<Longrightarrow> stepped t (reply_to E rec n m t)" for m n t
    by (rule stepped_reply) (simp add: rec)
  show ?thesis
    unfolding Acceptor_OnAccpet_def Let_def Acceptor_NewChosenValue_def
    by (simp add: R_refl stepped_R rec reply stepped_before [OF stored reply])
qed

lemma stepped_round:
  assumes "pro_instance_id p = pro_instance_id (proposer s)" and rec: "\<And>t. stepped t (rec m t)"
  shows "stepped s (rec m (BroadcastMessage c (AddRetryTimer E d (s\<lparr>proposer := p\<rparr>))))"
  using assms(1)
  by (rule stepped_before [OF R_trans [OF R_proposer R_AddRetryTimer] stepped_before [OF R_Broadcast rec]])

lemma stepped_Accept:
  assumes "\<And>m t. pm_type m = ACCEPT \<Longrightarrow> stepped t (rec m t)"
  shows "stepped s (Accept E rec s)"
  unfolding Accept_def Let_def by (rule stepped_round) (simp_all add: assms)

lemma stepped_Prepare:
  assumes "\<And>m t. pm_type m = PREPARE \<Longrightarrow> stepped t (rec m t)"
  shows "stepped s (Prepare E rec b s)"
  unfolding Prepare_def Let_def
  by (rule stepped_round) (simp_all add: assms start_prepare_def Let_def)

lemma count_reply_instance [simp]:
  "pro_instance_id (count_prepare_reply msg p) = pro_instance_id p"
  "pro_instance_id (count_accept_reply msg p) = pro_instance_id p"
  "pro_instance_id (Proposer_SetMaxProposalId msg p) = pro_instance_id p"
  by (simp_all add: count_prepare_reply_def count_accept_reply_def Proposer_SetMaxProposalId_def Let_def)

lemma stepped_SetMax:
  "stepped s t \<Longrightarrow> stepped s (t\<lparr>proposer := Proposer_SetMaxProposalId msg (proposer t)\<rparr>)"
  by (erule stepped_after) (simp_all add: R_proposer)

lemma R_stop_round:
  "pro_instance_id p = pro_instance_id (proposer s) \<Longrightarrow> R s (RemoveRetryTimer (s\<lparr>proposer := p\<rparr>))"
  by (rule R_trans [OF R_proposer R_RemoveRetryTimer])

lemma stepped_OnPrepareReply:
  assumes rec: "\<And>m t. pm_type m = ACCEPT \<Longrightarrow> stepped t (rec m t)"
  shows "stepped s (OnPrepareReply E rec msg s)"
proof -
  let ?p = "count_prepare_reply msg (proposer s)"
  have "stepped s (Accept E rec (RemoveRetryTimer
      (s\<lparr>proposer := ?p\<lparr>preparing := False, skip_prepare := True\<rparr>\<rparr>)))"
    by (rule stepped_before [OF R_stop_round stepped_Accept]) (simp_all add: rec)
  moreover have "R s (AddShortRetryTimer E (RemoveRetryTimer (s\<lparr>proposer := ?p\<lparr>preparing := False\<rparr>\<rparr>)))"
    by (rule R_trans [OF R_stop_round R_AddShortRetryTimer]) simp
  moreover have "R s (s\<lparr>proposer := ?p\<rparr>)" by (rule R_proposer) simp
  ultimately show ?thesis
    unfolding OnPrepareReply_def Let_def by (intro stepped_SetMax) (simp add: R_refl stepped_R)
qed

lemma stepped_OnAccpetReply:
  assumes rec: "\<And>m t. pm_type m = NEW_CHOSEN_VALUE \<Longrightarrow> stepped t (rec m t)"
  shows "stepped s (OnAccpetReply E rec msg s)"
proof -
  let ?p = "count_accept_reply msg (proposer s)"
  have chosen: "stepped t (Proposer_NewChosenValue E rec t)" for t
    unfolding Proposer_NewChosenValue_def Let_def
    by (rule stepped_before [OF R_Broadcast rec]) simp
  have "stepped s (Proposer_NewChosenValue E rec (RemoveRetryTimer (s\<lparr>proposer := ?p\<lparr>accepting := False\<rparr>\<rparr>)))"
    by (rule stepped_before [OF R_stop_round chosen]) simp
  moreover have "R s (AddShortRetryTimer E (RemoveRetryTimer (s\<lparr>proposer := ?p\<lparr>accepting := False\<rparr>\<rparr>)))"
    by (rule R_trans [OF R_stop_round R_AddShortRetryTimer]) simp
  moreover have "R s (s\<lparr>proposer := ?p\<rparr>)" by (rule R_proposer) simp
  ultimately show ?thesis
    unfolding OnAccpetReply_def Let_def by (intro stepped_SetMax) (simp add: R_refl stepped_R)
qed

subsection \<open>The learner\<close>

lemma R_learn: "lrn_instance_id l = lrn_instance_id (learner s) \<Longrightarrow>
    R s (Learner_BroadcastMessageToFollower E b (s\<lparr>learner := l\<rparr>))"
  by (rule R_trans [OF R_learner R_ToFollower])

lemma R_OnNewChosenValue: "R s (OnNewChosenValue E msg s)"
  by (simp add: OnNewChosenValue_def Let_def R_refl R_learn FinishLearnValue_def)

lemma Learner_WriteToDB_learner: "learner (snd (Learner_WriteToDB E msg s)) = learner s"
  by (simp add: Learner_WriteToDB_def Let_def case_prod_beta)

lemma R_OnSendLearnedValue: "R s (OnSendLearnedValue E msg s)"
  unfolding OnSendLearnedValue_def case_prod_beta
  by (auto simp: R_refl FinishLearnValue_def intro!: R_learn_db R_trans [OF R_learn_db R_learn])

lemma R_OnAskForLearn: "R s (OnAskForLearn E msg s)"
  by (simp add: OnAskForLearn_def case_prod_beta SendLearnedValue_def SendNowInstanceId_def Let_def
      R_refl R_Send R_learn_loop)

lemma R_OnSendNowInstanceId: "R s (OnSendNowInstanceId E msg s)"
proof -
  have "R s (s1\<lparr>learner := l\<rparr>)"
    if "s1 = Messager_SendMessage E n c s" "lrn_instance_id l = lrn_instance_id (learner s1)" for s1 n c l
    using that R_trans [OF R_Send R_learner] by blast
  then show ?thesis
    by (simp add: OnSendNowInstanceId_def Let_def R_refl AskForCheckpoint_def ComfirmAskForLearn_def)
qed

subsection \<open>Whole messages and timers\<close>

lemma stepped_OnPaxosMessage: "stepped s (OnPaxosMessage E msg s)"
proof (induction "phase (pm_type msg)" arbitrary: msg s rule: less_induct)
  case less
  have rec: "phase (pm_type m) < phase (pm_type msg) \<Longrightarrow> stepped t (OnPaxosMessage E m t)" for m t
    by (rule less)
  show ?case
    by (subst OnPaxosMessage.simps)
      (auto simp: stepped_R R_OnNewChosenValue R_OnAskForLearn R_OnSendLearnedValue
        R_OnSendNowInstanceId OnComfirmAskForLearn_def OnAskForCheckpoint_def R_learn_loop R_refl
        split: PaxosMessageType.split
        intro!: stepped_CheckLearn stepped_OnPrepare stepped_OnAccpet stepped_OnPrepareReply
          stepped_OnAccpetReply rec)
qed

lemma stepped_NewPropose: "stepped s (NewPropose E (OnPaxosMessage E) v s)"
proof -
  let ?s1 = "s\<lparr>proposer := (proposer s)\<lparr>pro_value := v\<rparr>\<rparr>"
  have "R s ?s1" by (rule R_proposer) simp
  moreover have "stepped ?s1 (Accept E (OnPaxosMessage E) ?s1)"
    by (rule stepped_Accept [OF stepped_OnPaxosMessage])
  moreover have "stepped ?s1 (Prepare E (OnPaxosMessage E) b ?s1)" for b
    by (rule stepped_Prepare [OF stepped_OnPaxosMessage])
  ultimately show ?thesis by (auto simp: NewPropose_def Let_def intro: stepped_before)
qed

lemma stepped_RetryTimer: "stepped s (run_RetryTimer E (OnPaxosMessage E) i s)"
  by (simp add: run_RetryTimer_def R_refl stepped_R stepped_Prepare stepped_OnPaxosMessage)

lemma R_QuitPropose: "R s (QuitPropose s)"
  unfolding QuitPropose_def by (rule R_stop_round) simp

end

text \<open>A relation that also admits the advance holds over whole handlers.\<close>

locale handler_invariant = handler_relation +
  assumes R_advance: "advances E s \<Longrightarrow> R s (CheckLearn E s)"
begin

lemma stepped_imp:
  assumes "stepped s t"
  shows "R s t"
  using assms
proof (cases rule: stepped_cases)
  case (2 v)
  from R_trans [OF R_trans [OF 2(1) R_advance [OF 2(2)]] 2(3)] show ?thesis .
qed

lemmas R_OnPaxosMessage = stepped_imp [OF stepped_OnPaxosMessage]
lemmas R_NewPropose = stepped_imp [OF stepped_NewPropose]
lemmas R_RetryTimer = stepped_imp [OF stepped_RetryTimer]

end

end
