(* ===== verification/Safety.thy ===== *)
theory Safety
  imports Handlers
begin

text \<open>
  The safety of one node: the promise and the accepted ballot of the acceptor over every
  message and timer, the agreement of the instance ids of the roles, and what is on disk when
  the acceptor answers.
\<close>

section \<open>What learning changes\<close>

lemma MachineExecute_step [simp]: "mach_step s (snd (MachineExecute E v my s))"
  by (simp add: MachineExecute_def MachineManager_Execute_step)

lemma MachineExecute_frame [simp]:
  "acceptor (snd (MachineExecute E v my s)) = acceptor s"
  "learner (snd (MachineExecute E v my s)) = learner s"
  "proposer (snd (MachineExecute E v my s)) = proposer s"
  "instance_id (snd (MachineExecute E v my s)) = instance_id s"
  "is_proposing (snd (MachineExecute E v my s)) = is_proposing s"
  "context_ptr (snd (MachineExecute E v my s)) = context_ptr s"
  "propose_value (snd (MachineExecute E v my s)) = propose_value s"
  "propose_timer (snd (MachineExecute E v my s)) = propose_timer s"
  "queue (snd (MachineExecute E v my s)) = queue s"
  "io_loop (snd (MachineExecute E v my s)) = io_loop s"
  "callback_loop (snd (MachineExecute E v my s)) = callback_loop s"
  "net (snd (MachineExecute E v my s)) = net s"
  "db (snd (MachineExecute E v my s)) = db s"
  "is_sending_checkpoint (snd (MachineExecute E v my s)) = is_sending_checkpoint s"
  using mach_step_node [OF MachineExecute_step [of s E v my]]
    mach_step_logs [OF MachineExecute_step [of s E v my]] by simp_all

lemma CheckLearn_acceptor:
  "acceptor (CheckLearn E s) = (if advances E s then Acceptor_NextInstance (acceptor s) else acceptor s)"
  by (simp add: CheckLearn_def advances_def Let_def case_prod_beta Instance_NextInstance_def
      Learner_NextInstance_def SetMaxChosenInstanceId_def)

lemma CheckLearn_ids:
  "instance_id (CheckLearn E s) = instance_id s + (if advances E s then 1 else 0)"
  "lrn_instance_id (learner (CheckLearn E s)) =
     lrn_instance_id (learner s) + (if advances E s then 1 else 0)"
  "pro_instance_id (proposer (CheckLearn E s)) =
     pro_instance_id (proposer s) + (if advances E s then 1 else 0)"
  by (simp_all add: CheckLearn_def advances_def Let_def case_prod_beta Instance_NextInstance_def
      Learner_NextInstance_def SetMaxChosenInstanceId_def Proposer_NextInstance_def)

section \<open>The acceptor over every handler\<close>

text \<open>The three roles and the instance are at the same instance, and the acceptor has
  promised at least what it has accepted.\<close>

definition node_ok :: "('d, 'w, 'z) node_scheme \<Rightarrow> bool" where
  "node_ok s \<longleftrightarrow>
     acc_instance_id (acceptor s) = instance_id s \<and>
     pro_instance_id (proposer s) = instance_id s \<and>
     lrn_instance_id (learner s) = instance_id s \<and>
     accepted_ballot (acceptor s) \<le> promised_ballot (acceptor s)"

text \<open>What happens to a node within an instance: it stays well-formed, and neither the
  promise nor the accepted ballot goes down.\<close>

definition same_instance :: "('d, 'w, 'z) node_scheme \<Rightarrow> ('d, 'w, 'z) node_scheme \<Rightarrow> bool" where
  "same_instance s s' \<longleftrightarrow>
     instance_id s' = instance_id s \<and>
     promised_ballot (acceptor s) \<le> promised_ballot (acceptor s') \<and>
     (node_ok s \<longrightarrow> node_ok s' \<and> accepted_ballot (acceptor s) \<le> accepted_ballot (acceptor s'))"

text \<open>A change that leaves the acceptor and the four instance ids alone.\<close>

lemma same_instanceI:
  assumes "acceptor s' = acceptor s" "instance_id s' = instance_id s"
    "pro_instance_id (proposer s') = pro_instance_id (proposer s)"
    "lrn_instance_id (learner s') = lrn_instance_id (learner s)"
  shows "same_instance s s'"
  using assms by (simp add: same_instance_def node_ok_def)

lemma WriteToDB_fields [simp]:
  "acc_instance_id (acceptor (snd (Acceptor_WriteToDB E s))) = acc_instance_id (acceptor s)"
  "promised_ballot (acceptor (snd (Acceptor_WriteToDB E s))) = promised_ballot (acceptor s)"
  "accepted_ballot (acceptor (snd (Acceptor_WriteToDB E s))) = accepted_ballot (acceptor s)"
  "accepted_value (acceptor (snd (Acceptor_WriteToDB E s))) = accepted_value (acceptor s)"
  "instance_id (snd (Acceptor_WriteToDB E s)) = instance_id s"
  "proposer (snd (Acceptor_WriteToDB E s)) = proposer s"
  "learner (snd (Acceptor_WriteToDB E s)) = learner s"
  "membership (snd (Acceptor_WriteToDB E s)) = membership s"
  "queue (snd (Acceptor_WriteToDB E s)) = queue s"
  "io_loop (snd (Acceptor_WriteToDB E s)) = io_loop s"
  "is_proposing (snd (Acceptor_WriteToDB E s)) = is_proposing s"
  "context_ptr (snd (Acceptor_WriteToDB E s)) = context_ptr s"
  "propose_timer (snd (Acceptor_WriteToDB E s)) = propose_timer s"
  "propose_value (snd (Acceptor_WriteToDB E s)) = propose_value s"
  "callback_loop (snd (Acceptor_WriteToDB E s)) = callback_loop s"
  "net (snd (Acceptor_WriteToDB E s)) = net s"
  "world (snd (Acceptor_WriteToDB E s)) = world s"
  by (simp_all add: Acceptor_WriteToDB_def Let_def case_prod_beta)

lemma same_instance_vote:
  "acceptor_step (acceptor s) a \<Longrightarrow> same_instance s (snd (Acceptor_WriteToDB E (s\<lparr>acceptor := a\<rparr>)))"
  by (auto simp: same_instance_def node_ok_def acceptor_step_def intro: order_trans)

interpretation node: handler_relation E same_instance for E :: "('d, 'w) env"
proof unfold_locales
  fix s t u :: "('d, 'w, 'z) node_scheme"
  show "same_instance s s" by (rule same_instanceI) simp_all
  show "same_instance s t \<Longrightarrow> same_instance t u \<Longrightarrow> same_instance s u"
    by (auto simp: same_instance_def)
next
  fix s :: "('d, 'w, 'z) node_scheme" and a
  assume "acceptor_step (acceptor s) a"
  then show "same_instance s (snd (Acceptor_WriteToDB E (s\<lparr>acceptor := a\<rparr>)))"
    by (rule same_instance_vote)
next
  fix s :: "('d, 'w, 'z) node_scheme" and msg :: PaxosMessage
  show "same_instance s (snd (Learner_WriteToDB E msg s))"
    by (rule same_instanceI) (simp_all add: Learner_WriteToDB_def Let_def case_prod_beta)
next
  fix s :: "('d, 'w, 'z) node_scheme"
  assume "\<not> advances E s"
  then show "same_instance s (CheckLearn E s)"
    by (intro same_instanceI) (simp_all add: CheckLearn_acceptor CheckLearn_ids)
qed (auto intro: same_instanceI)

section \<open>One message, one instance\<close>

lemma NextInstance_acceptor:
  "promised_ballot (Acceptor_NextInstance a) = promised_ballot a"
  "acc_instance_id (Acceptor_NextInstance a) = acc_instance_id a + 1"
  "accepted_ballot (Acceptor_NextInstance a) = Ballot_default"
  "accepted_value (Acceptor_NextInstance a) = PaxosValue_default"
  by (simp_all add: Acceptor_NextInstance_def Acceptor_SetInstanceId_def)

lemma node_ok_advance: "advances E s \<Longrightarrow> node_ok s \<Longrightarrow> node_ok (CheckLearn E s)"
  by (simp add: node_ok_def CheckLearn_acceptor CheckLearn_ids NextInstance_acceptor)

text \<open>What a handler does to a node, the advance included.\<close>

definition node_step :: "('d, 'w, 'z) node_scheme \<Rightarrow> ('d, 'w, 'z) node_scheme \<Rightarrow> bool" where
  "node_step s s' \<longleftrightarrow>
     node_ok s' \<and> promised_ballot (acceptor s) \<le> promised_ballot (acceptor s') \<and>
     (instance_id s' = instance_id s \<and>
        accepted_ballot (acceptor s) \<le> accepted_ballot (acceptor s') \<or>
      instance_id s' = instance_id s + 1 \<and> \<not> has_learned (learner s'))"

lemma node_stepped:
  assumes "node.stepped E s s'" and "node_ok s"
  shows "node_step s s'"
  using assms(1)
proof (cases rule: node.stepped_cases)
  case 1
  with assms(2) show ?thesis by (auto simp: same_instance_def node_step_def)
next
  case (2 v)
  have "node_ok (CheckLearn E v)"
    using node_ok_advance [OF 2(2)] 2(1) assms(2) by (simp add: same_instance_def)
  moreover have "promised_ballot (acceptor v) = promised_ballot (acceptor (CheckLearn E v))"
    using 2(2) by (simp add: CheckLearn_acceptor NextInstance_acceptor)
  ultimately show ?thesis
    using 2 by (auto simp: same_instance_def CheckLearn_ids node_step_def intro: order_trans)
qed

text \<open>
  C4. Whatever message arrives, through all the messages the node delivers to itself on the
  way: the roles stay at the same instance, the promise never goes down, the instance advances
  by at most one, and as long as it stays the same the accepted ballot does not go down either
  and never exceeds the promise.
\<close>

theorem OnPaxosMessage_safe:
  assumes "node_ok s"
  shows "let s' = OnPaxosMessage E msg s
    in node_ok s' \<and> promised_ballot (acceptor s) \<le> promised_ballot (acceptor s') \<and>
      (instance_id s' = instance_id s \<and>
         accepted_ballot (acceptor s) \<le> accepted_ballot (acceptor s') \<or>
       instance_id s' = instance_id s + 1 \<and> \<not> has_learned (learner s'))"
  using node_stepped [OF node.stepped_OnPaxosMessage assms] by (simp add: node_step_def Let_def)

end
