(* ===== verification/Voting.thy ===== *)
theory Voting
  imports Safety
begin

text \<open>
  The acceptor towards the other nodes: what it answers to a prepare and to an accept on
  every branch, that the answer is on disk before it is sent, and that a restart brings the
  acceptor back to the state it answered from.
\<close>

section \<open>The vote as a function\<close>

text \<open>The reference: the textbook acceptor on a promised ballot and an accepted pair. A
  prepare answers with the accepted ballot and value, or with the refusing promise.\<close>

definition vote_prepare :: "BallotNumber \<Rightarrow> Acceptor \<Rightarrow> Acceptor \<times> bool" where
  "vote_prepare b a =
     (if promised_ballot a \<le> b then (a\<lparr>promised_ballot := b\<rparr>, True) else (a, False))"

definition vote_accept :: "BallotNumber \<Rightarrow> PaxosValue \<Rightarrow> Acceptor \<Rightarrow> Acceptor \<times> bool" where
  "vote_accept b v a =
     (if promised_ballot a \<le> b
      then (a\<lparr>promised_ballot := b, accepted_ballot := b, accepted_value := v\<rparr>, True)
      else (a, False))"

text \<open>The acceptor without the counter of unsynced writes, which no protocol step reads.\<close>

definition votes :: "Acceptor \<Rightarrow> Acceptor" where
  "votes a = a\<lparr>log_sync_count := 0\<rparr>"

lemma votes_WriteToDB [simp]: "votes (acceptor (snd (Acceptor_WriteToDB E s))) = votes (acceptor s)"
  by (simp add: votes_def Acceptor_WriteToDB_def Let_def case_prod_beta)

lemma votes_fields [simp]:
  "promised_ballot (votes a) = promised_ballot a" "accepted_ballot (votes a) = accepted_ballot a"
  "accepted_value (votes a) = accepted_value a" "acc_instance_id (votes a) = acc_instance_id a"
  by (simp_all add: votes_def)

text \<open>What is in the log for the acceptor's instance after a write.\<close>

lemma WriteToDB_log:
  assumes "storage_ok E contents"
  shows "log_of E (contents (db (snd (Acceptor_WriteToDB E s)))) =
    (log_of E (contents (db s)))(acc_instance_id (acceptor s) \<mapsto>
       ser_instance E (acceptor_instance (acceptor s)))"
  using db.put_lookup [OF assms]
  by (simp add: Acceptor_WriteToDB_def Let_def case_prod_beta)

lemma Unicast_sent:
  assumes "n \<noteq> 0" and "n \<noteq> cfg_node_id E"
  shows "net (reply_to E rec n m s) = net s @ [Unicast n (Content_paxos (cfg_group_id E) m)]"
    and "acceptor (reply_to E rec n m s) = acceptor s"
    and "db (reply_to E rec n m s) = db s"
  using assms by (simp_all add: reply_to_def Messager_SendMessage_def)

section \<open>Prepare\<close>

text \<open>The reply a prepare gets.\<close>

definition prepare_reply :: "('d, 'w) env \<Rightarrow> PaxosMessage \<Rightarrow> Acceptor \<Rightarrow> PaxosMessage" where
  "prepare_reply E msg a =
     PaxosMessage_default\<lparr>pm_type := PREPARE_REPLY, pm_node_id := cfg_node_id E,
       pm_instance_id := pm_instance_id msg, pm_proposal_id := pm_proposal_id msg,
       pm_pre_accepted_id := if GetProposalId (accepted_ballot a) > 0
         then GetProposalId (accepted_ballot a) else 0,
       pm_pre_accepted_node_id := if GetProposalId (accepted_ballot a) > 0
         then GetNodeId (accepted_ballot a) else 0,
       pm_value := if GetProposalId (accepted_ballot a) > 0 then accepted_value a
         else PaxosValue_default\<rparr>"

definition refusal :: "('d, 'w) env \<Rightarrow> PaxosMessageType \<Rightarrow> PaxosMessage \<Rightarrow> Acceptor \<Rightarrow> PaxosMessage" where
  "refusal E ty msg a =
     PaxosMessage_default\<lparr>pm_type := ty, pm_node_id := cfg_node_id E,
       pm_instance_id := pm_instance_id msg, pm_proposal_id := pm_proposal_id msg,
       pm_rejected_id := GetProposalId (promised_ballot a)\<rparr>"

text \<open>
  C5. A prepare from another node for the current instance: the acceptor votes as the
  reference does, sends exactly one reply to the proposer, and a granted promise is in the
  log, together with what was accepted before, when the reply is handed to the network; a
  refusal carries the promised number and changes neither the acceptor nor the log.
\<close>

theorem OnPrepare_answers:
  assumes ok: "storage_ok E contents"
    and msg: "pm_instance_id msg = acc_instance_id (acceptor s)"
      "pm_node_id msg \<noteq> 0" "pm_node_id msg \<noteq> cfg_node_id E"
  shows "let a = acceptor s; i = acc_instance_id a;
      (a', granted) = vote_prepare (BallotNumber (pm_proposal_id msg) (pm_node_id msg)) a;
      s' = Acceptor_OnPrepare E rec msg s
    in votes (acceptor s') = votes a' \<and>
       net s' = net s @ [Unicast (pm_node_id msg) (Content_paxos (cfg_group_id E)
         (if granted then prepare_reply E msg a else refusal E PREPARE_REPLY msg a))] \<and>
       log_of E (contents (db s')) =
         (if granted then (log_of E (contents (db s)))(i \<mapsto> ser_instance E (acceptor_instance a'))
          else log_of E (contents (db s)))"
  using msg
  by (simp add: Acceptor_OnPrepare_def vote_prepare_def Let_def Unicast_sent WriteToDB_log [OF ok]
      prepare_reply_def refusal_def PaxosMessage_default_def)

text \<open>
  C6. An accept from another node for the current instance: the acceptor takes the value
  exactly when it has promised no higher ballot, the accepted ballot and value are in the log
  when the reply is handed to the network, and a refusal changes nothing.
\<close>

theorem OnAccpet_answers:
  assumes ok: "storage_ok E contents"
    and msg: "pm_instance_id msg = acc_instance_id (acceptor s)"
      "pm_node_id msg \<noteq> 0" "pm_node_id msg \<noteq> cfg_node_id E"
  shows "let a = acceptor s; i = acc_instance_id a;
      (a', granted) = vote_accept (BallotNumber (pm_proposal_id msg) (pm_node_id msg))
        (pm_value msg) a;
      s' = Acceptor_OnAccpet E rec msg s
    in votes (acceptor s') = votes a' \<and>
       net s' = net s @ [Unicast (pm_node_id msg) (Content_paxos (cfg_group_id E)
         (if granted then PaxosMessage_default\<lparr>pm_type := ACCEPT_REPLY, pm_node_id := cfg_node_id E,
            pm_instance_id := pm_instance_id msg, pm_proposal_id := pm_proposal_id msg\<rparr>
          else refusal E ACCEPT_REPLY msg a))] \<and>
       log_of E (contents (db s')) =
         (if granted then (log_of E (contents (db s)))(i \<mapsto> ser_instance E (acceptor_instance a'))
          else log_of E (contents (db s)))"
  using msg
  by (simp add: Acceptor_OnAccpet_def vote_accept_def Let_def Unicast_sent WriteToDB_log [OF ok]
      refusal_def)

section \<open>After a restart\<close>

text \<open>The log holds nothing above the given instance; the reserved key aside.\<close>

definition log_below :: "('d, 'w) env \<Rightarrow> (bytes \<rightharpoonup> bytes) \<Rightarrow> u64 \<Rightarrow> bool" where
  "log_below E m i \<longleftrightarrow> keys_ok E m \<and> (\<forall>j \<in> dom (log_of E m). j = kMinChosenKey \<or> j \<le> i)"

lemma GetMax_latest:
  assumes ok: "storage_ok E contents" and below: "log_below E (contents d) i"
    and i: "i \<noteq> kMinChosenKey" "log_of E (contents d) i = Some str"
  shows "DB_GetMaxInstanceId E d = (0, Some i)"
proof -
  let ?ids = "dom (log_of E (contents d)) - {kMinChosenKey}"
  have "i \<in> ?ids" using i by auto
  moreover have "j \<le> i" if "j \<in> ?ids" for j using below that unfolding log_below_def by auto
  moreover have "finite ?ids" by simp
  ultimately have "Max ?ids = i" by (intro Max_eqI) auto
  moreover have "?ids \<noteq> {}" using \<open>i \<in> ?ids\<close> by blast
  ultimately show ?thesis
    using DB_GetMaxInstanceId_eq [OF ok] below unfolding log_below_def Let_def by simp
qed

lemma Recover_stored:
  assumes ok: "storage_ok E contents" and codec: "instance_codec_ok E"
    and below: "log_below E (contents (db t)) (acc_instance_id a)"
    and i: "acc_instance_id a \<noteq> kMinChosenKey"
    and stored: "log_of E (contents (db t)) (acc_instance_id a) =
      Some (ser_instance E (acceptor_instance a))"
  shows "fst (Acceptor_Recover E j t) = (True, acc_instance_id a)"
    and "votes (acceptor (snd (Acceptor_Recover E j t))) = votes a"
proof -
  note g = GetMax_latest [OF ok below i stored] db.get_found [OF ok stored]
  have p: "parse_instance E (ser_instance E m) = (True, m)" for m
    using codec by (simp add: instance_codec_ok_def)
  show "fst (Acceptor_Recover E j t) = (True, acc_instance_id a)"
    by (simp add: Acceptor_Recover_def Acceptor_ReadFromDB_def g p Let_def)
  show "votes (acceptor (snd (Acceptor_Recover E j t))) = votes a"
    by (simp add: Acceptor_Recover_def Acceptor_ReadFromDB_def g p Let_def votes_def
        acceptor_instance_def)
qed

lemma log_below_put:
  assumes "log_below E m i" and "coding_ok E" and "m' = m(encode64 E i \<mapsto> v)"
  shows "log_below E m' i"
  using assms by (auto simp: log_below_def keys_ok_put log_of_def encode64_inj split: if_splits)

lemma WriteToDB_contents:
  assumes "storage_ok E contents"
  shows "contents (db (snd (Acceptor_WriteToDB E s))) =
    (contents (db s))(encode64 E (acc_instance_id (acceptor s)) \<mapsto>
       ser_instance E (acceptor_instance (acceptor s)))"
  using assms
  by (auto simp: storage_ok_def leveldb_ok_def Acceptor_WriteToDB_def DB_Put_def Let_def case_prod_beta)

lemma acceptor_instance_votes: "votes a = votes a' \<Longrightarrow> acceptor_instance a = acceptor_instance a'"
  unfolding votes_def acceptor_instance_def by (cases a; cases a') simp

text \<open>
  C7. A vote survives a crash: when a prepare or an accept from another node has been
  granted and the process restarts from the database as it was when the reply was sent, the
  acceptor comes back at the same instance with the same promise, accepted ballot and value.
\<close>

theorem vote_survives_restart:
  assumes ok: "storage_ok E contents" and codec: "instance_codec_ok E"
    and below: "log_below E (contents (db s)) (acc_instance_id (acceptor s))"
    and i: "acc_instance_id (acceptor s) \<noteq> kMinChosenKey"
    and msg: "pm_instance_id msg = acc_instance_id (acceptor s)"
      "pm_node_id msg \<noteq> 0" "pm_node_id msg \<noteq> cfg_node_id E"
    and granted: "promised_ballot (acceptor s) \<le> BallotNumber (pm_proposal_id msg) (pm_node_id msg)"
    and s': "s' \<in> {Acceptor_OnPrepare E rec msg s, Acceptor_OnAccpet E rec msg s}"
    and restart: "db t = db s'"
  shows "fst (Acceptor_Recover E j t) = (True, acc_instance_id (acceptor s')) \<and>
    votes (acceptor (snd (Acceptor_Recover E j t))) = votes (acceptor s')"
proof -
  obtain a where a: "acc_instance_id a = acc_instance_id (acceptor s)"
      "votes (acceptor s') = votes a" "db s' = db (snd (Acceptor_WriteToDB E (s\<lparr>acceptor := a\<rparr>)))"
  proof -
    let ?b = "BallotNumber (pm_proposal_id msg) (pm_node_id msg)"
    let ?p = "(acceptor s)\<lparr>promised_ballot := ?b\<rparr>"
    let ?q = "?p\<lparr>accepted_ballot := ?b, accepted_value := pm_value msg\<rparr>"
    from s' consider "s' = Acceptor_OnPrepare E rec msg s" | "s' = Acceptor_OnAccpet E rec msg s" by blast
    then show thesis
    proof cases
      case 1
      with msg granted show thesis
        by (intro that [of ?p]) (simp_all add: Acceptor_OnPrepare_def Let_def Unicast_sent)
    next
      case 2
      with msg granted show thesis
        by (intro that [of ?q]) (simp_all add: Acceptor_OnAccpet_def Let_def Unicast_sent)
    qed
  qed
  have "log_of E (contents (db t)) (acc_instance_id a) = Some (ser_instance E (acceptor_instance a))"
    unfolding restart a(3) WriteToDB_log [OF ok] by simp
  moreover have "log_below E (contents (db t)) (acc_instance_id a)"
    using below ok unfolding restart a(3) WriteToDB_contents [OF ok]
    by (simp add: a(1) log_below_put storage_ok_def)
  moreover have "acc_instance_id (acceptor s') = acc_instance_id a"
    using a(2) by (metis votes_fields(4))
  ultimately show ?thesis
    using Recover_stored [OF ok codec, of t a j] i a(1,2) by simp
qed

end
