(* ===== verification/Durability.thy ===== *)
theory Durability
  imports Voting
begin

text \<open>
  What the database holds while a node runs, and what a node is after it has recovered from
  it. The invariant is kept by every message and timer as long as the 64-bit instance counter
  does not wrap.
\<close>

section \<open>The invariant of the log\<close>

definition record_ok :: "PaxosInstance \<Rightarrow> bool" where
  "record_ok r \<longleftrightarrow> BallotNumber (pi_accepted_id r) (pi_accepted_node_id r) \<le>
     BallotNumber (pi_promised_id r) (pi_promised_node_id r)"

text \<open>Every record has promised at least what it has accepted.\<close>

definition records_ok :: "('d, 'w) env \<Rightarrow> (bytes \<rightharpoonup> bytes) \<Rightarrow> bool" where
  "records_ok E m \<longleftrightarrow>
     (\<forall>i str. log_of E m i = Some str \<longrightarrow> i = kMinChosenKey \<or> record_ok (snd (parse_instance E str)))"

definition durable :: "('d, 'w) env \<Rightarrow> ('d \<Rightarrow> bytes \<rightharpoonup> bytes) \<Rightarrow> ('d, 'w, 'z) node_scheme \<Rightarrow> bool" where
  "durable E contents s \<longleftrightarrow>
     node_ok s \<and> log_below E (contents (db s)) (instance_id s) \<and> records_ok E (contents (db s))"

text \<open>Within an instance.\<close>

definition durable_step ::
    "('d, 'w) env \<Rightarrow> ('d \<Rightarrow> bytes \<rightharpoonup> bytes) \<Rightarrow> ('d, 'w, 'z) node_scheme \<Rightarrow> ('d, 'w, 'z) node_scheme \<Rightarrow> bool" where
  "durable_step E contents s s' \<longleftrightarrow>
     instance_id s' = instance_id s \<and>
     (storage_ok E contents \<longrightarrow> instance_codec_ok E \<longrightarrow> durable E contents s \<longrightarrow> durable E contents s')"

text \<open>A change that touches neither the database nor the acceptor nor an instance id.\<close>

lemma durable_step_same:
  assumes "acceptor s' = acceptor s" "instance_id s' = instance_id s"
    "pro_instance_id (proposer s') = pro_instance_id (proposer s)"
    "lrn_instance_id (learner s') = lrn_instance_id (learner s)" "db s' = db s"
  shows "durable_step E c s s'"
  using assms by (simp add: durable_step_def durable_def node_ok_def)

lemma records_ok_put:
  assumes "records_ok E m" and "coding_ok E" and "record_ok (snd (parse_instance E v))"
    and "m' = m(encode64 E i \<mapsto> v)"
  shows "records_ok E m'"
  using assms by (auto simp: records_ok_def log_of_def encode64_inj split: if_splits)

lemma DB_Put_contents:
  assumes "storage_ok E contents"
  shows "contents (snd (DB_Put E sync i v d)) = (contents d)(encode64 E i \<mapsto> v)"
  using assms by (auto simp: storage_ok_def leveldb_ok_def DB_Put_def case_prod_beta)

lemma parse_ser: "instance_codec_ok E \<Longrightarrow> snd (parse_instance E (ser_instance E r)) = r"
  by (simp add: instance_codec_ok_def)

lemma durable_step_acceptor:
  assumes "acceptor_step (acceptor s) a"
  shows "durable_step E c s (snd (Acceptor_WriteToDB E (s\<lparr>acceptor := a\<rparr>)))"
proof -
  let ?s' = "snd (Acceptor_WriteToDB E (s\<lparr>acceptor := a\<rparr>))"
  have "durable E c ?s'" if h: "storage_ok E c" "instance_codec_ok E" "durable E c s"
  proof -
    have node: "node_ok s" "node_ok ?s'"
      using h(3) same_instance_vote [OF assms] by (auto simp: durable_def same_instance_def)
    have id: "acc_instance_id a = instance_id s"
      using assms node(1) by (simp add: acceptor_step_def node_ok_def)
    have "record_ok (acceptor_instance a)"
      using node(2) by (simp add: node_ok_def record_ok_def acceptor_instance_def)
    then have "record_ok (snd (parse_instance E (ser_instance E (acceptor_instance a))))"
      by (simp only: parse_ser [OF h(2)])
    then have "records_ok E (c (db ?s'))"
      using h(1,3) unfolding durable_def storage_ok_def
      by (intro records_ok_put [OF _ _ _ WriteToDB_contents [OF h(1)]]) simp_all
    moreover have "log_below E (c (db ?s')) (instance_id ?s')"
      using h(1,3) log_below_put [OF _ _ WriteToDB_contents [OF h(1), of "s\<lparr>acceptor := a\<rparr>"]]
      unfolding durable_def storage_ok_def by (simp add: id)
    ultimately show ?thesis using node(2) by (simp add: durable_def)
  qed
  then show ?thesis by (simp add: durable_step_def)
qed

lemma Learner_WriteToDB_contents:
  assumes "storage_ok E contents"
  shows "\<exists>r. record_ok r \<and> contents (db (snd (Learner_WriteToDB E msg s))) =
    (contents (db s))(encode64 E (pm_instance_id msg) \<mapsto> ser_instance E r)"
proof -
  let ?r = "\<lparr>pi_instance_id = pm_instance_id msg, pi_promised_id = pm_proposal_id msg,
    pi_promised_node_id = pm_node_id msg, pi_accepted_id = pm_proposal_id msg,
    pi_accepted_node_id = pm_node_id msg, pi_accepted_value = pm_value msg\<rparr>"
  have "record_ok ?r" by (simp add: record_ok_def)
  moreover have "contents (db (snd (Learner_WriteToDB E msg s))) =
      (contents (db s))(encode64 E (pm_instance_id msg) \<mapsto> ser_instance E ?r)"
    by (simp add: Learner_WriteToDB_def Let_def case_prod_beta DB_Put_contents [OF assms])
  ultimately show ?thesis by blast
qed

lemma durable_step_learn:
  assumes "pm_instance_id msg = lrn_instance_id (learner s)"
  shows "durable_step E c s (snd (Learner_WriteToDB E msg s))"
proof -
  let ?s' = "snd (Learner_WriteToDB E msg s)"
  have same: "acceptor ?s' = acceptor s" "instance_id ?s' = instance_id s" "proposer ?s' = proposer s"
    "learner ?s' = learner s"
    by (simp_all add: Learner_WriteToDB_def Let_def case_prod_beta)
  have "durable E c ?s'" if h: "storage_ok E c" "instance_codec_ok E" "durable E c s"
  proof -
    obtain r where r: "record_ok r"
      "c (db ?s') = (c (db s))(encode64 E (pm_instance_id msg) \<mapsto> ser_instance E r)"
      using Learner_WriteToDB_contents [OF h(1)] by blast
    have id: "pm_instance_id msg = instance_id s" using h(3) assms by (simp add: durable_def node_ok_def)
    have "records_ok E (c (db ?s'))"
      using h r(1) unfolding durable_def storage_ok_def
      by (intro records_ok_put [OF _ _ _ r(2)]) (simp_all add: parse_ser)
    moreover have "log_below E (c (db ?s')) (instance_id ?s')"
      using h(1,3) log_below_put [OF _ _ r(2)] unfolding durable_def storage_ok_def
      by (simp add: id same)
    ultimately show ?thesis using h(3) same by (simp add: durable_def node_ok_def)
  qed
  then show ?thesis using same(2) by (simp add: durable_step_def)
qed

lemma CheckLearn_db [simp]: "db (CheckLearn E s) = db s"
  by (simp add: CheckLearn_def Let_def case_prod_beta Instance_NextInstance_def
      Learner_NextInstance_def SetMaxChosenInstanceId_def)

lemma log_below_mono: "log_below E m i \<Longrightarrow> i \<le> j \<Longrightarrow> log_below E m j"
  unfolding log_below_def by (meson order_trans)

lemma durable_advance:
  assumes "advances E s" and "durable E c s" and "instance_id s \<noteq> - 1"
  shows "durable E c (CheckLearn E s)"
proof -
  have "instance_id s < instance_id s + 1" by (rule less_plus_one_u64 [OF assms(3)])
  then show ?thesis
    using assms(1,2) node_ok_advance [OF assms(1)] log_below_mono [of E _ "instance_id s"]
    by (simp add: durable_def CheckLearn_ids)
qed

interpretation durable: handler_relation E "durable_step E c"
  for E :: "('d, 'w) env" and c :: "'d \<Rightarrow> bytes \<rightharpoonup> bytes"
proof unfold_locales
  fix s t u :: "('d, 'w, 'z) node_scheme"
  show "durable_step E c s s" by (rule durable_step_same) simp_all
  show "durable_step E c s t \<Longrightarrow> durable_step E c t u \<Longrightarrow> durable_step E c s u"
    by (simp add: durable_step_def)
next
  fix s :: "('d, 'w, 'z) node_scheme" and a
  assume "acceptor_step (acceptor s) a"
  then show "durable_step E c s (snd (Acceptor_WriteToDB E (s\<lparr>acceptor := a\<rparr>)))"
    by (rule durable_step_acceptor)
next
  fix s :: "('d, 'w, 'z) node_scheme" and msg :: PaxosMessage
  assume "pm_instance_id msg = lrn_instance_id (learner s)"
  then show "durable_step E c s (snd (Learner_WriteToDB E msg s))" by (rule durable_step_learn)
next
  fix s :: "('d, 'w, 'z) node_scheme"
  assume "\<not> advances E s"
  then show "durable_step E c s (CheckLearn E s)"
    by (intro durable_step_same) (simp_all add: CheckLearn_acceptor CheckLearn_ids)
qed (auto intro: durable_step_same)

lemma durable_stepped:
  assumes "durable.stepped E c s s'" and "storage_ok E c" "instance_codec_ok E" "durable E c s"
    and "instance_id s \<noteq> - 1"
  shows "durable E c s'"
  using assms(1)
proof (cases rule: durable.stepped_cases)
  case 1
  with assms(2-4) show ?thesis by (simp add: durable_step_def)
next
  case (2 v)
  have "durable E c (CheckLearn E v)"
    using durable_advance [OF 2(2)] 2(1) assms by (simp add: durable_step_def)
  with 2(3) assms(2,3) show ?thesis by (simp add: durable_step_def)
qed

text \<open>
  C8. Through any message, with all the nested deliveries, the roles stay at one instance, the log
  never holds an instance beyond the current one, and each record in it has promised at least what
  it has accepted, so that recovery finds it in order. It does not say that the record of the current
  instance is the state of the acceptor: a learned value is written with other ballots.
\<close>

theorem OnPaxosMessage_durable:
  assumes "storage_ok E contents" and "instance_codec_ok E" and "instance_id s \<noteq> - 1"
    and "durable E contents s"
  shows "durable E contents (OnPaxosMessage E msg s)"
  using durable_stepped [OF durable.stepped_OnPaxosMessage] assms by blast

section \<open>A recovered node\<close>

lemma ReplayLog_step: "mach_step s (snd (ReplayLog E i to s))"
proof (induction E i to s rule: ReplayLog.induct)
  case (1 E i to s)
  show ?case
  proof (cases "i < to \<and> fst (DB_Get E i (db s)) = 0")
    case True
    let ?s1 = "snd (MachineManager_Execute E i
      (pi_accepted_value (snd (parse_instance E (snd (DB_Get E i (db s)))))) Null s)"
    have "mach_step s ?s1" by (rule MachineManager_Execute_step)
    moreover have "mach_step ?s1 (snd (ReplayLog E (i + 1) to ?s1))"
      using 1 True by (metis prod.collapse)
    moreover have "ReplayLog E i to s = ReplayLog E (i + 1) to ?s1"
      using True by (subst ReplayLog.simps) (simp add: case_prod_beta)
    ultimately show ?thesis by (metis mach_step_trans)
  next
    case False
    then show ?thesis by (subst ReplayLog.simps) (simp add: case_prod_beta)
  qed
qed

lemma LogManager_Recover_frame:
  fixes s :: "('d, 'w, 'z) node_scheme"
  shows "acceptor (snd (LogManager_Recover E i s)) = acceptor s"
    and "proposer (snd (LogManager_Recover E i s)) = proposer s"
    and "learner (snd (LogManager_Recover E i s)) = learner s"
    and "db (snd (LogManager_Recover E i s)) = db s"
  by (simp_all add: LogManager_Recover_def Let_def case_prod_beta
      mach_step_node(1-3) [OF ReplayLog_step] mach_step_logs(1) [OF ReplayLog_step])

lemma ReadFromDB_ok:
  assumes "storage_ok E contents" and "records_ok E (contents (db s))" and "keys_ok E (contents (db s))"
    and "accepted_ballot (acceptor s) \<le> promised_ballot (acceptor s)"
    and "Acceptor_ReadFromDB E s = (True, s')"
  shows "accepted_ballot (acceptor s') \<le> promised_ballot (acceptor s')"
    and "proposer s' = proposer s" "learner s' = learner s"
proof -
  let ?ids = "dom (log_of E (contents (db s))) - {kMinChosenKey}"
  note max = DB_GetMaxInstanceId_eq [OF assms(1,3)]
  show "proposer s' = proposer s" "learner s' = learner s"
    using assms(5) by (auto simp: Acceptor_ReadFromDB_def Let_def case_prod_beta split: if_splits)
  show "accepted_ballot (acceptor s') \<le> promised_ballot (acceptor s')"
  proof (cases "?ids = {}")
    case True
    with max assms(4,5) show ?thesis by (auto simp: Acceptor_ReadFromDB_def Let_def)
  next
    case False
    define i where "i = Max ?ids"
    have fin: "finite ?ids" by simp
    have "i \<in> ?ids" unfolding i_def by (rule Max_in [OF fin False])
    then obtain str where str: "log_of E (contents (db s)) i = Some str" "i \<noteq> kMinChosenKey" by auto
    then have "record_ok (snd (parse_instance E str))" using assms(2) by (auto simp: records_ok_def)
    moreover have "DB_Get E i (db s) = (0, str)" by (rule db.get_found [OF assms(1) str(1)])
    moreover have "DB_GetMaxInstanceId E (db s) = (0, Some i)"
      unfolding i_def using max False by (simp only: Let_def if_False)
    ultimately show ?thesis using assms(5) by (auto simp: Acceptor_ReadFromDB_def record_ok_def Let_def)
  qed
qed

text \<open>
  C9. A node that has recovered from such a log is ready: its roles are at one instance, its
  acceptor has promised at least what it accepted, and the first ballot of its proposer is
  above everything its own acceptor has promised, whatever the node ids are.
\<close>

theorem Instance_Recover_ready:
  assumes "storage_ok E contents" and "records_ok E (contents (db s))" and "keys_ok E (contents (db s))"
    and "acceptor s = Acceptor_new" and "Instance_Recover E s = (True, s')"
    and "GetProposalId (promised_ballot (acceptor s')) \<noteq> - 1"
  shows "node_ok s' \<and> promised_ballot (acceptor s') < BallotNumber (proposal_id (proposer s')) n"
proof -
  obtain ok i s1 where r: "Acceptor_Recover E (instance_id s) s = ((ok, i), s1)" by (metis prod.collapse)
  with assms(5) have ok by (auto simp: Instance_Recover_def split: if_splits)
  with r have read: "Acceptor_ReadFromDB E s = (True, s1)"
    by (auto simp: Acceptor_Recover_def split: prod.splits)
  have le: "accepted_ballot (acceptor s1) \<le> promised_ballot (acceptor s1)"
    by (rule ReadFromDB_ok(1) [OF assms(1-3) _ read]) (simp add: assms(4) Acceptor_new_def)
  let ?l = "LogManager_Recover E i (s1\<lparr>instance_id := i\<rparr>)"
  let ?j = "snd (fst ?l)" and ?s2 = "snd ?l"
  let ?a = "Acceptor_SetInstanceId ?j (acceptor s1)"
  have s': "s' = ?s2\<lparr>instance_id := ?j, acceptor := ?a, learner := (learner s1)\<lparr>lrn_instance_id := ?j\<rparr>,
      proposer := (proposer s1)\<lparr>pro_instance_id := ?j, proposal_id := GetProposalId (promised_ballot ?a) + 1\<rparr>\<rparr>"
    using assms(5) r \<open>ok\<close>
    by (auto simp: Instance_Recover_def case_prod_beta Let_def LogManager_Recover_frame split: if_splits)
  have "accepted_ballot ?a \<le> promised_ballot ?a" "acc_instance_id ?a = ?j"
    using le by (auto simp: Acceptor_SetInstanceId_def)
  moreover have "b < BallotNumber (GetProposalId b + 1) n" if "GetProposalId b \<noteq> - 1" for b
    using less_plus_one_u64 [OF that] by (cases b) (simp add: ballot_less_iff)
  ultimately show ?thesis using assms(6) by (simp add: s' node_ok_def)
qed

end
