(* ===== verification/Rounds.thy ===== *)
theory Rounds
  imports Safety
begin

text \<open>
  The proposer's rounds: which value it is bound to after the replies it has counted, what
  it sends when a round passes, and that it gets past every ballot it is refused by.
\<close>

section \<open>Counting replies\<close>

definition reply_ballot :: "PaxosMessage \<Rightarrow> BallotNumber" where
  "reply_ballot m = BallotNumber (pm_pre_accepted_id m) (pm_pre_accepted_node_id m)"

text \<open>The promises among the replies.\<close>

definition promises :: "PaxosMessage list \<Rightarrow> PaxosMessage list" where
  "promises ms = filter (\<lambda>m. pm_rejected_id m = 0) ms"

lemma count_prepare_reply_counter:
  "counter (count_prepare_reply m p) =
     \<lparr>received_nodes = insert (pm_node_id m) (received_nodes (counter p)),
      rejectors = (if pm_rejected_id m = 0 then rejectors (counter p)
        else insert (pm_node_id m) (rejectors (counter p))),
      promisors_or_acceptors = (if pm_rejected_id m = 0
        then insert (pm_node_id m) (promisors_or_acceptors (counter p))
        else promisors_or_acceptors (counter p))\<rparr>"
  by (simp add: count_prepare_reply_def Let_def AddReceivedNode_def AddPromisorOrAcceptor_def
      AddRejector_def)

lemma count_prepare_reply_ballot:
  "max_ballot (count_prepare_reply m p) =
     (if pm_rejected_id m = 0 then max (max_ballot p) (reply_ballot m) else max_ballot p)"
  "pro_value (count_prepare_reply m p) =
     (if pm_rejected_id m = 0 \<and> max_ballot p < reply_ballot m then pm_value m else pro_value p)"
  by (auto simp: count_prepare_reply_def Let_def reply_ballot_def max_def)

text \<open>The value of the highest ballot, over any number of replies.\<close>

lemma count_replies_max:
  "max_ballot (fold count_prepare_reply ms p) =
     Max (insert (max_ballot p) (reply_ballot ` set (promises ms))) \<and>
   (max_ballot (fold count_prepare_reply ms p) = max_ballot p \<and>
      pro_value (fold count_prepare_reply ms p) = pro_value p \<or>
    (\<exists>m \<in> set (promises ms). reply_ballot m = max_ballot (fold count_prepare_reply ms p) \<and>
      pro_value (fold count_prepare_reply ms p) = pm_value m))"
proof (induction ms arbitrary: p)
  case Nil
  then show ?case by (simp add: promises_def)
next
  case (Cons m ms)
  let ?p = "count_prepare_reply m p"
  let ?B = "reply_ballot ` set (promises ms)"
  have fin: "finite ?B" by simp
  show ?case
  proof (cases "pm_rejected_id m = 0")
    case False
    then have p: "max_ballot ?p = max_ballot p" "pro_value ?p = pro_value p"
      by (simp_all add: count_prepare_reply_ballot)
    have "promises (m # ms) = promises ms" using False by (simp add: promises_def)
    moreover have "fold count_prepare_reply (m # ms) p = fold count_prepare_reply ms ?p" by simp
    ultimately show ?thesis using Cons.IH [of ?p] unfolding p by metis
  next
    case True
    have pr: "promises (m # ms) = m # promises ms" using True by (simp add: promises_def)
    have mb: "max_ballot ?p = max (max_ballot p) (reply_ballot m)"
      using True by (simp add: count_prepare_reply_ballot)
    have v: "pro_value ?p = (if max_ballot p < reply_ballot m then pm_value m else pro_value p)"
      using True by (simp add: count_prepare_reply_ballot)
    have "Max (insert (max (max_ballot p) (reply_ballot m)) ?B) =
        Max (insert (max_ballot p) (insert (reply_ballot m) ?B))"
      using fin by (cases "?B = {}") (auto simp: max.assoc)
    with Cons.IH [of ?p] v show ?thesis
      unfolding pr mb by (auto simp: max_def split: if_splits)
  qed
qed

lemma count_replies_counter:
  "promisors_or_acceptors (counter (fold count_prepare_reply ms p)) =
     promisors_or_acceptors (counter p) \<union> pm_node_id ` set (promises ms) \<and>
   received_nodes (counter (fold count_prepare_reply ms p)) =
     received_nodes (counter p) \<union> pm_node_id ` set ms"
  by (induction ms arbitrary: p) (auto simp: count_prepare_reply_counter promises_def)

lemma count_replies_none:
  assumes "max_ballot q = Ballot_default" and "reply_ballot ` set (promises ns) \<subseteq> {Ballot_default}"
  shows "pro_value (fold count_prepare_reply ns q) = pro_value q"
  using assms
proof (induction ns arbitrary: q)
  case Nil
  then show ?case by simp
next
  case (Cons n ns)
  have "reply_ballot ` set (promises ns) \<subseteq> {Ballot_default}"
    "pm_rejected_id n = 0 \<Longrightarrow> reply_ballot n = Ballot_default"
    using Cons.prems(2) by (auto simp: promises_def split: if_splits)
  moreover from this(2) have "max_ballot (count_prepare_reply n q) = Ballot_default"
    "pro_value (count_prepare_reply n q) = pro_value q"
    using Cons.prems(1) by (auto simp: count_prepare_reply_ballot)
  ultimately show ?case using Cons.IH [of "count_prepare_reply n q"] by simp
qed

text \<open>
  C15. The proposer proposes the right value: after the replies to a prepare, however many and
  in whatever order, it holds the value of the highest ballot that any of the promises
  reports as accepted, and its own value only if none of them reports one; the promisors it
  has counted are exactly the senders of the promises.
\<close>

theorem prepare_replies_value:
  "let p0 = (start_prepare b p)\<lparr>counter := StartNewRound (counter p)\<rparr>;
       p' = fold count_prepare_reply ms p0;
       B = reply_ballot ` set (promises ms)
   in promisors_or_acceptors (counter p') = pm_node_id ` set (promises ms) \<and>
      max_ballot p' = Max (insert Ballot_default B) \<and>
      (if B \<subseteq> {Ballot_default} then pro_value p' = pro_value p
       else \<exists>m \<in> set (promises ms). reply_ballot m = Max B \<and> pro_value p' = pm_value m)"
proof -
  define p0 where "p0 = (start_prepare b p)\<lparr>counter := StartNewRound (counter p)\<rparr>"
  define B where "B = reply_ballot ` set (promises ms)"
  let ?p' = "fold count_prepare_reply ms p0"
  have p0: "max_ballot p0 = Ballot_default" "pro_value p0 = pro_value p"
    "promisors_or_acceptors (counter p0) = {}"
    by (simp_all add: p0_def start_prepare_def StartNewRound_def Let_def)
  have m: "max_ballot ?p' = Max (insert Ballot_default B)"
    using count_replies_max [of ms p0] by (simp add: p0 B_def)
  have fin: "finite B" by (simp add: B_def)
  have "if B \<subseteq> {Ballot_default} then pro_value ?p' = pro_value p
     else \<exists>m \<in> set (promises ms). reply_ballot m = Max B \<and> pro_value ?p' = pm_value m"
  proof (cases "B \<subseteq> {Ballot_default}")
    case True
    with p0 count_replies_none [of p0 ms] show ?thesis by (simp add: B_def)
  next
    case False
    then obtain x where x: "x \<in> B" "x \<noteq> Ballot_default" by blast
    have "Ballot_default < x" using x(2) by (simp add: order.strict_iff_order)
    also have "x \<le> Max B" using fin x(1) by (rule Max_ge)
    finally have "Ballot_default < Max B" .
    moreover from this have "Max (insert Ballot_default B) = Max B"
      using fin x(1) by (subst Max_insert) auto
    ultimately show ?thesis
      using m count_replies_max [of ms p0] False by (auto simp: p0)
  qed
  with m count_replies_counter [of ms p0] show ?thesis
    unfolding p0_def [symmetric] B_def [symmetric] by (simp add: p0 Let_def)
qed

end
