(* ===== verification/Configs.thy ===== *)
theory Configs
  imports Logs
begin

text \<open>
  The constructor and the recovery of \<^verbatim>\<open>Config\<close>, \<^verbatim>\<open>src/paxos/config.cc\<close>,
  with \<^verbatim>\<open>DB::Open\<close>: the paths of a group, the registration of its machines, and the
  order in which directories, database and machines are brought up.
\<close>

section \<open>Paths\<close>

text \<open>The name of the group's directory: printed into a buffer of eight characters, with a
  slash in front unless the storage path ends in one. The last character of an empty path is
  out of range.\<close>

definition group_name :: "string \<Rightarrow> u32 \<Rightarrow> string option" where
  "group_name path group_id =
     (if path = [] then None
      else Some (take 7 ((if last path \<noteq> CHR ''/'' then ''/g'' else ''g'') @ to_string (unat group_id))))"

text \<open>The constants of the configuration; the last two fields belong to
  \<^verbatim>\<open>Group\<close>, which copies them from the same options.\<close>

definition Config_options :: "u64 \<Rightarrow> u32 \<Rightarrow> GroupOptions \<Rightarrow> config option" where
  "Config_options node_id group_id options =
     (case group_name (log_storage_path options) group_id of
        None \<Rightarrow> None
      | Some name \<Rightarrow>
         (let path = log_storage_path options @ name
          in Some \<lparr>cfg_node_id = node_id, cfg_group_id = group_id,
               cfg_propose_timeout = propose_timeout options,
               cfg_keep_checkpoint_count = keep_checkpoint_count options,
               cfg_log_sync = log_sync options, cfg_sync_interval = sync_interval options,
               cfg_keep_log_count = keep_log_count options,
               cfg_log_storage_path = path, cfg_log_path = path @ ''/log'',
               cfg_checkpoint_path = path @ ''/checkpoint'',
               cfg_temp_checkpoint_path = path @ ''/checkpoint/tempcheckpoint'',
               cfg_use_master = use_master options, cfg_lease_timeout = master_lease_time options\<rparr>))"

section \<open>Construction\<close>

text \<open>The constructor's effects: the directory of the options' path, and the registry with
  the user's machines before the two built-in ones. \<open>d\<close> is the null database pointer.\<close>

definition Config_new ::
    "('d, 'w) env \<Rightarrow> GroupOptions \<Rightarrow> (loop_name \<Rightarrow> u64) \<Rightarrow> u64 \<Rightarrow> 'd \<Rightarrow> 'w \<Rightarrow> ('d, 'w) logs" where
  "Config_new E options born uninit d w =
     (let w1 = snd (CreateDir E (log_storage_path options) w);
          s = MachineManager_new born uninit (MembershipMachine_new (opt_membership options)) w1;
          s1 = fold (\<lambda>i. AddMachine i User_machine) (opt_machines options) s;
          s2 = AddMachine 2 Master_machine (AddMachine 1 Membership_machine s1)
      in mach.extend s2 (logs.fields d 0 0 False (0, 0)))"

section \<open>Recovery\<close>

definition DB_Open ::
    "('d, 'w) env \<Rightarrow> string \<Rightarrow> ('d, 'w, 'z) logs_scheme \<Rightarrow> int \<times> ('d, 'w, 'z) logs_scheme" where
  "DB_Open E name s =
     (case ldb_open E (1024 * 1024 + cfg_group_id E * 10 * 1024) name (world s) of
        ((st, d), w) \<Rightarrow> (if st \<noteq> LOk then -1 else 0, s\<lparr>db := d, world := w\<rparr>))"

definition Config_Recover ::
    "('d, 'w) env \<Rightarrow> ('d, 'w, 'z) logs_scheme \<Rightarrow> (bool \<times> ('d, 'w, 'z) logs_scheme) option" where
  "Config_Recover E s =
     (let s1 = snd (in_world (CreateDir E (cfg_log_storage_path E)) s);
          s2 = snd (in_world (CreateDir E (cfg_checkpoint_path E)) s1);
          s3 = snd (in_world (CreateDir E (cfg_temp_checkpoint_path E)) s2)
      in if \<not> FileExists E (cfg_checkpoint_path E) (world s3) \<or>
            \<not> FileExists E (cfg_temp_checkpoint_path E) (world s3) then Some (False, s3)
         else (case DB_Open E (cfg_log_path E) s3 of
            (res, s4) \<Rightarrow> (if res \<noteq> 0 then Some (False, s4) else MachineManager_Recover E s4)))"

lemmas [op_defs] = group_name_def Config_options_def Config_new_def DB_Open_def Config_Recover_def

section \<open>Groups do not share a directory\<close>

lemma group_name_full:
  assumes "path \<noteq> []" and "unat g < 10 ^ 5"
  shows "group_name path g =
    Some ((if last path \<noteq> CHR ''/'' then ''/g'' else ''g'') @ to_string (unat g))"
proof -
  have "length (to_string (unat g)) \<le> 5" using to_string_length [of "unat g" 4] assms(2) by simp
  with assms(1) show ?thesis by (simp add: group_name_def)
qed

text \<open>
  C37. Two groups of a node, with the same storage path, have different directories, hence
  different logs and checkpoints, as long as their ids have at most five digits; beyond that
  the buffer for the name is too short, and groups 100000 and 100001 of a path without a final
  slash share one.
\<close>

theorem group_paths_distinct:
  assumes "Config_options n g opts = Some c" and "Config_options n g' opts = Some c'"
    and "unat g < 10 ^ 5" and "unat g' < 10 ^ 5" and "g \<noteq> g'"
  shows "cfg_log_path c \<noteq> cfg_log_path c' \<and> cfg_checkpoint_path c \<noteq> cfg_checkpoint_path c' \<and>
    cfg_temp_checkpoint_path c \<noteq> cfg_temp_checkpoint_path c'"
proof -
  have ne: "log_storage_path opts \<noteq> []"
    using assms(1) by (auto simp: Config_options_def group_name_def split: if_splits)
  have "unat g \<noteq> unat g'" using assms(5) by (simp add: word_unat_eq_iff)
  then show ?thesis
    using assms(1,2) group_name_full [OF ne assms(3)] group_name_full [OF ne assms(4)]
    by (auto simp: Config_options_def Let_def)
qed

lemma group_names_collide: "group_name ''db'' 100000 = group_name ''db'' 100001"
  by (simp add: group_name_def to_string.simps)

section \<open>The registry\<close>

lemma AddMachine_registry:
  assumes "map_of (machines s) i = None"
  shows "map_of (machines (AddMachine i m s)) = (map_of (machines s))(i \<mapsto> m)"
    and "aborted (AddMachine i m s) = aborted s"
proof -
  have "map_of (insort_key fst (i, m) xs) = (map_of xs)(i \<mapsto> m)" if "map_of xs i = None"
    for xs :: "(u32 \<times> machine) list"
    using that by (induction xs) (auto simp: fun_eq_iff split: if_splits)
  with assms show "map_of (machines (AddMachine i m s)) = (map_of (machines s))(i \<mapsto> m)"
    "aborted (AddMachine i m s) = aborted s"
    by (simp_all add: AddMachine_def)
qed

lemma AddMachines_registry:
  assumes "distinct ids" and "\<forall>i \<in> set ids. map_of (machines s) i = None"
  shows "map_of (machines (fold (\<lambda>i. AddMachine i User_machine) ids s)) =
      (\<lambda>i. if i \<in> set ids then Some User_machine else map_of (machines s) i) \<and>
    aborted (fold (\<lambda>i. AddMachine i User_machine) ids s) = aborted s"
  using assms
proof (induction ids arbitrary: s)
  case (Cons i ids)
  let ?s = "AddMachine i User_machine s"
  have s: "map_of (machines ?s) = (map_of (machines s))(i \<mapsto> User_machine)" "aborted ?s = aborted s"
    using AddMachine_registry [of s i User_machine] Cons.prems by simp_all
  have "\<forall>j \<in> set ids. map_of (machines ?s) j = None" using Cons.prems by (auto simp: s)
  with Cons.IH [of ?s] Cons.prems(1) show ?case by (auto simp: s fun_eq_iff)
qed simp

text \<open>
  The registry of a group holds exactly the user's machines and the two built-in ones,
  the membership machine under 1 and the master machine under 2, when the user's ids are
  distinct and avoid these two; no assertion fails on the way.
\<close>

theorem Config_new_machines:
  assumes "distinct (opt_machines opts)" and "1 \<notin> set (opt_machines opts)" and "2 \<notin> set (opt_machines opts)"
  shows "map_of (machines (Config_new E opts born uninit d w)) =
      (\<lambda>i. if i = 1 then Some Membership_machine else if i = 2 then Some Master_machine
           else if i \<in> set (opt_machines opts) then Some User_machine else None) \<and>
    \<not> aborted (Config_new E opts born uninit d w)"
proof -
  define s where "s = MachineManager_new born uninit (MembershipMachine_new (opt_membership opts))
    (snd (CreateDir E (log_storage_path opts) w))"
  define s1 where "s1 = fold (\<lambda>i. AddMachine i User_machine) (opt_machines opts) s"
  have s: "machines s = []" "\<not> aborted s" by (simp_all add: s_def MachineManager_new_def)
  have s1: "map_of (machines s1) = (\<lambda>i. if i \<in> set (opt_machines opts) then Some User_machine else None)"
    "\<not> aborted s1"
    using AddMachines_registry [OF assms(1), of s] s by (auto simp: s1_def fun_eq_iff)
  let ?s2 = "AddMachine 1 Membership_machine s1"
  have s2: "map_of (machines ?s2) = (map_of (machines s1))(1 \<mapsto> Membership_machine)" "\<not> aborted ?s2"
    using AddMachine_registry [of s1 1 Membership_machine] s1 assms(2) by simp_all
  let ?s3 = "AddMachine 2 Master_machine ?s2"
  have s3: "map_of (machines ?s3) = (map_of (machines ?s2))(2 \<mapsto> Master_machine)" "\<not> aborted ?s3"
    using AddMachine_registry [of ?s2 2 Master_machine] s1 s2 assms(3) by simp_all
  have "machines (Config_new E opts born uninit d w) = machines ?s3"
    "aborted (Config_new E opts born uninit d w) = aborted ?s3"
    by (simp_all add: Config_new_def Let_def mach.defs s_def s1_def)
  with s1 s2 s3 assms show ?thesis by (auto simp: fun_eq_iff)
qed

end
