(* ===== verification/PaxosGroup.thy ===== *)
theory PaxosGroup
  imports Instances Configs
begin

text \<open>
  \<^verbatim>\<open>Group\<close>, \<^verbatim>\<open>src/paxos/group.cc\<close>: the propose queue in front of the
  instance, membership changes, master election, and the closures its loops run. A call of
  \<^verbatim>\<open>TryBeMaster\<close> blocks the thread that makes it until the proposal is complete; it is
  split there, at \<^verbatim>\<open>cond_.wait\<close>.
\<close>

section \<open>State\<close>

datatype master_task = TryBeMasterTimer | RetireTask

record ('d, 'w) group = "('d, 'w) node" +
  retrie_master :: bool
  group_now :: u64
  group_timer :: TimerId
  propose_end :: bool
  propose_result :: Status
  master_waiting :: bool
  master_loop :: "master_task runloop"

definition kMembershipMachineId :: u32 where
  "kMembershipMachineId = 1"

definition kMasterMachineId :: u32 where
  "kMasterMachineId = 2"

section \<open>Construction and start\<close>

text \<open>The constructor: the queue in front of the instance has capacity 100. The seeds of the
  two generators, the times at which its loops were made, the uninitialised fields and the null database are arguments.\<close>

definition Group_new ::
    "('d, 'w) env \<Rightarrow> GroupOptions \<Rightarrow> u32 \<Rightarrow> u32 \<Rightarrow> (loop_name \<Rightarrow> u64) \<Rightarrow> u64 \<Rightarrow> CheckpointReceiver \<Rightarrow> 'd \<Rightarrow> 'w \<Rightarrow> ('d, 'w) group" where
  "Group_new E options seed1 seed2 born uninit rcv d w =
     node.extend
       (Instance_new seed1 seed2 born rcv (ProposeQueue_new 100) (Config_new E options born uninit d w))
       (group.fields False 0 (0, 0) False Status_OK False (RunLoop_new (born MasterLoop)))"

text \<open>A group recovers before \<^verbatim>\<open>SetNewMembershipCallback\<close> and
  \<^verbatim>\<open>SetNewMasterCallback\<close>: its machines call nobody yet.\<close>

definition quiet :: "('d, 'w) env \<Rightarrow> ('d, 'w) env" where
  "quiet E = E\<lparr>membership_cb := None, master_cb := None\<rparr>"

definition Group_Recover ::
    "('d, 'w) env \<Rightarrow> ('d, 'w, 'z) group_scheme \<Rightarrow> (bool \<times> ('d, 'w, 'z) group_scheme) option" where
  "Group_Recover E s =
     (case Config_Recover E s of
        None \<Rightarrow> None
      | Some (ok, s1) \<Rightarrow> if ok then Some (Instance_Recover E s1) else Some (False, s1))"

text \<open>\<^verbatim>\<open>Start\<close> hands the loops to the parts of the group. A loop may serve other
  groups too; their closures do not touch this group's state, so each group is modelled with
  its own part of the loops, and what remains of the method is that the io loop is known to
  the configuration.\<close>

definition Group_Start :: "('d, 'w, 'z) group_scheme \<Rightarrow> ('d, 'w, 'z) group_scheme" where
  "Group_Start s = s\<lparr>io_loop_set := True\<rparr>"

definition Group_StartGC :: "('d, 'w) env \<Rightarrow> ('d, 'w, 'z) group_scheme \<Rightarrow> ('d, 'w, 'z) group_scheme" where
  "Group_StartGC E s = StartGC E s"

definition Group_StopGC :: "('d, 'w, 'z) group_scheme \<Rightarrow> ('d, 'w, 'z) group_scheme" where
  "Group_StopGC s = StopGC s"

section \<open>Proposals\<close>

text \<open>\<^verbatim>\<open>propose_queue_.Put\<close>.\<close>

definition queue_Put ::
    "io_task \<Rightarrow> complete_cb \<Rightarrow> ('d, 'w, 'z) node_scheme \<Rightarrow> bool \<times> ('d, 'w, 'z) node_scheme" where
  "queue_Put f cb s =
     (case ProposeQueue_Put f cb (io_loop s) (queue s) of
        (res, io, q) \<Rightarrow> (res, s\<lparr>io_loop := io, queue := q\<rparr>))"

definition Group_OnPropose ::
    "u32 \<Rightarrow> bytes \<Rightarrow> ctx_ptr \<Rightarrow> complete_cb \<Rightarrow> ('d, 'w, 'z) node_scheme \<Rightarrow> bool \<times> ('d, 'w, 'z) node_scheme" where
  "Group_OnPropose machine_id value ctx cb s = queue_Put (ProposeTask machine_id value ctx) cb s"

definition Group_OnContent :: "Content \<Rightarrow> ('d, 'w, 'z) node_scheme \<Rightarrow> ('d, 'w, 'z) node_scheme" where
  "Group_OnContent content s =
     s\<lparr>io_loop := RunLoop_QueueInLoop (Func (ContentTask content)) (io_loop s)\<rparr>"

definition change_message :: "(Member \<times> bool) list \<Rightarrow> MemberChangeMessage" where
  "change_message value =
     \<lparr>mc_member = map (\<lambda>(m, _). member_message m) value,
      mc_type = map (\<lambda>(_, add). if add then MEMBER_ADD else MEMBER_REMOVE) value\<rparr>"

definition ChangeMember ::
    "('d, 'w) env \<Rightarrow> (Member \<times> bool) list \<Rightarrow> ctx_ptr \<Rightarrow> complete_cb \<Rightarrow> ('d, 'w, 'z) node_scheme \<Rightarrow>
      bool \<times> ('d, 'w, 'z) node_scheme" where
  "ChangeMember E value ctx cb s =
     Group_OnPropose kMembershipMachineId (ser_change E (change_message value)) ctx cb s"

section \<open>Queries\<close>

definition message_member :: "MemberMessage \<Rightarrow> Member" where
  "message_member m = \<lparr>id_of = mb_id m, host_of = mb_host m, port_of = ucast (mb_port m),
     context_of = mb_context m\<rparr>"

definition Group_GetMembership :: "('w, 'z) mach_scheme \<Rightarrow> Member list \<times> u64" where
  "Group_GetMembership s =
     (map (\<lambda>(_, m). message_member m) (ms_members (membership s)), ms_version (membership s))"

text \<open>The member, with the version; \<^const>\<open>None\<close> is the result false.\<close>

definition Group_GetMaster :: "('d, 'w) env \<Rightarrow> ('w, 'z) mach_scheme \<Rightarrow> (Member \<times> u64) option" where
  "Group_GetMaster E s =
     (case MasterMachine_GetMaster E (master s) (world s) of
        None \<Rightarrow> None
      | Some (node_id, version) \<Rightarrow>
         (case map_of (ms_members (membership s)) node_id of
            None \<Rightarrow> None
          | Some m \<Rightarrow> Some (message_member m, version)))"

definition Group_IsMaster :: "('d, 'w) env \<Rightarrow> ('w, 'z) mach_scheme \<Rightarrow> bool" where
  "Group_IsMaster E s = MasterMachine_IsMaster E (master s) (world s)"

section \<open>Master election\<close>

definition TryBeMasterInLoop ::
    "('d, 'w) env \<Rightarrow> ('d, 'w, 'z) group_scheme \<Rightarrow> ('d, 'w, 'z) group_scheme" where
  "TryBeMasterInLoop E s =
     (let state = master s;
          (now, s1) = in_world (NowMillis E) s;
          s2 = s1\<lparr>group_now := now\<rparr>
      in if mst_lease_time state \<le> now \<or> mst_node_id state = cfg_node_id E then
           Instance_OnPropose E kMasterMachineId
             (ser_master E (state\<lparr>mst_node_id := cfg_node_id E, mst_lease_time := cfg_lease_timeout E\<rparr>))
             (NowContext now) s2
         else propose_cb (instance_id s2) (Status_Conflict ''Already has master'') Null s2)"

text \<open>The end of \<^verbatim>\<open>TryBeMaster\<close>: the next attempt.\<close>

definition schedule_master ::
    "('d, 'w) env \<Rightarrow> bool \<Rightarrow> u64 \<Rightarrow> ('d, 'w, 'z) group_scheme \<Rightarrow> ('d, 'w, 'z) group_scheme" where
  "schedule_master E in_loop next_time s =
     (let (p, s1) = in_world (new_timer E (map fst (timer_heap (timer_list (master_loop s)))))
            (s\<lparr>retrie_master := False\<rparr>);
          (t, l) = RunAt in_loop p next_time TryBeMasterTimer (master_loop s1)
      in s1\<lparr>group_timer := t, master_loop := l\<rparr>)"

text \<open>\<^verbatim>\<open>NewPropose\<close> up to its wait: when the queue takes the proposal the thread stays
  blocked until \<^verbatim>\<open>propose_end_\<close>.\<close>

definition Group_NewPropose ::
    "io_task \<Rightarrow> ('d, 'w, 'z) group_scheme \<Rightarrow> bool \<times> ('d, 'w, 'z) group_scheme" where
  "Group_NewPropose f s =
     (let (res, s1) = queue_Put f GroupComplete (s\<lparr>propose_end := False\<rparr>)
      in (res, if res then s1\<lparr>master_waiting := True\<rparr> else s1))"

text \<open>The first part of \<^verbatim>\<open>TryBeMaster\<close>, up to that wait.\<close>

definition TryBeMaster ::
    "('d, 'w) env \<Rightarrow> bool \<Rightarrow> ('d, 'w, 'z) group_scheme \<Rightarrow> ('d, 'w, 'z) group_scheme" where
  "TryBeMaster E in_loop s =
     (let state = master s;
          (now, s1) = in_world (NowMillis E) s
      in if mst_lease_time state \<le> now \<or> mst_node_id state = cfg_node_id E \<and> \<not> retrie_master s then
           (let (b, s2) = Group_NewPropose MasterTask s1
            in if b then s2
               else
                 (let (now2, s3) = in_world (NowMillis E) s2
                  in schedule_master E in_loop (now2 + cfg_lease_timeout E) s3))
         else schedule_master E in_loop (mst_lease_time state) s1)"

text \<open>The second part, once \<^verbatim>\<open>propose_end_\<close> is set.\<close>

definition TryBeMaster_end ::
    "('d, 'w) env \<Rightarrow> bool \<Rightarrow> ('d, 'w, 'z) group_scheme \<Rightarrow> ('d, 'w, 'z) group_scheme" where
  "TryBeMaster_end E in_loop s =
     (let state = master s;
          next1 = (if Status_ok (propose_result s) then mst_lease_time state - 100
                   else if Status_IsConflict (propose_result s) then mst_lease_time state else 0);
          (next2, s1) = (if next1 = 0
             then (case in_world (NowMillis E) s of (now, s') \<Rightarrow> (now + cfg_lease_timeout E, s'))
             else (next1, s))
      in schedule_master E in_loop next2 (s1\<lparr>master_waiting := False\<rparr>))"

text \<open>The callback \<^verbatim>\<open>NewPropose\<close> binds, run in the callback loop.\<close>

definition Group_ProposeComplete :: "Status \<Rightarrow> ('d, 'w, 'z) group_scheme \<Rightarrow> ('d, 'w, 'z) group_scheme" where
  "Group_ProposeComplete result s = s\<lparr>propose_end := True, propose_result := Status_copy result\<rparr>"

definition RetireMaster ::
    "('d, 'w) env \<Rightarrow> ('d, 'w, 'z) group_scheme \<Rightarrow> ('d, 'w, 'z) group_scheme" where
  "RetireMaster E s =
     (if cfg_use_master E
      then s\<lparr>master_loop := RunLoop_QueueInLoop (Func RetireTask) (master_loop s)\<rparr> else s)"

definition run_RetireTask :: "('d, 'w, 'z) group_scheme \<Rightarrow> ('d, 'w, 'z) group_scheme" where
  "run_RetireTask s = s\<lparr>retrie_master := True\<rparr>"

definition Group_Sync :: "('d, 'w) env \<Rightarrow> ('d, 'w, 'z) group_scheme \<Rightarrow> ('d, 'w, 'z) group_scheme" where
  "Group_Sync E s =
     (let s1 = SyncData True s in if cfg_use_master E then TryBeMaster E False s1 else s1)"

section \<open>The closures of the io loop\<close>

definition run_io_task ::
    "('d, 'w) env \<Rightarrow> io_task \<Rightarrow> ('d, 'w, 'z) group_scheme \<Rightarrow> ('d, 'w, 'z) group_scheme" where
  "run_io_task E t s =
     (case t of
        RetryTimer i \<Rightarrow> run_RetryTimer E (OnPaxosMessage E) i s
      | LearnTimer \<Rightarrow> AskForLearn E True s
      | ProposeTimer \<Rightarrow> run_ProposeTimer s
      | SyncTask b \<Rightarrow> AskForLearn E b s
      | ProposeTask m v c \<Rightarrow> Instance_OnPropose E m v c s
      | MasterTask \<Rightarrow> TryBeMasterInLoop E s
      | ContentTask c \<Rightarrow> Instance_OnContent E c s
      | FinishTask m i r \<Rightarrow> FinishMakeCheckpoint E m i r s)"

text \<open>A closure of the clean loop, and its report to the io loop.\<close>

definition run_clean_task ::
    "('d, 'w) env \<Rightarrow> clean_task \<Rightarrow> ('d, 'w, 'z) node_scheme \<Rightarrow> ('d, 'w, 'z) node_scheme" where
  "run_clean_task E t s =
     (if t = GCLoop then LogCleaner_GCLoop E s
      else (case run_checkpoint_task E t s of
         (None, s1) \<Rightarrow> s1
       | (Some (m, i, b), s1) \<Rightarrow>
          s1\<lparr>io_loop := RunLoop_QueueInLoop (Func (FinishTask m i b)) (io_loop s1)\<rparr>))"

lemmas [op_defs] = Group_new_def Group_Recover_def Group_Start_def Group_StartGC_def Group_StopGC_def
  kMembershipMachineId_def kMasterMachineId_def queue_Put_def Group_OnPropose_def
  Group_OnContent_def change_message_def ChangeMember_def TryBeMasterInLoop_def schedule_master_def
  Group_NewPropose_def TryBeMaster_def TryBeMaster_end_def Group_ProposeComplete_def RetireMaster_def run_RetireTask_def
  Group_Sync_def run_io_task_def run_clean_task_def

end
