(* ===== verification/Loops.thy ===== *)
theory Loops
  imports PaxosGroup Safety
begin

text \<open>
  \<^verbatim>\<open>RunLoop::Loop\<close>, \<^verbatim>\<open>src/util/runloop.cc\<close>: the loop a thread of the pool runs, and
  that it runs the closures of its queue in the order they were queued and loses none. The
  contract of a loop is a locale, interpreted for the io loop of a group. The due timers of the
  clean loop, with the callbacks the code gives them, come to an end.
\<close>

section \<open>The loop\<close>

text \<open>A closure taken from the queue. Those that insert and remove timers work on the loop.\<close>

definition run_func ::
    "('s \<Rightarrow> 'f runloop) \<Rightarrow> ('f runloop \<Rightarrow> 's \<Rightarrow> 's) \<Rightarrow> ('f \<Rightarrow> 's \<Rightarrow> 's) \<Rightarrow> 'f func \<Rightarrow> 's \<Rightarrow> 's" where
  "run_func get put exec f s =
     (case f of
        Func g \<Rightarrow> exec g s
      | InsertTimer t \<Rightarrow> put (RunInLoop_timer True f (get s)) s
      | RemoveTimer t \<Rightarrow> put (RunInLoop_timer True f (get s)) s)"

text \<open>
  One turn, after the wait: the queue is swapped for an empty one, the timers that are due are
  fired, then the closures run. What they queue is left for the next turn.
\<close>

definition Loop_turn ::
    "('s \<Rightarrow> 'f runloop) \<Rightarrow> ('f runloop \<Rightarrow> 's \<Rightarrow> 's) \<Rightarrow> ('f \<Rightarrow> 's \<Rightarrow> 's) \<Rightarrow> ('f \<Rightarrow> 's \<Rightarrow> 's) \<Rightarrow> u64 \<Rightarrow> 's \<Rightarrow> 's option" where
  "Loop_turn get put fire exec now s =
     (let fs = funcs (get s);
          s1 = put ((get s)\<lparr>funcs := []\<rparr>) s
      in case RunTimerProcs (\<lambda>s. timer_list (get s)) (\<lambda>L s. put ((get s)\<lparr>timer_list := L\<rparr>) s) fire now s1 of
           None \<Rightarrow> None
         | Some s2 \<Rightarrow> Some (fold (run_func get put exec) fs s2))"

text \<open>The turns of the loop as long as it is not told to exit. With each turn comes what the
  other threads did since the queue was last swapped, and the time.\<close>

fun loop_turns ::
    "('s \<Rightarrow> 'f runloop) \<Rightarrow> ('f runloop \<Rightarrow> 's \<Rightarrow> 's) \<Rightarrow> ('f \<Rightarrow> 's \<Rightarrow> 's) \<Rightarrow> ('f \<Rightarrow> 's \<Rightarrow> 's) \<Rightarrow>
      (('s \<Rightarrow> 's) \<times> u64) list \<Rightarrow> 's \<Rightarrow> 's option" where
  "loop_turns get put fire exec [] s = Some s"
| "loop_turns get put fire exec ((others, now) # ts) s =
     (if exit_flag (get s) then Some s
      else case Loop_turn get put fire exec now (others s) of
         None \<Rightarrow> None
       | Some s' \<Rightarrow> loop_turns get put fire exec ts s')"

definition RunLoop_Loop ::
    "('s \<Rightarrow> 'f runloop) \<Rightarrow> ('f runloop \<Rightarrow> 's \<Rightarrow> 's) \<Rightarrow> ('f \<Rightarrow> 's \<Rightarrow> 's) \<Rightarrow> ('f \<Rightarrow> 's \<Rightarrow> 's) \<Rightarrow>
      (('s \<Rightarrow> 's) \<times> u64) list \<Rightarrow> 's \<Rightarrow> 's option" where
  "RunLoop_Loop get put fire exec ts s =
     loop_turns get put fire exec ts (put ((get s)\<lparr>exit_flag := False\<rparr>) s)"

section \<open>Closures run in order\<close>

fun users :: "'f func list \<Rightarrow> 'f list" where
  "users [] = []"
| "users (Func g # fs) = g # users fs"
| "users (_ # fs) = users fs"

lemma users_append [simp]: "users (fs @ gs) = users fs @ users gs"
  by (induction fs rule: users.induct) simp_all

text \<open>A rule for what the due timers do to the state.\<close>

lemma RunDue_keeps:
  assumes refl: "\<And>s. R s s" and trans: "\<And>s t u. R s t \<Longrightarrow> R t u \<Longrightarrow> R s u"
    and put: "\<And>L s. R s (put L s)" and fire: "\<And>g s. R s (fire g s)"
  shows "RunDue get put fire now s = Some s' \<Longrightarrow> R s s'"
proof -
  assume run: "RunDue get put fire now s = Some s'"
  have "put = put \<longrightarrow> fire = fire \<longrightarrow> R s s'"
  proof (rule RunDue.raw_induct [where P = "\<lambda>g p f n s s'. p = put \<longrightarrow> f = fire \<longrightarrow> R s s'", OF _ run], intro impI)
    fix rec g p f n s s'
    assume IH: "\<And>g p f n s s'. rec g p f n s = Some s' \<Longrightarrow> p = put \<longrightarrow> f = fire \<longrightarrow> R s s'"
      and step: "(case PopDue n (g s) of None \<Rightarrow> Some s | Some (cb, L) \<Rightarrow> rec g p f n (f cb (p L s))) = Some s'"
      and eq: "p = put" "f = fire"
    show "R s s'"
    proof (cases "PopDue n (g s)")
      case None
      with step refl show ?thesis by simp
    next
      case (Some x)
      then obtain cb L where x: "x = (cb, L)" by fastforce
      with step Some eq have "R (fire cb (put L s)) s'" using IH by simp
      with put fire show ?thesis by (meson trans)
    qed
  qed
  then show ?thesis by simp
qed

lemma RunTimerProcs_keeps:
  assumes "\<And>s. R s s" and "\<And>s t u. R s t \<Longrightarrow> R t u \<Longrightarrow> R s u"
    and "\<And>L s. R s (put L s)" and "\<And>g s. R s (fire g s)"
    and "RunTimerProcs get put fire now s = Some s'"
  shows "R s s'"
proof (cases "timers (get s) = []")
  case True
  with assms(1,5) show ?thesis by (simp add: RunTimerProcs_def)
next
  case False
  with assms(5) have "RunDue get put fire now (put (AdjustTimers now (get s)) s) = Some s'"
    by (simp add: RunTimerProcs_def)
  from RunDue_keeps [of R, OF assms(1-4) this] show ?thesis by (rule assms(2) [OF assms(3)])
qed

text \<open>
  What a loop needs of the state it works on, and of the closures and callbacks it runs: the loop
  can be read and written, closures are only added to the end of the queue. \<open>trace\<close> observes which
  closures the loop has run, \<open>added\<close> which closures were added to the queue.
\<close>

locale event_loop =
  fixes get :: "'s \<Rightarrow> 'f runloop" and put :: "'f runloop \<Rightarrow> 's \<Rightarrow> 's"
    and fire :: "'f \<Rightarrow> 's \<Rightarrow> 's" and exec :: "'f \<Rightarrow> 's \<Rightarrow> 's" and trace :: "'s \<Rightarrow> 'f list"
    and added :: "'s \<Rightarrow> 'f func list"
  assumes get_put: "get (put l s) = l" and trace_put: "trace (put l s) = trace s" and added_put: "added (put l s) = added s"
    and fire_adds: "\<exists>new. funcs (get (fire g s)) = funcs (get s) @ new \<and> added (fire g s) = added s @ new"
    and trace_fire: "trace (fire g s) = trace s"
    and exec_adds: "\<exists>new. funcs (get (exec g s)) = funcs (get s) @ new \<and> added (exec g s) = added s @ new"
    and trace_exec: "trace (exec g s) = trace s @ [g]"
begin

text \<open>The queue has grown at its end, by what was added.\<close>

definition grown :: "'s \<Rightarrow> 's \<Rightarrow> bool" where
  "grown s s' \<longleftrightarrow> (\<exists>new. funcs (get s') = funcs (get s) @ new \<and> added s' = added s @ new)"

lemma grown_trans: "grown s t \<Longrightarrow> grown t u \<Longrightarrow> grown s u"
  by (auto simp: grown_def)

text \<open>What other threads may do: add closures.\<close>

definition adds :: "'s \<Rightarrow> 's \<Rightarrow> bool" where
  "adds s s' \<longleftrightarrow> trace s' = trace s \<and> grown s s'"

lemma adds_trans: "adds s t \<Longrightarrow> adds t u \<Longrightarrow> adds s u"
  using grown_trans by (auto simp: adds_def)

lemma run_func_adds:
  "trace (run_func get put exec f s) = trace s @ users [f] \<and> grown s (run_func get put exec f s)"
  using exec_adds
  by (cases f) (auto simp: run_func_def trace_put trace_exec RunInLoop_timer_def grown_def get_put added_put)

lemma run_funcs_add:
  "trace (fold (run_func get put exec) fs s) = trace s @ users fs \<and> grown s (fold (run_func get put exec) fs s)"
proof (induction fs arbitrary: s)
  case Nil
  then show ?case by (simp add: grown_def)
next
  case (Cons f fs)
  have "users (f # fs) = users [f] @ users fs" by (cases f) simp_all
  with run_func_adds [of f s] Cons.IH [of "run_func get put exec f s"] grown_trans show ?case by fastforce
qed

text \<open>What has run, followed by what is queued, grows at its end by exactly what was added.\<close>

definition in_order :: "'s \<Rightarrow> 's \<Rightarrow> bool" where
  "in_order s s' \<longleftrightarrow>
     (\<exists>new. added s' = added s @ new \<and>
        trace s' @ users (funcs (get s')) = trace s @ users (funcs (get s)) @ users new)"

lemma in_order_trans: "in_order s t \<Longrightarrow> in_order t u \<Longrightarrow> in_order s u"
  unfolding in_order_def by (metis append_assoc users_append)

lemma adds_in_order: "adds s t \<Longrightarrow> in_order s t"
  by (auto simp: adds_def grown_def in_order_def)

lemma Loop_turn_in_order:
  assumes "Loop_turn get put fire exec now s = Some s'"
  shows "in_order s s'"
proof -
  let ?s1 = "put ((get s)\<lparr>funcs := []\<rparr>) s"
  from assms obtain s2 where t: "RunTimerProcs (\<lambda>s. timer_list (get s)) (\<lambda>L s. put ((get s)\<lparr>timer_list := L\<rparr>) s) fire now ?s1 = Some s2"
    and s': "s' = fold (run_func get put exec) (funcs (get s)) s2"
    by (auto simp: Loop_turn_def Let_def split: option.splits)
  have "adds ?s1 s2"
    by (rule RunTimerProcs_keeps [of adds, OF _ adds_trans _ _ t])
      (use fire_adds in \<open>auto simp: adds_def grown_def get_put added_put trace_put trace_fire\<close>)
  then have s2: "trace s2 = trace s" "grown ?s1 s2" by (simp_all add: adds_def trace_put)
  from run_funcs_add [of "funcs (get s)" s2] have "trace s' = trace s2 @ users (funcs (get s))" "grown ?s1 s'"
    using grown_trans [OF s2(2)] unfolding s' by auto
  with s2(1) show ?thesis by (auto simp: in_order_def grown_def get_put added_put)
qed

lemma loop_turns_in_order:
  "(\<And>f now s. (f, now) \<in> set ts \<Longrightarrow> adds s (f s)) \<Longrightarrow> loop_turns get put fire exec ts s = Some s' \<Longrightarrow> in_order s s'"
proof (induction ts arbitrary: s)
  case Nil
  then show ?case by (auto simp: in_order_def)
next
  case (Cons t ts)
  obtain f now where t: "t = (f, now)" by fastforce
  show ?case
  proof (cases "exit_flag (get s)")
    case True
    with Cons.prems(2) t show ?thesis by (auto simp: in_order_def)
  next
    case False
    with Cons.prems(2) t obtain s1 where s1: "Loop_turn get put fire exec now (f s) = Some s1"
      "loop_turns get put fire exec ts s1 = Some s'" by (auto split: option.splits)
    have "in_order s (f s)" using Cons.prems(1) [of f now s] t by (auto intro: adds_in_order)
    moreover have "in_order s1 s'" using Cons.IH [OF _ s1(2)] Cons.prems(1) by auto
    ultimately show ?thesis using Loop_turn_in_order [OF s1(1)] by (meson in_order_trans)
  qed
qed

lemma Loop_in_order:
  assumes "\<And>f now s. (f, now) \<in> set ts \<Longrightarrow> adds s (f s)" and "RunLoop_Loop get put fire exec ts s = Some s'"
  shows "in_order s s'"
proof -
  have "in_order s (put ((get s)\<lparr>exit_flag := False\<rparr>) s)" by (simp add: in_order_def get_put trace_put added_put)
  moreover have "in_order (put ((get s)\<lparr>exit_flag := False\<rparr>) s) s'"
    by (rule loop_turns_in_order [of ts]) (use assms in \<open>auto simp: RunLoop_Loop_def\<close>)
  ultimately show ?thesis by (rule in_order_trans)
qed

end

section \<open>The io loop of a group\<close>

text \<open>The handlers of the instance only add closures to the io loop.\<close>

definition io_adds :: "('d, 'w, 'z) node_scheme \<Rightarrow> ('d, 'w, 'z) node_scheme \<Rightarrow> bool" where
  "io_adds s s' \<longleftrightarrow> (\<exists>new. funcs (io_loop s') = funcs (io_loop s) @ new)"

lemma io_adds_same: "funcs (io_loop s') = funcs (io_loop s) \<Longrightarrow> io_adds s s'"
  by (simp add: io_adds_def)

lemma io_adds_trans: "io_adds s t \<Longrightarrow> io_adds t u \<Longrightarrow> io_adds s u"
  by (auto simp: io_adds_def)

lemma io_RunAfter_funcs [simp]: "funcs (io_loop (snd (io_RunAfter E d cb s))) = funcs (io_loop s)"
  by (simp add: io_RunAfter_def Let_def case_prod_beta RunAfter_def schedule_def RunInLoop_timer_def)

lemma io_Remove_funcs [simp]: "funcs (io_loop (io_Remove t s)) = funcs (io_loop s)"
  by (simp add: io_Remove_def RunLoop_Remove_def RunInLoop_timer_def)

lemma io_adds_propose_cb: "io_adds s (propose_cb i st c s)"
  by (auto simp: io_adds_def propose_cb_def ProposeQueue_ProposeComplete_def RunLoop_QueueInLoop_def abort_def Let_def
      split: option.splits list.splits if_splits)

lemma io_adds_CheckLearn: "io_adds s (CheckLearn E s)"
proof (cases "has_learned (learner s)")
  case True
  let ?v = "learned_value (learner s)" and ?my = "is_proposing s \<and> pv_value_id (propose_value s) = pv_value_id (learned_value (learner s))"
  let ?x = "MachineExecute E ?v ?my (if is_proposing s then io_Remove (propose_timer s) s else s)"
  let ?t = "propose_cb (instance_id (snd ?x)) (learn_status (fst ?x) ?my ?v) (context_ptr (snd ?x)) (snd ?x)"
  have x: "funcs (io_loop (snd ?x)) = funcs (io_loop s)" by simp
  have "io_adds (snd ?x) ?t" by (rule io_adds_propose_cb)
  with x have "io_adds s ?t" by (simp add: io_adds_def)
  with x show ?thesis
    using True by (auto simp: CheckLearn_def Let_def case_prod_beta io_adds_def Instance_NextInstance_def
        Learner_NextInstance_def SetMaxChosenInstanceId_def)
next
  case False
  then show ?thesis by (simp add: CheckLearn_def io_adds_same)
qed

interpretation io_queue: handler_invariant E io_adds for E :: "('d, 'w) env"
proof unfold_locales
  fix s t u :: "('d, 'w, 'z) node_scheme"
  show "io_adds s t \<Longrightarrow> io_adds t u \<Longrightarrow> io_adds s u" by (rule io_adds_trans)
  show "io_adds s (snd (Acceptor_WriteToDB E (s\<lparr>acceptor := a\<rparr>)))" for a
    by (rule io_adds_same) (simp add: Acceptor_WriteToDB_def Let_def case_prod_beta)
  show "io_adds s (snd (Learner_WriteToDB E msg s))" for msg
    by (rule io_adds_same) (simp add: Learner_WriteToDB_def Let_def case_prod_beta)
qed (auto intro: io_adds_same io_adds_CheckLearn)

lemma io_adds_OnPropose: "io_adds s (Instance_OnPropose E m v c s)"
proof -
  let ?g = "GetPaxosValueId E (s\<lparr>is_proposing := True, context_ptr := c\<rparr>)"
  let ?v = "\<lparr>pv_value_id = fst ?g, pv_machine_id = m, pv_user_data = v\<rparr>"
  let ?t = "io_RunAfter E (cfg_propose_timeout E) ProposeTimer ((snd ?g)\<lparr>propose_value := ?v\<rparr>)"
  have "io_adds s ((snd ?t)\<lparr>propose_timer := fst ?t\<rparr>)"
    by (rule io_adds_same) (simp add: GetPaxosValueId_def in_world_def Let_def case_prod_beta)
  from io_adds_trans [OF this io_queue.R_NewPropose] show ?thesis
    by (auto simp: Instance_OnPropose_def case_prod_beta Let_def io_adds_propose_cb intro: io_adds_same)
qed

lemma io_adds_ProposeTimer: "io_adds s (run_ProposeTimer s)"
proof -
  let ?s = "(QuitPropose s)\<lparr>is_proposing := False\<rparr>"
  have "io_adds s ?s" by (rule io_adds_same) (simp add: QuitPropose_def RemoveRetryTimer_def)
  from io_adds_trans [OF this io_adds_propose_cb]
  have "io_adds s (propose_cb i st k ?s)" for i st k .
  then show ?thesis by (simp add: run_ProposeTimer_def Let_def io_adds_def)
qed

lemma io_adds_OnSendCheckpoint: "io_adds s (OnSendCheckpoint E msg s)"
proof -
  have "io_adds s (snd (CheckpointManager_ReceiveCheckpoint E msg s))"
    using ReceiveCheckpoint_step [of s E msg] by (intro io_adds_same) (simp add: transfer_step_def)
  from io_adds_trans [OF io_adds_trans [OF this io_queue.R_remove] io_queue.R_AddLearnTimer]
  show ?thesis by (simp add: OnSendCheckpoint_def RemoveLearnTimer_def case_prod_beta)
qed

lemma io_adds_task:
  fixes s :: "('d, 'w, 'z) group_scheme"
  shows "io_adds s (run_io_task E t s)"
proof (cases t)
  case (ContentTask c)
  then show ?thesis
    by (auto simp: run_io_task_def Instance_OnContent_def OnCheckpointMessage_def io_queue.R_OnPaxosMessage
        io_adds_OnSendCheckpoint io_queue.R_refl split: ContentType.split)
next
  case MasterTask
  let ?s = "s\<lparr>world := snd (NowMillis E (world s)), group_now := fst (NowMillis E (world s))\<rparr>"
  have s: "io_adds s ?s" by (simp add: io_adds_same)
  from io_adds_trans [OF s io_adds_OnPropose] io_adds_trans [OF s io_adds_propose_cb] MasterTask show ?thesis
    by (simp add: run_io_task_def TryBeMasterInLoop_def Let_def case_prod_beta in_world_def)
next
  case (FinishTask m i r)
  have "io_loop (FinishMakeCheckpoint E m i r s) = io_loop s"
    by (rule mach_step_node(11) [OF FinishMakeCheckpoint_step])
  with FinishTask show ?thesis by (simp add: run_io_task_def io_adds_same)
qed (simp_all add: run_io_task_def io_queue.R_RetryTimer io_queue.R_AskForLearn io_adds_OnPropose io_adds_ProposeTimer)

text \<open>The io loop of a group watched: the closures it has run are recorded, and with everything that
  happens the closures that have appeared at the end of the queue.\<close>

type_synonym ('d, 'w, 'z) watched = "('d, 'w, 'z) group_scheme \<times> io_task list \<times> io_task func list"

definition watch ::
    "(('d, 'w, 'z) group_scheme \<Rightarrow> ('d, 'w, 'z) group_scheme) \<Rightarrow> ('d, 'w, 'z) watched \<Rightarrow> ('d, 'w, 'z) watched" where
  "watch f = (\<lambda>(s, trace, added). (f s, trace, added @ drop (length (funcs (io_loop s))) (funcs (io_loop (f s)))))"

definition watched_exec :: "('d, 'w) env \<Rightarrow> io_task \<Rightarrow> ('d, 'w, 'z) watched \<Rightarrow> ('d, 'w, 'z) watched" where
  "watched_exec E g = (\<lambda>(s, trace, added). watch (run_io_task E g) (s, trace @ [g], added))"

definition watched_loop :: "('d, 'w, 'z) watched \<Rightarrow> io_task runloop" where
  "watched_loop x = io_loop (fst x)"

definition set_watched_loop :: "io_task runloop \<Rightarrow> ('d, 'w, 'z) watched \<Rightarrow> ('d, 'w, 'z) watched" where
  "set_watched_loop l = apfst (\<lambda>s. s\<lparr>io_loop := l\<rparr>)"

lemmas watch_defs = watch_def watched_exec_def watched_loop_def set_watched_loop_def case_prod_beta apfst_def map_prod_def

lemma watch_adds:
  assumes "io_adds (fst x) (f (fst x))"
  shows "\<exists>new. funcs (watched_loop (watch f x)) = funcs (watched_loop x) @ new \<and>
    snd (snd (watch f x)) = snd (snd x) @ new"
  using assms by (auto simp: watch_defs io_adds_def)

interpretation io: event_loop watched_loop set_watched_loop "\<lambda>g. watch (run_io_task E g)" "watched_exec E"
    "\<lambda>x. fst (snd x)" "\<lambda>x. snd (snd x)"
  for E :: "('d, 'w) env"
proof unfold_locales
  fix g and x :: "('d, 'w, 'z) watched"
  have add: "io_adds s (run_io_task E g s)" for s :: "('d, 'w, 'z) group_scheme" by (rule io_adds_task)
  show "\<exists>new. funcs (watched_loop (watch (run_io_task E g) x)) = funcs (watched_loop x) @ new \<and>
      snd (snd (watch (run_io_task E g) x)) = snd (snd x) @ new"
    by (rule watch_adds) (rule add)
  show "\<exists>new. funcs (watched_loop (watched_exec E g x)) = funcs (watched_loop x) @ new \<and>
      snd (snd (watched_exec E g x)) = snd (snd x) @ new"
    using watch_adds [of "(fst x, fst (snd x) @ [g], snd (snd x))" "run_io_task E g", OF add]
    by (simp add: watched_exec_def watched_loop_def case_prod_beta)
qed (simp_all add: watch_defs)

text \<open>
  C29. The io loop of a group runs the closures of its queue in the order they were queued and
  loses none: over any number of turns that return, the closures it has run followed by those still
  queued are the closures of the start followed by exactly those that were added to the queue
  meanwhile, by timers, by the closures themselves and by other threads, in the order they were
  added.
\<close>

theorem io_loop_in_order:
  fixes s :: "('d, 'w, 'z) group_scheme"
  assumes "\<And>f now t. (f, now) \<in> set turns \<Longrightarrow> io_adds t (f t)"
    and "RunLoop_Loop watched_loop set_watched_loop (\<lambda>g. watch (run_io_task E g)) (watched_exec E)
        (map (apfst watch) turns) (s, [], []) = Some (s', trace, added)"
  shows "trace @ users (funcs (io_loop s')) = users (funcs (io_loop s)) @ users added"
proof -
  have others: "io.adds x (f x)" if "(f, now) \<in> set (map (apfst watch) turns)"
    for f now and x :: "('d, 'w, 'z) watched"
  proof -
    from that obtain g where g: "f = watch g" "(g, now) \<in> set turns" by auto
    with watch_adds [of x g, OF assms(1) [OF g(2)]] show ?thesis
      by (simp add: io.adds_def io.grown_def) (simp add: watch_def case_prod_beta)
  qed
  have "io.in_order (s, [], []) (s', trace, added)" by (rule io.Loop_in_order [OF _ assms(2)]) (rule others)
  then show ?thesis by (simp add: io.in_order_def watched_loop_def)
qed

section \<open>The timers of the clean loop\<close>

lemma run_clean_task_loop: "clean_loop (run_clean_task E t s) = clean_loop s"
  by (cases t)
    (simp_all add: run_clean_task_def run_checkpoint_task_def in_world_def case_prod_beta LogCleaner_GCLoop_def
      SetMinChosenInstanceId_def Let_def)

text \<open>
  C27. The due timers of the clean loop of a group come to an end: on a list of timers whose containers agree
  and whose repeating timers do not wrap around the clock, \<^verbatim>\<open>RunTimerProcs\<close> returns with the
  callbacks the code sets there, leaves no timer that is due, and every repeating timer, as the
  one that collects the garbage of the log, is still set with its callback.
\<close>

theorem clean_timers_return:
  fixes s :: "('d, 'w, 'z) node_scheme"
  assumes "timers_ok (timer_list (clean_loop s))" and "no_wrap now (timer_list (clean_loop s))"
  shows "\<exists>s'. RunTimerProcs (\<lambda>s. timer_list (clean_loop s))
      (\<lambda>L s. s\<lparr>clean_loop := (clean_loop s)\<lparr>timer_list := L\<rparr>\<rparr>) (run_clean_task E) now s = Some s' \<and>
    timers_ok (timer_list (clean_loop s')) \<and> due now (timer_list (clean_loop s')) = {} \<and>
    (\<forall>p cb. repeating p cb (timer_list (clean_loop s)) \<longrightarrow> repeating p cb (timer_list (clean_loop s')))"
proof -
  let ?K = "\<lambda>L. \<forall>p cb. repeating p cb (timer_list (clean_loop s)) \<longrightarrow> repeating p cb L"
  have "\<exists>s'. RunTimerProcs (\<lambda>s. timer_list (clean_loop s))
      (\<lambda>L s. s\<lparr>clean_loop := (clean_loop s)\<lparr>timer_list := L\<rparr>\<rparr>) (run_clean_task E) now s = Some s' \<and>
      timers_run now ?K (timer_list (clean_loop s')) \<and> due now (timer_list (clean_loop s')) = {}"
    by (rule RunTimerProcs_returns)
      (use assms in \<open>auto simp: run_clean_task_loop timers_run_def intro: repeating_PopDue repeating_Adjust\<close>)
  then show ?thesis by (auto simp: timers_run_def)
qed

end
