(* ===== verification/Consensus.thy ===== *)
theory Consensus
  imports Ballot Proto
begin

text \<open>
  The contract of consensus, apart from the code: what a history of promises, votes and
  proposals has to satisfy so that no two values are ever chosen for an instance. The theory
  \<open>Cluster\<close> shows that the handlers of a node keep to it.
\<close>

section \<open>Histories\<close>

text \<open>
  What has happened so far, in every instance: the instance all members started at, the ballot
  each acceptor has promised and the instance it is at, the prepares and the proposals that were issued, and the votes that were
  cast, each with the instance, the acceptor, the ballot and the value.
\<close>

record hist =
  first_instance :: u64
  promise_of :: "u64 \<Rightarrow> BallotNumber"
  instance_of :: "u64 \<Rightarrow> u64"
  prepared :: "(u64 \<times> BallotNumber) set"
  proposed :: "(u64 \<times> BallotNumber \<times> PaxosValue) set"
  voted :: "(u64 \<times> u64 \<times> BallotNumber \<times> PaxosValue) set"

definition quorum :: "u64 set \<Rightarrow> u64 set \<Rightarrow> bool" where
  "quorum M Q \<longleftrightarrow> Q \<subseteq> M \<and> card M div 2 + 1 \<le> card Q"

text \<open>A ballot is safe for a value when some quorum has promised it, and the value is that of
  the highest vote which the quorum has cast below it, if there is one.\<close>

definition safe_at :: "u64 set \<Rightarrow> hist \<Rightarrow> u64 \<Rightarrow> BallotNumber \<Rightarrow> PaxosValue \<Rightarrow> bool" where
  "safe_at M H i b v \<longleftrightarrow>
     (\<exists>Q m. quorum M Q \<and> (m = Ballot_default \<or> m < b \<and> (\<exists>a. (i, a, m, v) \<in> voted H)) \<and>
        (\<forall>a\<in>Q. b \<le> promise_of H a \<and> (\<forall>c w. (i, a, c, w) \<in> voted H \<longrightarrow> c < b \<longrightarrow> c \<le> m)))"

definition hist_ok :: "u64 set \<Rightarrow> hist \<Rightarrow> bool" where
  "hist_ok M H \<longleftrightarrow>
     finite M \<and>
     (\<forall>i a b v. (i, a, b, v) \<in> voted H \<longrightarrow>
        a \<in> M \<and> (i, b, v) \<in> proposed H \<and> b \<le> promise_of H a \<and> i \<le> instance_of H a) \<and>
     (\<forall>i b v. (i, b, v) \<in> proposed H \<longrightarrow> 0 < GetProposalId b \<and> safe_at M H i b v) \<and>
     (\<forall>i b v w. (i, b, v) \<in> proposed H \<longrightarrow> (i, b, w) \<in> proposed H \<longrightarrow> v = w)"

definition chosen_at :: "u64 set \<Rightarrow> hist \<Rightarrow> u64 \<Rightarrow> BallotNumber \<Rightarrow> PaxosValue \<Rightarrow> bool" where
  "chosen_at M H i b v \<longleftrightarrow> (\<exists>Q. quorum M Q \<and> (\<forall>a\<in>Q. (i, a, b, v) \<in> voted H))"

definition chosen :: "u64 set \<Rightarrow> hist \<Rightarrow> u64 \<Rightarrow> PaxosValue \<Rightarrow> bool" where
  "chosen M H i v \<longleftrightarrow> (\<exists>b. chosen_at M H i b v)"

lemma hist_okD:
  assumes "hist_ok M H"
  shows "finite M"
    and "(i, a, b, v) \<in> voted H \<Longrightarrow> a \<in> M" "(i, a, b, v) \<in> voted H \<Longrightarrow> (i, b, v) \<in> proposed H"
      "(i, a, b, v) \<in> voted H \<Longrightarrow> b \<le> promise_of H a" "(i, a, b, v) \<in> voted H \<Longrightarrow> i \<le> instance_of H a"
    and "(i, b, v) \<in> proposed H \<Longrightarrow> 0 < GetProposalId b" "(i, b, v) \<in> proposed H \<Longrightarrow> safe_at M H i b v"
    and "(i, b, v) \<in> proposed H \<Longrightarrow> (i, b, w) \<in> proposed H \<Longrightarrow> v = w"
  using assms unfolding hist_ok_def by blast+

section \<open>Agreement\<close>

lemma quorums_meet:
  assumes "finite M" "quorum M Q" "quorum M R"
  obtains a where "a \<in> Q" "a \<in> R"
proof -
  have sub: "Q \<subseteq> M" "R \<subseteq> M" and c: "card M div 2 + 1 \<le> card Q" "card M div 2 + 1 \<le> card R"
    using assms(2,3) by (simp_all add: quorum_def)
  from majorities_meet [OF assms(1) sub c] show thesis using that by blast
qed

lemma chosen_proposed:
  assumes ok: "hist_ok M H" and ch: "chosen_at M H i b v"
  shows "(i, b, v) \<in> proposed H"
proof -
  from ch obtain Q where Q: "quorum M Q" "\<forall>a\<in>Q. (i, a, b, v) \<in> voted H" by (auto simp: chosen_at_def)
  from ok have fin: "finite M" by (simp add: hist_ok_def)
  from quorums_meet [OF fin Q(1) Q(1)] obtain a where "a \<in> Q" by blast
  with Q(2) ok show ?thesis unfolding hist_ok_def by blast
qed

lemma default_less: "0 < GetProposalId b \<Longrightarrow> Ballot_default < b"
  by (cases b) (auto simp: Ballot_default_def ballot_less_iff)

lemma proposal_above_chosen:
  assumes ok: "hist_ok M H" and ch: "chosen_at M H i c w"
  shows "(i, b, v) \<in> proposed H \<Longrightarrow> c \<le> b \<Longrightarrow> v = w"
proof (induction b arbitrary: v rule: less_induct)
  case (less b)
  show ?case
  proof (cases "c = b")
    case True
    with less.prems(1) chosen_proposed [OF ok ch] ok show ?thesis unfolding hist_ok_def by blast
  next
    case False
    with less.prems(2) have cb: "c < b" by simp
    from ok less.prems(1) have "safe_at M H i b v" unfolding hist_ok_def by blast
    then obtain Q m where Q: "quorum M Q" and m: "m = Ballot_default \<or> m < b \<and> (\<exists>a. (i, a, m, v) \<in> voted H)"
      and le: "\<forall>a\<in>Q. \<forall>c w. (i, a, c, w) \<in> voted H \<longrightarrow> c < b \<longrightarrow> c \<le> m"
      unfolding safe_at_def by blast
    from ch obtain R where R: "quorum M R" "\<forall>a\<in>R. (i, a, c, w) \<in> voted H" by (auto simp: chosen_at_def)
    from ok have fin: "finite M" by (simp add: hist_ok_def)
    from quorums_meet [OF fin Q R(1)] obtain a where "a \<in> Q" "a \<in> R" by blast
    with R(2) le cb have cm: "c \<le> m" by blast
    have "0 < GetProposalId c" using ok chosen_proposed [OF ok ch] unfolding hist_ok_def by blast
    from default_less [OF this] cm m obtain a' where "m < b" "(i, a', m, v) \<in> voted H"
      by (metis leD)
    moreover from this(2) ok have "(i, m, v) \<in> proposed H" unfolding hist_ok_def by blast
    ultimately show ?thesis using less.IH [of m v] cm by blast
  qed
qed

lemma chosen_unique:
  assumes ok: "hist_ok M H" and v: "chosen M H i v" and w: "chosen M H i w"
  shows "v = w"
proof -
  from v w obtain b c where b: "chosen_at M H i b v" and c: "chosen_at M H i c w" by (auto simp: chosen_def)
  show ?thesis
    using proposal_above_chosen [OF ok b chosen_proposed [OF ok c]]
      proposal_above_chosen [OF ok c chosen_proposed [OF ok b]] by (cases "b \<le> c") auto
qed

section \<open>Histories grow\<close>

text \<open>Promises and instances go up, and a new vote is never below what its acceptor had
  promised, nor in an instance it had left.\<close>

definition extends :: "hist \<Rightarrow> hist \<Rightarrow> bool" where
  "extends H H' \<longleftrightarrow>
     first_instance H' = first_instance H \<and>
     (\<forall>a. promise_of H a \<le> promise_of H' a \<and> instance_of H a \<le> instance_of H' a) \<and>
     prepared H \<subseteq> prepared H' \<and> proposed H \<subseteq> proposed H' \<and> voted H \<subseteq> voted H' \<and>
     (\<forall>i a b v. (i, a, b, v) \<in> voted H' \<longrightarrow> (i, a, b, v) \<notin> voted H \<longrightarrow>
        promise_of H a \<le> b \<and> instance_of H a \<le> i)"

lemma extends_refl [simp]: "extends H H"
  by (simp add: extends_def)

lemma extends_trans:
  assumes "extends H G" "extends G K"
  shows "extends H K"
proof -
  have le: "promise_of H a \<le> promise_of K a" "instance_of H a \<le> instance_of K a" for a
    using assms unfolding extends_def by (meson order_trans)+
  have "promise_of H a \<le> b \<and> instance_of H a \<le> i" if "(i, a, b, v) \<in> voted K" "(i, a, b, v) \<notin> voted H" for i a b v
    using assms that unfolding extends_def by (cases "(i, a, b, v) \<in> voted G") (meson order_trans)+
  with le assms show ?thesis by (auto simp: extends_def)
qed

text \<open>An acceptor that had promised \<open>b\<close> by instance \<open>i\<close>: below \<open>b\<close> it votes in no later
  instance.\<close>

definition joined :: "hist \<Rightarrow> u64 \<Rightarrow> u64 \<Rightarrow> BallotNumber \<Rightarrow> bool" where
  "joined H a i b \<longleftrightarrow>
     b \<le> promise_of H a \<and> i \<le> instance_of H a \<and>
     (\<forall>j c w. (j, a, c, w) \<in> voted H \<longrightarrow> i < j \<longrightarrow> b \<le> c)"

lemma votes_frozen:
  "extends H H' \<Longrightarrow> b \<le> promise_of H a \<Longrightarrow> (i, a, c, w) \<in> voted H' \<Longrightarrow> c < b \<Longrightarrow> (i, a, c, w) \<in> voted H"
  unfolding extends_def by (meson leD order_trans)

lemma joined_mono: "extends H H' \<Longrightarrow> joined H a i b \<Longrightarrow> joined H' a i b"
  unfolding joined_def extends_def by (meson order_trans)

lemma safe_at_mono:
  assumes "extends H H'" "safe_at M H i b v"
  shows "safe_at M H' i b v"
proof -
  from assms(2) obtain Q m where *: "quorum M Q" "m = Ballot_default \<or> m < b \<and> (\<exists>a. (i, a, m, v) \<in> voted H)"
      "\<forall>a\<in>Q. b \<le> promise_of H a \<and> (\<forall>c w. (i, a, c, w) \<in> voted H \<longrightarrow> c < b \<longrightarrow> c \<le> m)"
    unfolding safe_at_def by blast
  have "voted H \<subseteq> voted H'" and le: "promise_of H a \<le> promise_of H' a" for a
    using assms(1) by (simp_all add: extends_def)
  with * have "m = Ballot_default \<or> m < b \<and> (\<exists>a. (i, a, m, v) \<in> voted H')" by blast
  moreover have "\<forall>a\<in>Q. b \<le> promise_of H' a \<and> (\<forall>c w. (i, a, c, w) \<in> voted H' \<longrightarrow> c < b \<longrightarrow> c \<le> m)"
    using *(3) le votes_frozen [OF assms(1)] by (meson order_trans)
  ultimately show ?thesis using *(1) unfolding safe_at_def by blast
qed

lemma chosen_at_mono: "extends H H' \<Longrightarrow> chosen_at M H i b v \<Longrightarrow> chosen_at M H' i b v"
  unfolding chosen_at_def extends_def by blast

lemma chosen_mono: "extends H H' \<Longrightarrow> chosen M H i v \<Longrightarrow> chosen M H' i v"
  unfolding chosen_def using chosen_at_mono by blast

section \<open>The steps of one node\<close>

text \<open>What a node may add to the history: only its own prepares, proposals, votes, promise and
  instance.\<close>

definition hist_step :: "u64 set \<Rightarrow> u64 \<Rightarrow> hist \<Rightarrow> hist \<Rightarrow> bool" where
  "hist_step M n H H' \<longleftrightarrow>
     extends H H' \<and> hist_ok M H' \<and>
     (\<forall>a. a \<noteq> n \<longrightarrow> promise_of H' a = promise_of H a \<and> instance_of H' a = instance_of H a) \<and>
     (\<forall>i b. (i, b) \<in> prepared H' \<longrightarrow> GetNodeId b \<noteq> n \<longrightarrow> (i, b) \<in> prepared H) \<and>
     (\<forall>i b v. (i, b, v) \<in> proposed H' \<longrightarrow> GetNodeId b \<noteq> n \<longrightarrow> (i, b, v) \<in> proposed H) \<and>
     (\<forall>i a b v. (i, a, b, v) \<in> voted H' \<longrightarrow> a \<noteq> n \<longrightarrow> (i, a, b, v) \<in> voted H)"

lemma hist_step_refl: "hist_ok M H \<Longrightarrow> hist_step M n H H"
  by (simp add: hist_step_def)

lemma hist_step_trans: "hist_step M n H G \<Longrightarrow> hist_step M n G K \<Longrightarrow> hist_step M n H K"
  by (auto simp: hist_step_def intro: extends_trans)

lemma hist_ok_extends:
  assumes "hist_ok M H" "extends H H'" "proposed H' = proposed H"
    and "\<And>i a b v. (i, a, b, v) \<in> voted H' \<Longrightarrow> (i, a, b, v) \<notin> voted H \<Longrightarrow>
      a \<in> M \<and> (i, b, v) \<in> proposed H \<and> b \<le> promise_of H' a \<and> i \<le> instance_of H' a"
  shows "hist_ok M H'"
proof -
  have "a \<in> M \<and> (i, b, v) \<in> proposed H \<and> b \<le> promise_of H' a \<and> i \<le> instance_of H' a"
    if "(i, a, b, v) \<in> voted H'" for i a b v
  proof (cases "(i, a, b, v) \<in> voted H")
    case True
    with assms(1,2) show ?thesis unfolding hist_ok_def extends_def by (meson order_trans)
  qed (use assms(4) that in blast)
  moreover have "safe_at M H' i b v" if "(i, b, v) \<in> proposed H" for i b v
    using that assms(1) safe_at_mono [OF assms(2)] unfolding hist_ok_def by blast
  ultimately show ?thesis using assms(1,3) unfolding hist_ok_def by simp
qed

text \<open>A prepare; a promise; a proposal; a vote; the next instance.\<close>

lemma hist_prepare:
  assumes "hist_ok M H" "GetNodeId b = n"
  shows "hist_step M n H (H\<lparr>prepared := insert (i, b) (prepared H)\<rparr>)"
proof -
  have "extends H (H\<lparr>prepared := insert (i, b) (prepared H)\<rparr>)" by (auto simp: extends_def)
  moreover from hist_ok_extends [OF assms(1) this]
  have "hist_ok M (H\<lparr>prepared := insert (i, b) (prepared H)\<rparr>)" by simp
  ultimately show ?thesis using assms(2) by (auto simp: hist_step_def)
qed

lemma hist_promise:
  assumes "hist_ok M H" "promise_of H n \<le> b"
  shows "hist_step M n H (H\<lparr>promise_of := (promise_of H)(n := b)\<rparr>)"
proof -
  have "extends H (H\<lparr>promise_of := (promise_of H)(n := b)\<rparr>)" using assms(2) by (auto simp: extends_def)
  moreover from hist_ok_extends [OF assms(1) this]
  have "hist_ok M (H\<lparr>promise_of := (promise_of H)(n := b)\<rparr>)" by simp
  ultimately show ?thesis by (simp add: hist_step_def)
qed

lemma joined_promise:
  assumes "hist_ok M H" "instance_of H n = i"
  shows "joined (H\<lparr>promise_of := (promise_of H)(n := b)\<rparr>) n i b"
proof -
  have "\<not> i < j" if "(j, n, c, w) \<in> voted H" for j c w using hist_okD(5) [OF assms(1) that] assms(2) by (simp add: not_less)
  with assms(2) show ?thesis unfolding joined_def by auto
qed

lemma hist_next:
  assumes "hist_ok M H" "instance_of H n \<le> i"
  shows "hist_step M n H (H\<lparr>instance_of := (instance_of H)(n := i)\<rparr>)"
proof -
  have "extends H (H\<lparr>instance_of := (instance_of H)(n := i)\<rparr>)" using assms(2) by (auto simp: extends_def)
  moreover from hist_ok_extends [OF assms(1) this]
  have "hist_ok M (H\<lparr>instance_of := (instance_of H)(n := i)\<rparr>)" by simp
  ultimately show ?thesis by (simp add: hist_step_def)
qed

lemma hist_vote:
  assumes ok: "hist_ok M H" and n: "n \<in> M" and b: "promise_of H n \<le> b" "(i, b, v) \<in> proposed H"
    and i: "instance_of H n = i"
  shows "hist_step M n H
    (H\<lparr>promise_of := (promise_of H)(n := b), voted := insert (i, n, b, v) (voted H)\<rparr>)"
    (is "hist_step M n H ?H")
proof -
  have e: "extends H ?H" using b i by (auto simp: extends_def)
  have "hist_ok M ?H" by (rule hist_ok_extends [OF ok e]) (use n b i in auto)
  with e show ?thesis by (auto simp: hist_step_def)
qed

lemma hist_propose:
  assumes ok: "hist_ok M H" and b: "GetNodeId b = n" "0 < GetProposalId b" and safe: "safe_at M H i b v"
    and new: "\<And>w. (i, b, w) \<notin> proposed H"
  shows "hist_step M n H (H\<lparr>proposed := insert (i, b, v) (proposed H)\<rparr>)" (is "hist_step M n H ?H")
proof -
  have e: "extends H ?H" by (auto simp: extends_def)
  have "hist_ok M ?H"
    using ok b(2) new safe_at_mono [OF e safe] safe_at_mono [OF e]
    unfolding hist_ok_def by (auto; blast)
  with e b(1) show ?thesis by (auto simp: hist_step_def)
qed

end
