(* ===== verification/Cluster.thy ===== *)
theory Cluster
  imports Consensus Durability Rounds
begin

text \<open>
  A node as one of several: what its state and the messages it has sent say about the history
  of the group, and that every handler keeps it so. The members are a fixed set \<open>M\<close>, and the
  history \<open>H\<close> is that of \<open>Consensus\<close>.
\<close>

section \<open>Messages\<close>

text \<open>What a promise tells its receiver: the acceptor \<open>a\<close> has joined the ballot, and has
  voted below it at most in the ballot it reports.\<close>

definition promise_ok :: "hist \<Rightarrow> u64 \<Rightarrow> u64 \<Rightarrow> BallotNumber \<Rightarrow> PaxosMessage \<Rightarrow> bool" where
  "promise_ok H a i b m \<longleftrightarrow>
     joined H a i b \<and> reply_ballot m \<le> b \<and>
     (\<forall>c w. (i, a, c, w) \<in> voted H \<longrightarrow> c < b \<longrightarrow> c \<le> reply_ballot m) \<and>
     (reply_ballot m = Ballot_default \<or> (i, a, reply_ballot m, pm_value m) \<in> voted H)"

text \<open>What a message from node \<open>n\<close> to node \<open>d\<close> says about the history.\<close>

definition msg_ok :: "u64 set \<Rightarrow> hist \<Rightarrow> u64 \<Rightarrow> u64 \<Rightarrow> PaxosMessage \<Rightarrow> bool" where
  "msg_ok M H n d m \<longleftrightarrow>
     pm_node_id m = n \<and> n \<in> M \<and>
     (let i = pm_instance_id m; p = pm_proposal_id m
      in case pm_type m of
           PREPARE \<Rightarrow> 0 < p \<and> (i, BallotNumber p n) \<in> prepared H
         | PREPARE_REPLY \<Rightarrow>
             (i, BallotNumber p d) \<in> prepared H \<and>
             (pm_rejected_id m = 0 \<longrightarrow> promise_ok H n i (BallotNumber p d) m)
         | ACCEPT \<Rightarrow> (i, BallotNumber p n, pm_value m) \<in> proposed H
         | ACCEPT_REPLY \<Rightarrow>
             (\<exists>v. (i, BallotNumber p d, v) \<in> proposed H \<and>
                (pm_rejected_id m = 0 \<longrightarrow> (i, n, BallotNumber p d, v) \<in> voted H))
         | NEW_CHOSEN_VALUE \<Rightarrow> \<exists>v. chosen_at M H i (BallotNumber p n) v
         | SEND_LEARNED_VALUE \<Rightarrow> chosen M H i (pm_value m)
         | _ \<Rightarrow> True)"

text \<open>The calls of the network: whom they address and what they carry.\<close>

fun addressed :: "net_call \<Rightarrow> u64 \<Rightarrow> bool" where
  "addressed (Unicast d c) n \<longleftrightarrow> n = d"
| "addressed (Multicast ms c) n \<longleftrightarrow> n \<in> fst ` set (ms_members ms)"

fun call_content :: "net_call \<Rightarrow> Content" where
  "call_content (Unicast d c) = c"
| "call_content (Multicast ms c) = c"

definition call_ok :: "u64 set \<Rightarrow> hist \<Rightarrow> u64 \<Rightarrow> net_call \<Rightarrow> bool" where
  "call_ok M H n c \<longleftrightarrow>
     (ct_type (call_content c) = PAXOS_MESSAGE \<longrightarrow>
        (\<forall>d. addressed c d \<longrightarrow> msg_ok M H n d (ct_paxos_msg (call_content c))))"

text \<open>The node has sent an accept for this instance with this proposal number.\<close>

definition accept_sent :: "net_call list \<Rightarrow> u64 \<Rightarrow> u64 \<Rightarrow> bool" where
  "accept_sent ns i p \<longleftrightarrow>
     (\<exists>c\<in>set ns. ct_type (call_content c) = PAXOS_MESSAGE \<and>
        (let m = ct_paxos_msg (call_content c)
         in pm_type m = ACCEPT \<and> pm_instance_id m = i \<and> pm_proposal_id m = p))"

definition net_inv :: "u64 set \<Rightarrow> u64 \<Rightarrow> hist \<Rightarrow> net_call list \<Rightarrow> bool" where
  "net_inv M n H ns \<longleftrightarrow>
     (\<forall>c\<in>set ns. call_ok M H n c) \<and>
     (\<forall>i b v. (i, b, v) \<in> proposed H \<longrightarrow> GetNodeId b = n \<longrightarrow> accept_sent ns i (GetProposalId b))"

text \<open>The closures of the learn loop.\<close>

definition queue_inv :: "u64 set \<Rightarrow> u64 \<Rightarrow> hist \<Rightarrow> u64 \<Rightarrow> learn_task func list \<Rightarrow> bool" where
  "queue_inv M n H i fs \<longleftrightarrow>
     (\<forall>t. Func t \<in> set fs \<longrightarrow>
        (case t of
           SendTask d c \<Rightarrow> call_ok M H n (Unicast d c)
         | ASyncSendTask d from to \<Rightarrow> to \<le> i
         | SendCheckpointTask d \<Rightarrow> True))"

section \<open>The roles\<close>

definition acceptor_inv :: "u64 \<Rightarrow> hist \<Rightarrow> u64 \<Rightarrow> Acceptor \<Rightarrow> bool" where
  "acceptor_inv n H i a \<longleftrightarrow>
     promise_of H n = promised_ballot a \<and> instance_of H n = i \<and>
     (accepted_ballot a = Ballot_default \<or> (i, n, accepted_ballot a, accepted_value a) \<in> voted H) \<and>
     (\<forall>c w. (i, n, c, w) \<in> voted H \<longrightarrow> c \<le> accepted_ballot a)"

text \<open>The three phases of the proposer, for its ballot \<open>b\<close> in instance \<open>i\<close>: it collects
  promises, it collects votes, or it may skip the prepare because a quorum has joined the
  ballot already, in an earlier instance if nothing was proposed in this one.\<close>

definition preparing_inv :: "u64 set \<Rightarrow> hist \<Rightarrow> u64 \<Rightarrow> BallotNumber \<Rightarrow> Proposer \<Rightarrow> bool" where
  "preparing_inv M H i b p \<longleftrightarrow>
     (\<forall>v. (i, b, v) \<notin> proposed H) \<and> max_ballot p \<le> b \<and>
     (max_ballot p = Ballot_default \<or> (\<exists>a. (i, a, max_ballot p, pro_value p) \<in> voted H)) \<and>
     (\<forall>a\<in>promisors_or_acceptors (counter p).
        a \<in> M \<and> joined H a i b \<and> (\<forall>c w. (i, a, c, w) \<in> voted H \<longrightarrow> c < b \<longrightarrow> c \<le> max_ballot p))"

definition accepting_inv :: "hist \<Rightarrow> u64 \<Rightarrow> BallotNumber \<Rightarrow> Proposer \<Rightarrow> bool" where
  "accepting_inv H i b p \<longleftrightarrow>
     (i, b, pro_value p) \<in> proposed H \<and>
     (\<forall>a\<in>promisors_or_acceptors (counter p). (i, a, b, pro_value p) \<in> voted H)"

definition skip_inv :: "u64 set \<Rightarrow> hist \<Rightarrow> u64 \<Rightarrow> BallotNumber \<Rightarrow> bool" where
  "skip_inv M H i b \<longleftrightarrow>
     (\<exists>Q j. quorum M Q \<and> j \<le> i \<and> (\<forall>a\<in>Q. joined H a j b) \<and> (j = i \<longrightarrow> (\<exists>v. (i, b, v) \<in> proposed H)))"

definition phase_inv :: "u64 set \<Rightarrow> u64 \<Rightarrow> hist \<Rightarrow> u64 \<Rightarrow> Proposer \<Rightarrow> bool" where
  "phase_inv M n H i p \<longleftrightarrow>
     (let b = BallotNumber (proposal_id p) n
      in \<not> (preparing p \<and> accepting p) \<and>
         (preparing p \<longrightarrow> (\<exists>c. (i, c) \<in> prepared H \<and> GetNodeId c = n) \<longrightarrow> preparing_inv M H i b p) \<and>
         (accepting p \<longrightarrow> (\<exists>c v. (i, c, v) \<in> proposed H \<and> GetNodeId c = n) \<longrightarrow> accepting_inv H i b p) \<and>
         (skip_prepare p \<longrightarrow> skip_inv M H i b))"

text \<open>What the proposer has issued belongs to its current and earlier instances, and to
  proposal numbers up to its own.\<close>

definition issued_inv :: "u64 \<Rightarrow> hist \<Rightarrow> u64 \<Rightarrow> u64 \<Rightarrow> bool" where
  "issued_inv n H i q \<longleftrightarrow>
     0 < q \<and>
     (\<forall>j c v. (j, c, v) \<in> proposed H \<longrightarrow> GetNodeId c = n \<longrightarrow> j \<le> i \<and> (j = i \<longrightarrow> GetProposalId c \<le> q)) \<and>
     (\<forall>j c. (j, c) \<in> prepared H \<longrightarrow> GetNodeId c = n \<longrightarrow> j \<le> i)"

text \<open>The log: below the current instance it holds chosen values, and in the current one what
  was accepted, or what was learned.\<close>

definition recorded :: "('d, 'w) env \<Rightarrow> (bytes \<rightharpoonup> bytes) \<Rightarrow> u64 \<Rightarrow> PaxosValue \<Rightarrow> bool" where
  "recorded E m i v \<longleftrightarrow>
     (\<exists>x. log_of E m i = Some x \<and> pi_instance_id (snd (parse_instance E x)) = i \<and>
        pi_accepted_value (snd (parse_instance E x)) = v)"

definition log_inv ::
    "u64 set \<Rightarrow> ('d, 'w) env \<Rightarrow> hist \<Rightarrow> u64 \<Rightarrow> Acceptor \<Rightarrow> Learner \<Rightarrow> (bytes \<rightharpoonup> bytes) \<Rightarrow> bool" where
  "log_inv M E H i a l m \<longleftrightarrow>
     (\<forall>j x. j < i \<longrightarrow> log_of E m j = Some x \<longrightarrow>
        pi_instance_id (snd (parse_instance E x)) = j \<and>
        chosen M H j (pi_accepted_value (snd (parse_instance E x)))) \<and>
     (\<forall>j. first_instance H \<le> j \<longrightarrow> j < i \<longrightarrow> log_of E m j \<noteq> None) \<and>
     (if has_learned l
      then i \<noteq> - 1 \<and> chosen M H i (learned_value l) \<and> recorded E m i (learned_value l)
      else accepted_ballot a \<noteq> Ballot_default \<longrightarrow> recorded E m i (accepted_value a))"

text \<open>The invariant of the node; \<open>node_base\<close> is all of it but the phase of the proposer.\<close>

definition node_base ::
    "u64 set \<Rightarrow> ('d, 'w) env \<Rightarrow> ('d \<Rightarrow> bytes \<rightharpoonup> bytes) \<Rightarrow> hist \<Rightarrow> ('d, 'w, 'z) node_scheme \<Rightarrow> bool" where
  "node_base M E contents H s \<longleftrightarrow>
     node_ok s \<and>
     acceptor_inv (cfg_node_id E) H (instance_id s) (acceptor s) \<and>
     issued_inv (cfg_node_id E) H (instance_id s) (proposal_id (proposer s)) \<and>
     net_inv M (cfg_node_id E) H (net s) \<and>
     queue_inv M (cfg_node_id E) H (instance_id s) (funcs (learn_loop s)) \<and>
     log_inv M E H (instance_id s) (acceptor s) (learner s) (contents (db s))"

definition node_inv ::
    "u64 set \<Rightarrow> ('d, 'w) env \<Rightarrow> ('d \<Rightarrow> bytes \<rightharpoonup> bytes) \<Rightarrow> hist \<Rightarrow> ('d, 'w, 'z) node_scheme \<Rightarrow> bool" where
  "node_inv M E contents H s \<longleftrightarrow>
     node_base M E contents H s \<and> phase_inv M (cfg_node_id E) H (instance_id s) (proposer s)"

section \<open>The invariants as the history grows\<close>

lemma extendsD:
  assumes "extends H H'"
  shows "promise_of H a \<le> promise_of H' a" "instance_of H a \<le> instance_of H' a"
    "x \<in> prepared H \<Longrightarrow> x \<in> prepared H'" "y \<in> proposed H \<Longrightarrow> y \<in> proposed H'"
    "z \<in> voted H \<Longrightarrow> z \<in> voted H'"
  using assms by (auto simp: extends_def)

lemma joined_frozen:
  "extends H H' \<Longrightarrow> joined H a i b \<Longrightarrow> (j, a, c, w) \<in> voted H' \<Longrightarrow> c < b \<Longrightarrow> (j, a, c, w) \<in> voted H"
  using votes_frozen [of H H' b a] by (simp add: joined_def)

lemma promise_ok_mono: "extends H H' \<Longrightarrow> promise_ok H a i b m \<Longrightarrow> promise_ok H' a i b m"
  unfolding promise_ok_def using joined_mono joined_frozen extendsD(3,5) by meson

lemma msg_ok_mono: "extends H H' \<Longrightarrow> msg_ok M H n d m \<Longrightarrow> msg_ok M H' n d m"
  unfolding msg_ok_def Let_def
  by (cases "pm_type m") (auto dest: promise_ok_mono extendsD(3-5) chosen_mono chosen_at_mono)

lemma call_ok_mono: "extends H H' \<Longrightarrow> call_ok M H n c \<Longrightarrow> call_ok M H' n c"
  unfolding call_ok_def using msg_ok_mono by blast

lemma queue_inv_mono:
  assumes "extends H H'" "i \<le> i'" "queue_inv M n H i fs"
  shows "queue_inv M n H' i' fs"
  using assms(3) unfolding queue_inv_def
  by (auto split: learn_task.splits intro: call_ok_mono [OF assms(1)] order_trans [OF _ assms(2)])

lemma log_inv_mono:
  assumes "extends H H'" "log_inv M E H i a l m"
  shows "log_inv M E H' i a l m"
proof -
  have "first_instance H' = first_instance H" using assms(1) by (simp add: extends_def)
  with assms(2) chosen_mono [OF assms(1)] show ?thesis unfolding log_inv_def by (auto split: if_splits)
qed

lemma preparing_inv_mono:
  assumes "extends H H'" "\<And>v. (i, b, v) \<in> proposed H' \<Longrightarrow> (i, b, v) \<in> proposed H" "preparing_inv M H i b p"
  shows "preparing_inv M H' i b p"
  using assms(3) assms(2) joined_mono [OF assms(1)] joined_frozen [OF assms(1)] extendsD(5) [OF assms(1)]
  unfolding preparing_inv_def by meson

lemma accepting_inv_mono: "extends H H' \<Longrightarrow> accepting_inv H i b p \<Longrightarrow> accepting_inv H' i b p"
  unfolding accepting_inv_def using extendsD(4,5) by blast

lemma skip_inv_mono: "extends H H' \<Longrightarrow> skip_inv M H i b \<Longrightarrow> skip_inv M H' i b"
  unfolding skip_inv_def using joined_mono extendsD(4) by meson

text \<open>A proposer does not notice what others add, nor its own node's promises and votes.\<close>

definition same_issued :: "u64 \<Rightarrow> hist \<Rightarrow> hist \<Rightarrow> bool" where
  "same_issued n H H' \<longleftrightarrow>
     (\<forall>i b v. (i, b, v) \<in> proposed H' \<longrightarrow> GetNodeId b = n \<longrightarrow> (i, b, v) \<in> proposed H) \<and>
     (\<forall>i b. (i, b) \<in> prepared H' \<longrightarrow> GetNodeId b = n \<longrightarrow> (i, b) \<in> prepared H)"

lemma same_issuedD:
  assumes "same_issued n H H'"
  shows "(i, b, v) \<in> proposed H' \<Longrightarrow> GetNodeId b = n \<Longrightarrow> (i, b, v) \<in> proposed H"
    and "(i, b) \<in> prepared H' \<Longrightarrow> GetNodeId b = n \<Longrightarrow> (i, b) \<in> prepared H"
  using assms unfolding same_issued_def by blast+

lemma issued_inv_mono:
  assumes "same_issued n H H'" "issued_inv n H i q"
  shows "issued_inv n H' i q"
  using assms unfolding issued_inv_def same_issued_def by blast

lemma phase_inv_mono:
  assumes e: "extends H H'" and own: "same_issued n H H'" and inv: "phase_inv M n H i p"
  shows "phase_inv M n H' i p"
proof -
  let ?b = "BallotNumber (proposal_id p) n"
  note own = same_issuedD [OF own]
  have b: "(i, ?b, v) \<in> proposed H' \<Longrightarrow> (i, ?b, v) \<in> proposed H" for v using own(1) by simp
  have "preparing_inv M H' i ?b p" if "preparing p" "(i, c) \<in> prepared H'" "GetNodeId c = n" for c
    using inv that(1,3) own(2) [OF that(2,3)] preparing_inv_mono [OF e b]
    unfolding phase_inv_def Let_def by blast
  moreover have "accepting_inv H' i ?b p" if "accepting p" "(i, c, v) \<in> proposed H'" "GetNodeId c = n" for c v
    using inv that(1,3) own(1) [OF that(2,3)] accepting_inv_mono [OF e]
    unfolding phase_inv_def Let_def by blast
  moreover have "skip_inv M H' i ?b" if "skip_prepare p"
    using inv that skip_inv_mono [OF e] unfolding phase_inv_def Let_def by blast
  moreover have "\<not> (preparing p \<and> accepting p)" using inv by (simp add: phase_inv_def Let_def)
  ultimately show ?thesis unfolding phase_inv_def Let_def by blast
qed

lemma net_inv_mono:
  assumes "extends H H'" "same_issued n H H'" "net_inv M n H ns"
  shows "net_inv M n H' ns"
  using assms(3) same_issuedD(1) [OF assms(2)] call_ok_mono [OF assms(1)] unfolding net_inv_def by blast

text \<open>A step of another node keeps the invariant of this one.\<close>

lemma node_inv_other:
  assumes st: "hist_step M n H H'" and n: "cfg_node_id E \<noteq> n" and inv: "node_inv M E c H s"
  shows "node_inv M E c H' s"
proof -
  have e: "extends H H'" using st by (simp add: hist_step_def)
  have own: "same_issued (cfg_node_id E) H H'"
    using st n unfolding hist_step_def same_issued_def by metis
  have "(i, cfg_node_id E, b, v) \<in> voted H' \<Longrightarrow> (i, cfg_node_id E, b, v) \<in> voted H" for i b v
    using st n unfolding hist_step_def by metis
  then have "acceptor_inv (cfg_node_id E) H' (instance_id s) (acceptor s)"
    using inv st n extendsD(5) [OF e]
    unfolding node_inv_def node_base_def acceptor_inv_def hist_step_def by metis
  with inv issued_inv_mono [OF own] phase_inv_mono [OF e own] net_inv_mono [OF e own]
    queue_inv_mono [OF e order_refl] log_inv_mono [OF e]
  show ?thesis unfolding node_inv_def node_base_def by blast
qed

end
