(* ===== verification/Replication.thy ===== *)
theory Replication
  imports Cluster
begin

text \<open>
  The handlers of a node keep the invariant of \<open>Cluster\<close>. A handler starts from a node that is
  ready; the history it leads to extends the one it starts from.
\<close>

section \<open>Where a handler leads\<close>

definition reaches ::
    "u64 set \<Rightarrow> ('d, 'w) env \<Rightarrow> ('d \<Rightarrow> bytes \<rightharpoonup> bytes) \<Rightarrow> hist \<Rightarrow> ('d, 'w, 'z) node_scheme \<Rightarrow> bool" where
  "reaches M E c H s \<longleftrightarrow> (\<exists>H'. hist_step M (cfg_node_id E) H H' \<and> node_inv M E c H' s)"

text \<open>What the node relies on: its store, its codec, and that it is a member.\<close>

definition member_ok :: "u64 set \<Rightarrow> ('d, 'w) env \<Rightarrow> ('d \<Rightarrow> bytes \<rightharpoonup> bytes) \<Rightarrow> bool" where
  "member_ok M E c \<longleftrightarrow> storage_ok E c \<and> instance_codec_ok E \<and> cfg_node_id E \<in> M"

text \<open>A node that may handle something: it works with the members \<open>M\<close>, its machines have
  executed everything learned so far, and its instance counter can go up.\<close>

definition ready :: "u64 set \<Rightarrow> ('d, 'w, 'z) node_scheme \<Rightarrow> bool" where
  "ready M s \<longleftrightarrow>
     distinct (map fst (ms_members (membership s))) \<and> fst ` set (ms_members (membership s)) = M \<and>
     \<not> has_learned (learner s) \<and> instance_id s \<noteq> - 1"

lemma reaches_refl: "hist_ok M H \<Longrightarrow> node_inv M E c H s \<Longrightarrow> reaches M E c H s"
  unfolding reaches_def using hist_step_refl by blast

lemma reaches_trans: "hist_step M (cfg_node_id E) H G \<Longrightarrow> reaches M E c G s \<Longrightarrow> reaches M E c H s"
  unfolding reaches_def using hist_step_trans by blast

lemma reaches_map:
  "reaches M E c H s \<Longrightarrow> (\<And>G. hist_ok M G \<Longrightarrow> node_inv M E c G s \<Longrightarrow> reaches M E c G s') \<Longrightarrow> reaches M E c H s'"
proof -
  assume "reaches M E c H s" and step: "\<And>G. hist_ok M G \<Longrightarrow> node_inv M E c G s \<Longrightarrow> reaches M E c G s'"
  then obtain G where G: "hist_step M (cfg_node_id E) H G" "node_inv M E c G s" by (auto simp: reaches_def)
  from reaches_trans [OF G(1) step [OF _ G(2)]] G(1) show ?thesis by (simp add: hist_step_def)
qed

text \<open>The invariant sees only these parts of the state.\<close>

lemma node_inv_same:
  assumes "node_inv M E c H s" "acceptor s' = acceptor s" "learner s' = learner s" "proposer s' = proposer s"
    "instance_id s' = instance_id s" "db s' = db s" "net s' = net s" "learn_loop s' = learn_loop s"
  shows "node_inv M E c H s'"
  using assms by (simp add: node_inv_def node_base_def node_ok_def)

lemma node_baseD:
  assumes "node_base M E c H s"
  shows "node_ok s" "acceptor_inv (cfg_node_id E) H (instance_id s) (acceptor s)"
    "issued_inv (cfg_node_id E) H (instance_id s) (proposal_id (proposer s))" "net_inv M (cfg_node_id E) H (net s)"
    "queue_inv M (cfg_node_id E) H (instance_id s) (funcs (learn_loop s))"
    "log_inv M E H (instance_id s) (acceptor s) (learner s) (c (db s))"
  using assms by (simp_all add: node_base_def)

section \<open>Sending\<close>

text \<open>Sending touches only the network; each fact holds with and without the phase.\<close>

lemma accept_sent_snoc: "accept_sent ns i p \<Longrightarrow> accept_sent (ns @ [k]) i p"
  by (auto simp: accept_sent_def)

lemma net_inv_snoc: "net_inv M n H ns \<Longrightarrow> call_ok M H n k \<Longrightarrow> net_inv M n H (ns @ [k])"
  using accept_sent_snoc by (simp add: net_inv_def)

lemma node_base_send:
  assumes "node_base M E c H s" and "msg_ok M H (cfg_node_id E) d m"
  shows "node_base M E c H (Messager_SendMessage E d (Content_paxos g m) s)"
proof -
  have "call_ok M H (cfg_node_id E) (Unicast d (Content_paxos g m))"
    using assms(2) by (simp add: call_ok_def Content_paxos_def)
  from net_inv_snoc [OF _ this] assms(1) show ?thesis
    by (simp add: node_base_def node_ok_def Messager_SendMessage_def)
qed

lemma call_ok_multicast:
  "(\<And>d. msg_ok M H n d m) \<Longrightarrow> call_ok M H n (Multicast ms (Content_paxos g m))"
  by (simp add: call_ok_def Content_paxos_def)

lemma node_base_broadcast:
  assumes "node_base M E c H s" and "\<And>d. msg_ok M H (cfg_node_id E) d m"
  shows "node_base M E c H (BroadcastMessage (Content_paxos g m) s)"
  using assms(1) net_inv_snoc [OF _ call_ok_multicast [OF assms(2)]]
  by (simp add: node_base_def node_ok_def BroadcastMessage_def)

lemma node_base_cluster:
  assumes "node_base M E c H s" and "\<And>d. msg_ok M H (cfg_node_id E) d m"
  shows "node_base M E c H (send_to_cluster ms (Content_paxos g m) s)"
  using assms(1) net_inv_snoc [OF _ call_ok_multicast [OF assms(2)]]
  by (simp add: node_base_def node_ok_def send_to_cluster_def Let_def)

section \<open>Learning and the next instance\<close>

lemma less_next_u64: "(j :: u64) < i + 1 \<Longrightarrow> j \<noteq> i \<Longrightarrow> j < i"
  by uint_arith

lemma MachineExecute_learn_loop [simp]:
  "learn_loop (snd (MachineExecute E v my s)) = learn_loop s"
  by (rule mach_step_node(13)) simp

lemma CheckLearn_parts:
  "net (CheckLearn E s) = net s" "learn_loop (CheckLearn E s) = learn_loop s"
  "proposer (CheckLearn E s) = (if advances E s then Proposer_NextInstance (proposer s)
     else if has_learned (learner s) then (proposer s)\<lparr>skip_prepare := False\<rparr> else proposer s)"
  "\<not> advances E s \<Longrightarrow> learner (CheckLearn E s) = learner s"
  by (simp_all add: CheckLearn_def advances_def Let_def case_prod_beta Instance_NextInstance_def
      Learner_NextInstance_def SetMaxChosenInstanceId_def)

lemma skip_inv_next:
  assumes "skip_inv M H i b" and "i < i + 1"
  shows "skip_inv M H (i + 1) b"
proof -
  from assms(1) obtain Q j where "quorum M Q" "j \<le> i" "\<forall>a\<in>Q. joined H a j b" unfolding skip_inv_def by blast
  with assms(2) have "quorum M Q \<and> j \<le> i + 1 \<and> (\<forall>a\<in>Q. joined H a j b) \<and> j \<noteq> i + 1" by auto
  then show ?thesis unfolding skip_inv_def by blast
qed

lemma issued_invD:
  assumes "issued_inv n H i q"
  shows "0 < q" "(j, c, v) \<in> proposed H \<Longrightarrow> GetNodeId c = n \<Longrightarrow> j \<le> i"
    "(i, c, v) \<in> proposed H \<Longrightarrow> GetNodeId c = n \<Longrightarrow> GetProposalId c \<le> q"
    "(j, c) \<in> prepared H \<Longrightarrow> GetNodeId c = n \<Longrightarrow> j \<le> i"
  using assms unfolding issued_inv_def by blast+

lemma issued_inv_next:
  assumes inv: "issued_inv n H i q" and lt: "i < i + 1"
  shows "issued_inv n H (i + 1) q" and "GetNodeId c = n \<Longrightarrow> (i + 1, c, v) \<notin> proposed H"
    and "GetNodeId c = n \<Longrightarrow> (i + 1, c) \<notin> prepared H"
proof -
  note D = issued_invD [OF inv]
  have none: "(i + 1, c, v) \<notin> proposed H" "(i + 1, c) \<notin> prepared H" if "GetNodeId c = n" for c v
    using D(2,4) [OF _ that] lt by (meson leD)+
  then show "GetNodeId c = n \<Longrightarrow> (i + 1, c, v) \<notin> proposed H" "GetNodeId c = n \<Longrightarrow> (i + 1, c) \<notin> prepared H"
    by blast+
  have "j \<le> i + 1" if "j \<le> i" for j using that lt by simp
  with D none show "issued_inv n H (i + 1) q" unfolding issued_inv_def by blast
qed

lemma CheckLearn_reaches:
  assumes ok: "hist_ok M H" and inv: "node_inv M E c H s"
  shows "reaches M E c H (CheckLearn E s)"
proof (cases "advances E s")
  case False
  have p: "phase_inv M n H i (p\<lparr>skip_prepare := False\<rparr>)" if "phase_inv M n H i p" for n i p
    using that by (simp add: phase_inv_def Let_def preparing_inv_def accepting_inv_def)
  have "node_inv M E c H (CheckLearn E s)"
    using inv False p
    by (simp add: node_inv_def node_base_def node_ok_def CheckLearn_parts CheckLearn_acceptor CheckLearn_ids)
  from reaches_refl [OF ok this] show ?thesis .
next
  case True
  let ?n = "cfg_node_id E" and ?i = "instance_id s"
  let ?H = "H\<lparr>instance_of := (instance_of H)(?n := ?i + 1)\<rparr>" and ?s = "CheckLearn E s"
  have base: "node_base M E c H s" and ph: "phase_inv M ?n H ?i (proposer s)"
    using inv by (simp_all add: node_inv_def)
  note D = node_baseD [OF base]
  have l: "has_learned (learner s)" using True by (simp add: advances_def)
  with D(6) have learned: "?i \<noteq> - 1" "chosen M H ?i (learned_value (learner s))"
      "recorded E (c (db s)) ?i (learned_value (learner s))"
    by (simp_all add: log_inv_def)
  have lt: "?i < ?i + 1" by (rule less_plus_one_u64 [OF learned(1)])
  have i: "instance_of H ?n = ?i" using D(2) by (simp add: acceptor_inv_def)
  have st: "hist_step M ?n H ?H" by (rule hist_next [OF ok]) (use lt i in simp)
  then have e: "extends H ?H" by (simp add: hist_step_def)
  have own: "same_issued ?n H ?H" by (simp add: same_issued_def)
  have s: "instance_id ?s = ?i + 1" "db ?s = db s" "net ?s = net s" "learn_loop ?s = learn_loop s"
      "acceptor ?s = Acceptor_NextInstance (acceptor s)" "proposer ?s = Proposer_NextInstance (proposer s)"
      "\<not> has_learned (learner ?s)"
    using True CheckLearn_learned [OF True] by (simp_all add: CheckLearn_parts CheckLearn_acceptor CheckLearn_ids)
  have "(?i + 1, ?n, b, v) \<notin> voted H" for b v
    using ok i lt unfolding hist_ok_def by (metis leD)
  then have "acceptor_inv ?n ?H (?i + 1) (acceptor ?s)"
    using D(2) by (auto simp: s acceptor_inv_def NextInstance_acceptor)
  moreover note nxt = issued_inv_next [OF D(3) lt]
  have "issued_inv ?n ?H (?i + 1) (proposal_id (proposer ?s))"
    using issued_inv_mono [OF own nxt(1)] by (simp add: s Proposer_NextInstance_def)
  moreover have "phase_inv M ?n ?H (?i + 1) (proposer ?s)"
    using nxt(2,3) ph skip_inv_next [OF skip_inv_mono [OF e] lt]
    by (auto simp: phase_inv_def Let_def s Proposer_NextInstance_def)
  moreover have "net_inv M ?n ?H (net s)" by (rule net_inv_mono [OF e own D(4)])
  moreover have "queue_inv M ?n ?H (?i + 1) (funcs (learn_loop s))"
    by (rule queue_inv_mono [OF e _ D(5)]) (use lt in simp)
  moreover have "log_inv M E ?H (?i + 1) (acceptor ?s) (learner ?s) (c (db s))"
  proof -
    have "pi_instance_id (snd (parse_instance E x)) = j \<and> chosen M H j (pi_accepted_value (snd (parse_instance E x)))"
      if "j < ?i + 1" "log_of E (c (db s)) j = Some x" for j x
    proof (cases "j = ?i")
      case True
      with learned(2,3) that(2) show ?thesis by (auto simp: recorded_def)
    next
      case False
      with that(1) have "j < ?i" by (rule less_next_u64)
      with D(6) that(2) show ?thesis unfolding log_inv_def by blast
    qed
    moreover have "log_of E (c (db s)) j \<noteq> None" if "first_instance H \<le> j" "j < ?i + 1" for j
    proof (cases "j = ?i")
      case True
      with learned(3) show ?thesis by (auto simp: recorded_def)
    next
      case False
      with that(2) have "j < ?i" by (rule less_next_u64)
      with D(6) that(1) show ?thesis unfolding log_inv_def by blast
    qed
    ultimately show ?thesis using s(7) chosen_mono [OF e] by (simp add: log_inv_def s NextInstance_acceptor)
  qed
  moreover have "node_ok ?s" by (rule node_ok_advance [OF True D(1)])
  ultimately have "node_inv M E c ?H ?s" using s by (simp add: node_inv_def node_base_def)
  with st show ?thesis unfolding reaches_def by blast
qed

section \<open>Learned values\<close>

text \<open>A value that was chosen and recorded may be learned; the followers are told.\<close>

lemma node_inv_learn:
  assumes mem: "member_ok M E c" and inv: "node_inv M E c H s" and i: "instance_id s \<noteq> - 1"
    and v: "chosen M H (instance_id s) v" "recorded E (c (db s)) (instance_id s) v"
  shows "node_inv M E c H
    (Learner_BroadcastMessageToFollower E b (s\<lparr>learner := FinishLearnValue v (learner s)\<rparr>))"
proof -
  let ?s = "s\<lparr>learner := FinishLearnValue v (learner s)\<rparr>"
  have base: "node_base M E c H ?s"
    using inv i v by (simp add: node_inv_def node_base_def node_ok_def log_inv_def FinishLearnValue_def)
  have l: "lrn_instance_id (learner s) = instance_id s"
    using inv by (simp add: node_inv_def node_base_def node_ok_def)
  have "node_base M E c H (Learner_BroadcastMessageToFollower E b ?s)"
    using base mem v(1) l
    by (auto simp: Learner_BroadcastMessageToFollower_def Messager_BroadcastMessageToFollower_def
        msg_ok_def member_ok_def FinishLearnValue_def intro!: node_base_cluster)
  then show ?thesis
    using inv by (simp add: node_inv_def Learner_BroadcastMessageToFollower_def)
qed

text \<open>The acceptor of the node has voted for the value its ballot was chosen with.\<close>

lemma accepted_chosen:
  assumes ok: "hist_ok M H" and inv: "acceptor_inv n H i a" and ch: "chosen_at M H i (accepted_ballot a) v"
  shows "accepted_ballot a \<noteq> Ballot_default" "accepted_value a = v"
proof -
  have p: "(i, accepted_ballot a, v) \<in> proposed H" by (rule chosen_proposed [OF ok ch])
  then have "0 < GetProposalId (accepted_ballot a)" using ok unfolding hist_ok_def by blast
  then show "accepted_ballot a \<noteq> Ballot_default" by (auto simp: Ballot_default_def)
  with inv have "(i, n, accepted_ballot a, accepted_value a) \<in> voted H" by (simp add: acceptor_inv_def)
  with ok p show "accepted_value a = v" unfolding hist_ok_def by blast
qed

lemma OnNewChosenValue_inv:
  assumes mem: "member_ok M E c" and ok: "hist_ok M H" and inv: "node_inv M E c H s" and rdy: "ready M s"
    and m: "msg_ok M H n d msg" "pm_type msg = NEW_CHOSEN_VALUE"
  shows "node_inv M E c H (OnNewChosenValue E msg s)"
proof (cases "pm_instance_id msg = lrn_instance_id (learner s) \<and>
    BallotNumber (pm_proposal_id msg) (pm_node_id msg) = accepted_ballot (acceptor s)")
  case True
  let ?a = "acceptor s"
  have base: "node_base M E c H s" using inv by (simp add: node_inv_def)
  note D = node_baseD [OF base]
  have i: "pm_instance_id msg = instance_id s" using True D(1) by (simp add: node_ok_def)
  from m True i obtain v where ch: "chosen_at M H (instance_id s) (accepted_ballot ?a) v"
    by (auto simp: msg_ok_def Let_def)
  note acc = accepted_chosen [OF ok D(2) ch]
  have "recorded E (c (db s)) (instance_id s) (accepted_value ?a)"
    using D(6) rdy acc(1) by (simp add: log_inv_def ready_def)
  with node_inv_learn [OF mem inv] ch acc(2) rdy True show ?thesis
    by (auto simp: OnNewChosenValue_def chosen_def ready_def Let_def)
next
  case False
  with inv show ?thesis by (auto simp: OnNewChosenValue_def Let_def)
qed

lemma recorded_put:
  assumes "storage_ok E c" and "instance_codec_ok E" and "pi_instance_id r = i"
  shows "recorded E (c (snd (DB_Put E sync i (ser_instance E r) d))) i (pi_accepted_value r)"
  using assms by (simp add: recorded_def db.put_lookup instance_codec_ok_def)

lemma log_inv_put:
  assumes "storage_ok E c" and "log_inv M E H i a l (c d)"
    and "if has_learned l' then i \<noteq> - 1 \<and> chosen M H i (learned_value l') \<and>
        recorded E (c (snd (DB_Put E sync i x d))) i (learned_value l')
      else accepted_ballot a' \<noteq> Ballot_default \<longrightarrow> recorded E (c (snd (DB_Put E sync i x d))) i (accepted_value a')"
  shows "log_inv M E H i a' l' (c (snd (DB_Put E sync i x d)))"
  using assms by (auto simp: log_inv_def db.put_lookup)

lemma OnSendLearnedValue_inv:
  assumes mem: "member_ok M E c" and inv: "node_inv M E c H s" and rdy: "ready M s"
    and m: "msg_ok M H n d msg" "pm_type msg = SEND_LEARNED_VALUE"
  shows "node_inv M E c H (OnSendLearnedValue E msg s)"
proof (cases "pm_instance_id msg = lrn_instance_id (learner s)")
  case True
  let ?r = "\<lparr>pi_instance_id = pm_instance_id msg, pi_promised_id = pm_proposal_id msg,
    pi_promised_node_id = pm_node_id msg, pi_accepted_id = pm_proposal_id msg,
    pi_accepted_node_id = pm_node_id msg, pi_accepted_value = pm_value msg\<rparr>"
  let ?d = "snd (DB_Put E False (pm_instance_id msg) (ser_instance E ?r) (db s))"
  let ?s = "s\<lparr>db := ?d, learner := FinishLearnValue (pm_value msg) (learner s)\<rparr>"
  have st: "storage_ok E c" "instance_codec_ok E" using mem by (simp_all add: member_ok_def)
  have base: "node_base M E c H s" using inv by (simp add: node_inv_def)
  note D = node_baseD [OF base]
  have i: "pm_instance_id msg = instance_id s" using True D(1) by (simp add: node_ok_def)
  have ch: "chosen M H (instance_id s) (pm_value msg)" using m i by (simp add: msg_ok_def Let_def)
  have rec: "recorded E (c ?d) (instance_id s) (pm_value msg)"
    using recorded_put [OF st, of ?r "instance_id s" False "db s"] i by simp
  have "log_inv M E H (instance_id s) (acceptor s) (learner ?s) (c ?d)"
    using log_inv_put [OF st(1) D(6), of "learner ?s" False] ch rec rdy
    by (simp add: i FinishLearnValue_def ready_def)
  then have s: "node_inv M E c H ?s"
    using inv by (simp add: node_inv_def node_base_def node_ok_def FinishLearnValue_def)
  have eq: "?s\<lparr>learner := FinishLearnValue (pm_value msg) (learner ?s)\<rparr> = ?s"
    by (simp add: FinishLearnValue_def)
  have "OnSendLearnedValue E msg s = Learner_BroadcastMessageToFollower E
      (BallotNumber (pm_proposal_id msg) (pm_node_id msg)) ?s"
    using True db.put_ret [OF st(1)]
    by (simp add: OnSendLearnedValue_def Learner_WriteToDB_def Let_def case_prod_beta)
  then show ?thesis
    using node_inv_learn [OF mem s, of "pm_value msg"] ch rec rdy unfolding eq by (simp add: ready_def)
next
  case False
  with inv show ?thesis by (simp add: OnSendLearnedValue_def)
qed

text \<open>The messages by which nodes that are behind are helped.\<close>

lemma node_inv_send:
  "node_inv M E c H s \<Longrightarrow> msg_ok M H (cfg_node_id E) d m \<Longrightarrow>
   node_inv M E c H (Messager_SendMessage E d (Content_paxos g m) s)"
  by (simp add: node_inv_def node_base_send)

lemma node_inv_broadcast:
  "node_inv M E c H s \<Longrightarrow> (\<And>d. msg_ok M H (cfg_node_id E) d m) \<Longrightarrow>
   node_inv M E c H (BroadcastMessage (Content_paxos g m) s)"
  by (simp add: node_inv_def node_base_broadcast)

lemma node_inv_learner:
  assumes "node_inv M E c H s" and "lrn_instance_id l = lrn_instance_id (learner s)"
    "has_learned l = has_learned (learner s)" "learned_value l = learned_value (learner s)"
  shows "node_inv M E c H (s\<lparr>learner := l\<rparr>)"
  using assms by (simp add: node_inv_def node_base_def node_ok_def log_inv_def)

lemma node_inv_queue:
  assumes "node_inv M E c H s"
    and "case t of SendTask d k \<Rightarrow> call_ok M H (cfg_node_id E) (Unicast d k)
      | ASyncSendTask d from to \<Rightarrow> to \<le> instance_id s | SendCheckpointTask d \<Rightarrow> True"
  shows "node_inv M E c H (s\<lparr>learn_loop := RunLoop_QueueInLoop (Func t) (learn_loop s)\<rparr>)"
  using assms
  by (auto simp: node_inv_def node_base_def node_ok_def queue_inv_def RunLoop_QueueInLoop_def)

lemma learned_message_ok:
  assumes "cfg_node_id E \<in> M" and "log_inv M E H i a l m" and "j < i" and "log_of E m j = Some x"
  shows "msg_ok M H (cfg_node_id E) d (learned_message E (snd (parse_instance E x)))"
proof -
  let ?r = "snd (parse_instance E x)"
  have "pi_instance_id ?r = j" "chosen M H j (pi_accepted_value ?r)"
    using assms(2-4) unfolding log_inv_def by blast+
  with assms(1) show ?thesis by (simp add: msg_ok_def learned_message_def)
qed

lemma OnAskForLearn_inv:
  assumes mem: "member_ok M E c" and inv: "node_inv M E c H s"
  shows "node_inv M E c H (OnAskForLearn E msg s)"
proof -
  have st: "storage_ok E c" "cfg_node_id E \<in> M" using mem by (simp_all add: member_ok_def)
  have base: "node_base M E c H s" using inv by (simp add: node_inv_def)
  note D = node_baseD [OF base]
  have "node_inv M E c H (SendLearnedValue E (pm_node_id msg) (snd (parse_instance E x)) s)"
    if "DB_Get E (pm_instance_id msg) (db s) = (0, x)" "pm_instance_id msg < lrn_instance_id (learner s)" for x
  proof -
    have "log_of E (c (db s)) (pm_instance_id msg) = Some x" using that(1) db.get_zero_iff [OF st(1)] by blast
    from learned_message_ok [OF st(2) D(6) _ this] that(2) D(1) show ?thesis
      by (simp add: SendLearnedValue_def node_ok_def node_inv_send inv)
  qed
  moreover have "node_inv M E c H (SendNowInstanceId E msg s)"
    using st(2) unfolding SendNowInstanceId_def Let_def
    by (intro node_inv_queue [OF inv]) (simp add: call_ok_def Content_paxos_def msg_ok_def)
  ultimately show ?thesis using inv by (auto simp: OnAskForLearn_def split: prod.split)
qed

lemma OnSendNowInstanceId_inv:
  assumes mem: "member_ok M E c" and inv: "node_inv M E c H s"
  shows "node_inv M E c H (OnSendNowInstanceId E msg s)"
proof -
  have n: "cfg_node_id E \<in> M" using mem by (simp add: member_ok_def)
  have "node_inv M E c H (AskForCheckpoint E msg s)" "node_inv M E c H (ComfirmAskForLearn E msg s)"
    unfolding AskForCheckpoint_def ComfirmAskForLearn_def using n
    by (auto intro!: node_inv_send [OF inv] simp: msg_ok_def)
  then show ?thesis using inv by (auto simp: OnSendNowInstanceId_def Let_def intro!: node_inv_learner)
qed

lemma OnComfirmAskForLearn_inv:
  assumes "node_inv M E c H s"
  shows "node_inv M E c H (OnComfirmAskForLearn msg s)"
proof -
  have "lrn_instance_id (learner s) = instance_id s"
    using assms by (simp add: node_inv_def node_base_def node_ok_def)
  then show ?thesis using node_inv_queue [OF assms] by (simp add: OnComfirmAskForLearn_def)
qed

lemma OnAskForCheckpoint_inv: "node_inv M E c H s \<Longrightarrow> node_inv M E c H (OnAskForCheckpoint msg s)"
  unfolding OnAskForCheckpoint_def by (rule node_inv_queue) simp_all

lemma node_inv_AddLearnTimer:
  assumes "node_inv M E c H s"
  shows "node_inv M E c H (AddLearnTimer E t s)"
proof -
  have "node_inv M E c H (snd (io_RunAfter E t LearnTimer s))" by (rule node_inv_same [OF assms]) simp_all
  then show ?thesis unfolding AddLearnTimer_def case_prod_beta Let_def by (rule node_inv_learner) simp_all
qed

lemma AskForLearn_inv:
  assumes mem: "member_ok M E c" and inv: "node_inv M E c H s"
  shows "node_inv M E c H (AskForLearn E b s)"
proof -
  let ?m = "PaxosMessage_default\<lparr>pm_type := ASK_FOR_LEARN, pm_node_id := cfg_node_id E,
    pm_instance_id := lrn_instance_id (learner s)\<rparr>"
  let ?s1 = "s\<lparr>learner := (learner s)\<lparr>is_learning := False, is_receiving_checkpoint := False\<rparr>\<rparr>"
  have m: "msg_ok M H (cfg_node_id E) d ?m" for d using mem by (simp add: msg_ok_def member_ok_def)
  have s1: "node_inv M E c H ?s1" by (rule node_inv_learner [OF inv]) simp_all
  let ?s2 = "BroadcastMessageForLearn E (Content_paxos (cfg_group_id E) ?m) ?s1"
  have s2: "node_inv M E c H ?s2"
    using s1 by (auto simp: BroadcastMessageForLearn_def node_inv_def intro: node_base_cluster m node_base_broadcast)
  have "node_inv M E c H (?s2\<lparr>learner := (learner ?s2)\<lparr>lrn_rand := r\<rparr>\<rparr>)" for r
    by (rule node_inv_learner [OF s2]) simp_all
  from node_inv_AddLearnTimer [OF this] s2 show ?thesis by (simp add: AskForLearn_def Let_def case_prod_beta)
qed

section \<open>The acceptor\<close>

lemma node_inv_write:
  assumes mem: "member_ok M E c" and inv: "node_inv M E c H s" and rdy: "ready M s"
    and e: "extends H H'" and own: "same_issued (cfg_node_id E) H H'"
    and a: "acceptor_inv (cfg_node_id E) H' (instance_id s) a" "acc_instance_id a = instance_id s"
      "accepted_ballot a \<le> promised_ballot a"
  shows "node_inv M E c H' (snd (Acceptor_WriteToDB E (s\<lparr>acceptor := a\<rparr>)))"
proof -
  let ?s = "snd (Acceptor_WriteToDB E (s\<lparr>acceptor := a\<rparr>))"
  have st: "storage_ok E c" "instance_codec_ok E" using mem by (simp_all add: member_ok_def)
  have base: "node_base M E c H s" and ph: "phase_inv M (cfg_node_id E) H (instance_id s) (proposer s)"
    using inv by (simp_all add: node_inv_def)
  note D = node_baseD [OF base]
  obtain sync where d: "db ?s = snd (DB_Put E sync (instance_id s) (ser_instance E (acceptor_instance a)) (db s))"
    using a(2) by (auto simp: Acceptor_WriteToDB_def Let_def case_prod_beta)
  have l: "learn_loop ?s = learn_loop s" by (simp add: Acceptor_WriteToDB_def Let_def case_prod_beta)
  have "recorded E (c (db ?s)) (instance_id s) (accepted_value a)"
    using recorded_put [OF st, of "acceptor_instance a" "instance_id s" sync "db s"] a(2)
    unfolding d by (simp add: acceptor_instance_def)
  then have "log_inv M E H' (instance_id s) a (learner s) (c (db ?s))"
    using log_inv_put [OF st(1) log_inv_mono [OF e D(6)]] rdy unfolding d by (simp add: ready_def)
  then have "log_inv M E H' (instance_id s) (acceptor ?s) (learner s) (c (db ?s))" by (simp add: log_inv_def)
  moreover have "acceptor_inv (cfg_node_id E) H' (instance_id s) (acceptor ?s)"
    using a(1) by (simp add: acceptor_inv_def)
  moreover have "node_ok ?s" using D(1) a(2,3) by (simp add: node_ok_def)
  ultimately show ?thesis
    using issued_inv_mono [OF own D(3)] net_inv_mono [OF e own D(4)] queue_inv_mono [OF e order_refl D(5)]
      phase_inv_mono [OF e own ph] l
    by (simp add: node_inv_def node_base_def)
qed

lemma ready_write: "ready M s \<Longrightarrow> ready M (snd (Acceptor_WriteToDB E (s\<lparr>acceptor := a\<rparr>)))"
  by (simp add: ready_def)

lemma reply_reaches:
  assumes "hist_ok M H" "node_inv M E c H s" "msg_ok M H (cfg_node_id E) d r"
    and "d = cfg_node_id E \<Longrightarrow> reaches M E c H (rec r s)"
  shows "reaches M E c H (reply_to E rec d r s)"
  using assms(4) reaches_refl [OF assms(1) node_inv_send [OF assms(2,3)]] by (simp add: reply_to_def)

text \<open>A refusal names a ballot, which is not zero.\<close>

lemma refused_nonzero: "\<not> b' \<le> b \<Longrightarrow> 0 < GetProposalId b \<Longrightarrow> GetProposalId b' \<noteq> 0"
  using ballot_less_proposal [of b b'] by (metis leD not_le)

lemma OnPrepare_reaches:
  assumes mem: "member_ok M E c" and ok: "hist_ok M H" and inv: "node_inv M E c H s" and rdy: "ready M s"
    and m: "msg_ok M H n (cfg_node_id E) msg" "pm_type msg = PREPARE" "pm_instance_id msg \<noteq> instance_id s + 1"
    and own: "\<And>G t r. n = cfg_node_id E \<Longrightarrow> hist_ok M G \<Longrightarrow> node_inv M E c G t \<Longrightarrow> ready M t \<Longrightarrow>
      msg_ok M G n n r \<Longrightarrow> pm_type r = PREPARE_REPLY \<Longrightarrow> pm_proposal_id r = pm_proposal_id msg \<Longrightarrow>
      proposer t = proposer s \<Longrightarrow> reaches M E c G (rec r t)"
  shows "reaches M E c H (Acceptor_OnPrepare E rec msg s)"
proof (cases "pm_instance_id msg = instance_id s")
  case False
  have "acc_instance_id (acceptor s) = instance_id s" using inv by (simp add: node_inv_def node_base_def node_ok_def)
  with False m(3) reaches_refl [OF ok inv] show ?thesis by (simp add: Acceptor_OnPrepare_def)
next
  case True
  let ?n = "cfg_node_id E" and ?a = "acceptor s" and ?i = "instance_id s"
  let ?b = "BallotNumber (pm_proposal_id msg) n"
  let ?r = "PaxosMessage_default\<lparr>pm_type := PREPARE_REPLY, pm_node_id := ?n,
    pm_instance_id := ?i, pm_proposal_id := pm_proposal_id msg\<rparr>"
  have base: "node_base M E c H s" using inv by (simp add: node_inv_def)
  note D = node_baseD [OF base]
  have ids: "acc_instance_id ?a = ?i" "accepted_ballot ?a \<le> promised_ballot ?a" using D(1) by (simp_all add: node_ok_def)
  have n: "pm_node_id msg = n" and pre: "0 < pm_proposal_id msg" "(?i, ?b) \<in> prepared H" and mem': "?n \<in> M"
    using m mem True by (simp_all add: msg_ok_def member_ok_def Let_def)
  show ?thesis
  proof (cases "promised_ballot ?a \<le> ?b")
    case le: True
    let ?H = "H\<lparr>promise_of := (promise_of H)(?n := ?b)\<rparr>" and ?a1 = "?a\<lparr>promised_ballot := ?b\<rparr>"
    let ?s = "snd (Acceptor_WriteToDB E (s\<lparr>acceptor := ?a1\<rparr>))"
    let ?r1 = "if GetProposalId (accepted_ballot ?a) > 0
      then ?r\<lparr>pm_pre_accepted_id := GetProposalId (accepted_ballot ?a),
        pm_pre_accepted_node_id := GetNodeId (accepted_ballot ?a), pm_value := accepted_value ?a\<rparr> else ?r"
    have st: "hist_step M ?n H ?H" using D(2) le by (intro hist_promise [OF ok]) (simp add: acceptor_inv_def)
    then have e: "extends H ?H" and ok': "hist_ok M ?H" by (simp_all add: hist_step_def)
    have s: "node_inv M E c ?H ?s"
      by (rule node_inv_write [OF mem inv rdy e]) (use D(2) ids le in \<open>auto simp: same_issued_def acceptor_inv_def\<close>)
    have acc: "accepted_ballot ?a = Ballot_default \<or> 0 < GetProposalId (accepted_ballot ?a) \<and>
        (?i, ?n, accepted_ballot ?a, accepted_value ?a) \<in> voted H"
      using D(2) ok unfolding acceptor_inv_def hist_ok_def by blast
    then have rb: "reply_ballot ?r1 = accepted_ballot ?a"
      by (auto simp: reply_ballot_def Ballot_default_def PaxosMessage_default_def)
    have "joined ?H ?n ?i ?b"
      using D(2) by (intro joined_promise [OF ok]) (simp add: acceptor_inv_def)
    moreover have "reply_ballot ?r1 = Ballot_default \<or> (?i, ?n, reply_ballot ?r1, pm_value ?r1) \<in> voted H"
      using acc unfolding rb by auto
    moreover have "c' \<le> reply_ballot ?r1" if "(?i, ?n, c', w) \<in> voted H" for c' w
      using D(2) that unfolding rb acceptor_inv_def by blast
    ultimately have "promise_ok ?H ?n ?i ?b ?r1"
      using ids(2) le unfolding promise_ok_def rb by auto
    then have r: "msg_ok M ?H ?n n ?r1" using pre mem' by (auto simp: msg_ok_def Let_def split: if_splits)
    have "reaches M E c ?H (reply_to E rec n ?r1 ?s)"
      by (rule reply_reaches [OF ok' s r]) (rule own; use ok' s r ready_write [OF rdy] in simp)
    from reaches_trans [OF st this] show ?thesis
      using True le n ids by (simp add: Acceptor_OnPrepare_def Let_def)
  next
    case False
    let ?r1 = "?r\<lparr>pm_rejected_id := GetProposalId (promised_ballot ?a)\<rparr>"
    have "GetProposalId (promised_ballot ?a) \<noteq> 0" using refused_nonzero [OF False] pre(1) by simp
    then have r: "msg_ok M H ?n n ?r1" using pre mem' by (simp add: msg_ok_def)
    have "reaches M E c H (reply_to E rec n ?r1 s)"
      by (rule reply_reaches [OF ok inv r]) (rule own; use ok inv r rdy in simp)
    then show ?thesis using True False n ids by (simp add: Acceptor_OnPrepare_def Let_def)
  qed
qed

lemma OnAccpet_reaches:
  assumes mem: "member_ok M E c" and ok: "hist_ok M H" and inv: "node_inv M E c H s" and rdy: "ready M s"
    and m: "msg_ok M H n (cfg_node_id E) msg" "pm_type msg = ACCEPT" "pm_instance_id msg \<noteq> instance_id s + 1"
    and own: "\<And>G t r. n = cfg_node_id E \<Longrightarrow> hist_ok M G \<Longrightarrow> node_inv M E c G t \<Longrightarrow> ready M t \<Longrightarrow>
      msg_ok M G n n r \<Longrightarrow> pm_type r = ACCEPT_REPLY \<Longrightarrow> pm_proposal_id r = pm_proposal_id msg \<Longrightarrow>
      proposer t = proposer s \<Longrightarrow> reaches M E c G (rec r t)"
  shows "reaches M E c H (Acceptor_OnAccpet E rec msg s)"
proof (cases "pm_instance_id msg = instance_id s")
  case False
  have "acc_instance_id (acceptor s) = instance_id s" using inv by (simp add: node_inv_def node_base_def node_ok_def)
  with False m(3) reaches_refl [OF ok inv] show ?thesis by (simp add: Acceptor_OnAccpet_def)
next
  case True
  let ?n = "cfg_node_id E" and ?a = "acceptor s" and ?i = "instance_id s" and ?v = "pm_value msg"
  let ?b = "BallotNumber (pm_proposal_id msg) n"
  let ?r = "PaxosMessage_default\<lparr>pm_type := ACCEPT_REPLY, pm_node_id := ?n,
    pm_instance_id := ?i, pm_proposal_id := pm_proposal_id msg\<rparr>"
  have base: "node_base M E c H s" using inv by (simp add: node_inv_def)
  note D = node_baseD [OF base]
  have ids: "acc_instance_id ?a = ?i" using D(1) by (simp add: node_ok_def)
  have n: "pm_node_id msg = n" and pro: "(?i, ?b, ?v) \<in> proposed H" and mem': "?n \<in> M"
    using m mem True by (simp_all add: msg_ok_def member_ok_def Let_def)
  show ?thesis
  proof (cases "promised_ballot ?a \<le> ?b")
    case le: True
    let ?H = "H\<lparr>promise_of := (promise_of H)(?n := ?b), voted := insert (?i, ?n, ?b, ?v) (voted H)\<rparr>"
    let ?a1 = "?a\<lparr>promised_ballot := ?b, accepted_ballot := ?b, accepted_value := ?v\<rparr>"
    let ?s = "snd (Acceptor_WriteToDB E (s\<lparr>acceptor := ?a1\<rparr>))"
    have st: "hist_step M ?n H ?H"
      using D(2) le pro mem' by (intro hist_vote [OF ok]) (simp_all add: acceptor_inv_def)
    then have e: "extends H ?H" and ok': "hist_ok M ?H" by (simp_all add: hist_step_def)
    have "c' \<le> ?b" if "(?i, ?n, c', w) \<in> voted H" for c' w
      using hist_okD(4) [OF ok that] D(2) le by (auto simp: acceptor_inv_def)
    then have s: "node_inv M E c ?H ?s"
      by (intro node_inv_write [OF mem inv rdy e])
        (use D(2) ids in \<open>auto simp: same_issued_def acceptor_inv_def\<close>)
    have r: "msg_ok M ?H ?n n ?r" using pro mem' by (auto simp: msg_ok_def Let_def)
    have "reaches M E c ?H (reply_to E rec n ?r ?s)"
      by (rule reply_reaches [OF ok' s r]) (rule own; use ok' s r ready_write [OF rdy] in simp)
    from reaches_trans [OF st this] show ?thesis
      using True le n ids by (simp add: Acceptor_OnAccpet_def Let_def)
  next
    case False
    let ?r1 = "?r\<lparr>pm_rejected_id := GetProposalId (promised_ballot ?a)\<rparr>"
    have "GetProposalId (promised_ballot ?a) \<noteq> 0"
      using refused_nonzero [OF False] hist_okD(6) [OF ok pro] by simp
    then have r: "msg_ok M H ?n n ?r1" using pro mem' by (auto simp: msg_ok_def Let_def)
    have "reaches M E c H (reply_to E rec n ?r1 s)"
      by (rule reply_reaches [OF ok inv r]) (rule own; use ok inv r rdy in simp)
    then show ?thesis using True False n ids by (simp add: Acceptor_OnAccpet_def Let_def)
  qed
qed

section \<open>The proposer\<close>

lemma phase_inv_same:
  assumes "phase_inv M n H i p" "proposal_id p' = proposal_id p" "preparing p' = preparing p"
    "accepting p' = accepting p" "skip_prepare p' = skip_prepare p" "counter p' = counter p"
    "max_ballot p' = max_ballot p" "pro_value p' = pro_value p"
  shows "phase_inv M n H i p'"
  using assms by (simp add: phase_inv_def preparing_inv_def accepting_inv_def Let_def)

text \<open>A proposer in no phase.\<close>

lemma phase_inv_stopped:
  "phase_inv M n H i p \<Longrightarrow> proposal_id p' = proposal_id p \<Longrightarrow> \<not> preparing p' \<Longrightarrow> \<not> accepting p' \<Longrightarrow>
   skip_prepare p' = skip_prepare p \<Longrightarrow> phase_inv M n H i p'"
  by (simp add: phase_inv_def Let_def)

lemma node_inv_proposer:
  assumes "node_inv M E c H s" "phase_inv M (cfg_node_id E) H (instance_id s) p"
    "proposal_id p = proposal_id (proposer s)" "pro_instance_id p = pro_instance_id (proposer s)"
  shows "node_inv M E c H (s\<lparr>proposer := p\<rparr>)"
  using assms by (simp add: node_inv_def node_base_def node_ok_def)

lemma node_inv_phase: "node_inv M E c H s \<Longrightarrow> phase_inv M (cfg_node_id E) H (instance_id s) (proposer s)"
  by (simp add: node_inv_def)

lemma node_inv_SetMax:
  assumes "node_inv M E c H s"
  shows "node_inv M E c H (s\<lparr>proposer := Proposer_SetMaxProposalId msg (proposer s)\<rparr>)"
  by (rule node_inv_proposer [OF assms phase_inv_same [OF node_inv_phase [OF assms]]])
    (simp_all add: Proposer_SetMaxProposalId_def Let_def)

lemma node_inv_AddRetryTimer:
  assumes "node_inv M E c H s"
  shows "node_inv M E c H (AddRetryTimer E d s)"
proof -
  let ?s = "snd (io_RunAfter E d (RetryTimer (pro_instance_id (proposer s))) s)"
  have s: "node_inv M E c H ?s" by (rule node_inv_same [OF assms]) simp_all
  show ?thesis
    unfolding AddRetryTimer_def case_prod_beta Let_def
    by (rule node_inv_proposer [OF s phase_inv_same [OF node_inv_phase [OF s]]]) simp_all
qed

lemma node_inv_RemoveRetryTimer: "node_inv M E c H s \<Longrightarrow> node_inv M E c H (RemoveRetryTimer s)"
  unfolding RemoveRetryTimer_def by (rule node_inv_same) simp_all

lemma node_inv_AddShortRetryTimer:
  assumes "node_inv M E c H s"
  shows "node_inv M E c H (AddShortRetryTimer E s)"
  unfolding AddShortRetryTimer_def case_prod_beta Let_def
  by (intro node_inv_AddRetryTimer node_inv_proposer [OF assms phase_inv_same [OF node_inv_phase [OF assms]]])
    simp_all

text \<open>A round in which no majority is left to be had.\<close>

lemma node_inv_give_up:
  assumes inv: "node_inv M E c H s" and p: "proposal_id p = proposal_id (proposer s)"
    "pro_instance_id p = pro_instance_id (proposer s)" "\<not> preparing p" "\<not> accepting p"
    "skip_prepare p = skip_prepare (proposer s)"
  shows "node_inv M E c H (AddShortRetryTimer E (RemoveRetryTimer (s\<lparr>proposer := p\<rparr>)))"
  by (intro node_inv_AddShortRetryTimer node_inv_RemoveRetryTimer
      node_inv_proposer [OF inv phase_inv_stopped [OF node_inv_phase [OF inv]]])
    (simp_all add: p)

lemma passed_quorum:
  assumes "ready M s" "IsPassedOnThisRound s k" "promisors_or_acceptors k \<subseteq> M"
  shows "quorum M (promisors_or_acceptors k)"
proof -
  have "card M = length (ms_members (membership s))"
    using assms(1) distinct_card [of "map fst (ms_members (membership s))"] by (auto simp: ready_def)
  with assms(2,3) show ?thesis by (simp add: quorum_def IsPassedOnThisRound_def GetMajoritySize_def)
qed

lemma count_accept_reply_parts [simp]:
  "promisors_or_acceptors (counter (count_accept_reply m p)) =
     (if pm_rejected_id m = 0 then insert (pm_node_id m) (promisors_or_acceptors (counter p))
      else promisors_or_acceptors (counter p))"
  "proposal_id (count_accept_reply m p) = proposal_id p" "pro_value (count_accept_reply m p) = pro_value p"
  "pro_instance_id (count_accept_reply m p) = pro_instance_id p"
  "preparing (count_accept_reply m p) = preparing p" "accepting (count_accept_reply m p) = accepting p"
  "skip_prepare (count_accept_reply m p) = skip_prepare p"
  by (simp_all add: count_accept_reply_def Let_def AddReceivedNode_def AddPromisorOrAcceptor_def AddRejector_def)

lemma ready_proposer [simp]: "ready M (s\<lparr>proposer := p\<rparr>) = ready M s"
  by (simp add: ready_def)

lemma ready_timers [simp]:
  "ready M (RemoveRetryTimer s) = ready M s" "ready M (BroadcastMessage k s) = ready M s"
  "ready M (AddRetryTimer E d s) = ready M s"
  by (simp_all add: ready_def RemoveRetryTimer_def AddRetryTimer_def case_prod_beta Let_def)

lemma accept_counted:
  assumes ok: "hist_ok M H" and ph: "phase_inv M n H i p" "accepting p"
    and m: "msg_ok M H a n msg" "pm_type msg = ACCEPT_REPLY" "pm_instance_id msg = i"
      "pm_rejected_id msg = 0 \<Longrightarrow> pm_proposal_id msg = proposal_id p"
  shows "accepting_inv H i (BallotNumber (proposal_id p) n) (count_accept_reply msg p)"
proof -
  let ?b = "BallotNumber (proposal_id p) n"
  from m obtain v where v: "(i, BallotNumber (pm_proposal_id msg) n, v) \<in> proposed H"
      "pm_rejected_id msg = 0 \<Longrightarrow> (i, a, BallotNumber (pm_proposal_id msg) n, v) \<in> voted H"
      "pm_node_id msg = a"
    by (auto simp: msg_ok_def Let_def)
  have "\<exists>c w. (i, c, w) \<in> proposed H \<and> GetNodeId c = n" using v(1) by auto
  with ph have inv: "accepting_inv H i ?b p" by (simp add: phase_inv_def Let_def)
  have "(i, a, ?b, pro_value p) \<in> voted H" if "pm_rejected_id msg = 0"
  proof -
    have "(i, a, ?b, v) \<in> voted H" using v(2) [OF that] m(4) [OF that] by simp
    moreover from hist_okD(3) [OF ok this] have "v = pro_value p"
      using inv hist_okD(8) [OF ok] unfolding accepting_inv_def by blast
    ultimately show ?thesis by simp
  qed
  with inv v(3) show ?thesis by (auto simp: accepting_inv_def)
qed

lemma OnAccpetReply_reaches:
  assumes mem: "member_ok M E c" and ok: "hist_ok M H" and inv: "node_inv M E c H s" and rdy: "ready M s"
    and m: "msg_ok M H a (cfg_node_id E) msg" "pm_type msg = ACCEPT_REPLY"
      "pm_rejected_id msg = 0 \<Longrightarrow> pm_instance_id msg = instance_id s \<Longrightarrow> pm_proposal_id msg = proposal_id (proposer s)"
    and rec: "\<And>G t r. hist_ok M G \<Longrightarrow> node_inv M E c G t \<Longrightarrow> ready M t \<Longrightarrow>
      msg_ok M G (cfg_node_id E) (cfg_node_id E) r \<Longrightarrow> pm_type r = NEW_CHOSEN_VALUE \<Longrightarrow> reaches M E c G (rec r t)"
  shows "reaches M E c H (OnAccpetReply E rec msg s)"
proof -
  let ?n = "cfg_node_id E" and ?i = "instance_id s" and ?p = "count_accept_reply msg (proposer s)"
  have p: "pro_instance_id (proposer s) = ?i" using inv by (simp add: node_inv_def node_base_def node_ok_def)
  define s1 where "s1 =
    (if accepting (proposer s) \<and> pm_instance_id msg = pro_instance_id (proposer s) then
       (if IsPassedOnThisRound s (counter ?p) then
          Proposer_NewChosenValue E rec (RemoveRetryTimer (s\<lparr>proposer := ?p\<lparr>accepting := False\<rparr>\<rparr>))
        else if IsRejectedOnThisRound s (counter ?p) \<or> IsReceiveAllOnThisRound s (counter ?p)
        then AddShortRetryTimer E (RemoveRetryTimer (s\<lparr>proposer := ?p\<lparr>accepting := False\<rparr>\<rparr>))
        else s\<lparr>proposer := ?p\<rparr>)
     else s)"
  have "reaches M E c H s1"
  proof (cases "accepting (proposer s) \<and> pm_instance_id msg = ?i")
    case False
    with reaches_refl [OF ok inv] p show ?thesis by (auto simp: s1_def)
  next
    case True
    note ph = node_inv_phase [OF inv]
    have np: "\<not> preparing (proposer s)" using ph True by (simp add: phase_inv_def Let_def)
    have acc: "accepting_inv H ?i (BallotNumber (proposal_id (proposer s)) ?n) ?p"
      by (rule accept_counted [OF ok ph _ m(1,2)]) (use True m(3) in auto)
    let ?s = "RemoveRetryTimer (s\<lparr>proposer := ?p\<lparr>accepting := False\<rparr>\<rparr>)"
    have s: "node_inv M E c H ?s"
      by (intro node_inv_RemoveRetryTimer node_inv_proposer [OF inv phase_inv_stopped [OF ph]]) (simp_all add: np)
    show ?thesis
    proof (cases "IsPassedOnThisRound s (counter ?p)")
      case pass: True
      let ?m = "PaxosMessage_default\<lparr>pm_type := NEW_CHOSEN_VALUE, pm_node_id := ?n, pm_instance_id := ?i,
        pm_proposal_id := proposal_id (proposer s)\<rparr>"
      have "promisors_or_acceptors (counter ?p) \<subseteq> M"
        using acc hist_okD(2) [OF ok] unfolding accepting_inv_def by blast
      from passed_quorum [OF rdy pass this] acc
      have "chosen_at M H ?i (BallotNumber (proposal_id (proposer s)) ?n) (pro_value ?p)"
        unfolding chosen_at_def accepting_inv_def by blast
      then have m': "msg_ok M H ?n d ?m" for d using mem by (auto simp: msg_ok_def member_ok_def Let_def)
      have "node_inv M E c H (BroadcastMessage (Content_paxos (cfg_group_id E) ?m) ?s)"
        by (rule node_inv_broadcast [OF s m'])
      from rec [OF ok this _ m'] rdy
      have "reaches M E c H (rec ?m (BroadcastMessage (Content_paxos (cfg_group_id E) ?m) ?s))" by simp
      then have "reaches M E c H (Proposer_NewChosenValue E rec ?s)"
        by (simp add: Proposer_NewChosenValue_def Let_def RemoveRetryTimer_def p)
      with True pass p show ?thesis by (simp add: s1_def)
    next
      case False
      have "node_inv M E c H (s\<lparr>proposer := ?p\<rparr>)"
        by (rule node_inv_proposer [OF inv])
          (use ph acc np in \<open>simp_all add: phase_inv_def Let_def\<close>)
      moreover have "node_inv M E c H (AddShortRetryTimer E ?s)"
        by (rule node_inv_give_up [OF inv]) (simp_all add: np)
      ultimately show ?thesis using True False p by (auto simp: s1_def intro: reaches_refl [OF ok])
    qed
  qed
  from reaches_map [OF this] reaches_refl node_inv_SetMax
  have "reaches M E c H (s1\<lparr>proposer := Proposer_SetMaxProposalId msg (proposer s1)\<rparr>)" by blast
  then show ?thesis unfolding OnAccpetReply_def s1_def Let_def .
qed

text \<open>The state in which a round starts: the message is out and the timer runs.\<close>

lemma round_parts:
  fixes s :: "('d, 'w, 'z) node_scheme" and E :: "('d, 'w) env" and k :: Content and d :: u64 and p :: Proposer
  defines "s' \<equiv> BroadcastMessage k (AddRetryTimer E d (s\<lparr>proposer := p\<rparr>))"
  shows "acceptor s' = acceptor s" "learner s' = learner s" "instance_id s' = instance_id s" "db s' = db s"
    "learn_loop s' = learn_loop s" "membership s' = membership s"
    "ready M s \<Longrightarrow> M \<noteq> {} \<Longrightarrow> net s' = net s @ [Multicast (membership s) k]"
    "proposal_id (proposer s') = proposal_id p" "pro_instance_id (proposer s') = pro_instance_id p"
    "phase_inv M n H i (proposer s') = phase_inv M n H i p"
  unfolding s'_def
  by (auto simp: AddRetryTimer_def case_prod_beta Let_def BroadcastMessage_def ready_def phase_inv_def
      preparing_inv_def accepting_inv_def)

lemma Accept_reaches:
  fixes s :: "('d, 'w, 'z) node_scheme" and E :: "('d, 'w) env"
  defines "p \<equiv> proposer s" and "i \<equiv> instance_id s"
  defines "b \<equiv> BallotNumber (proposal_id p) (cfg_node_id E)"
  assumes mem: "member_ok M E c" and ok: "hist_ok M H" and base: "node_base M E c H s" and rdy: "ready M s"
    and safe: "safe_at M H i b (pro_value p)" and new: "\<And>w. (i, b, w) \<notin> proposed H"
    and Q: "quorum M Q" "j \<le> i" "\<And>a. a \<in> Q \<Longrightarrow> joined H a j b"
    and rec: "\<And>G t r. hist_ok M G \<Longrightarrow> node_inv M E c G t \<Longrightarrow> ready M t \<Longrightarrow>
      msg_ok M G (cfg_node_id E) (cfg_node_id E) r \<Longrightarrow> pm_type r = ACCEPT \<Longrightarrow>
      pm_instance_id r = instance_id t \<Longrightarrow> pm_proposal_id r = proposal_id (proposer t) \<Longrightarrow> reaches M E c G (rec r t)"
  shows "reaches M E c H (Accept E rec s)"
proof -
  let ?n = "cfg_node_id E" and ?H = "H\<lparr>proposed := insert (i, b, pro_value p) (proposed H)\<rparr>"
  let ?m = "PaxosMessage_default\<lparr>pm_type := ACCEPT, pm_node_id := ?n, pm_instance_id := i,
    pm_proposal_id := proposal_id p, pm_value := pro_value p\<rparr>"
  let ?p = "p\<lparr>preparing := False, accepting := True, counter := StartNewRound (counter p)\<rparr>"
  define s' where "s' = BroadcastMessage (Content_paxos (cfg_group_id E) ?m) (AddRetryTimer E 200000 (s\<lparr>proposer := ?p\<rparr>))"
  note D = node_baseD [OF base, folded i_def p_def]
  have M: "M \<noteq> {}" "?n \<in> M" using mem by (auto simp: member_ok_def)
  have pi: "pro_instance_id p = i" using D(1) by (simp add: node_ok_def i_def p_def)
  have b: "GetNodeId b = ?n" "GetProposalId b = proposal_id p" by (simp_all add: b_def)
  have st: "hist_step M ?n H ?H"
    using issued_invD(1) [OF D(3)] by (intro hist_propose [OF ok b(1) _ safe new]) (simp add: b)
  then have e: "extends H ?H" and ok': "hist_ok M ?H" by (simp_all add: hist_step_def)
  have m: "msg_ok M ?H ?n d ?m" for d using M(2) by (simp add: msg_ok_def b_def)
  note parts = round_parts [where k = "Content_paxos (cfg_group_id E) ?m" and p = ?p and s = s and E = E and d = 200000,
      folded s'_def]
  have net: "net s' = net s @ [Multicast (membership s) (Content_paxos (cfg_group_id E) ?m)]"
    by (rule parts(7) [OF rdy M(1)])
  have "accept_sent (net s') i (proposal_id p)" unfolding net by (auto simp: accept_sent_def Content_paxos_def)
  moreover have "\<forall>k\<in>set (net s'). call_ok M ?H ?n k"
    using D(4) call_ok_mono [OF e] call_ok_multicast [OF m] unfolding net net_inv_def by auto
  ultimately have "net_inv M ?n ?H (net s')"
    using D(4) accept_sent_snoc unfolding net net_inv_def by (auto simp: b)
  moreover have "acceptor_inv ?n ?H i (acceptor s')" using D(2) by (simp add: acceptor_inv_def parts)
  moreover have "issued_inv ?n ?H i (proposal_id p)"
    using D(3) unfolding issued_inv_def by (auto simp: b)
  moreover have "skip_inv M ?H i b"
    unfolding skip_inv_def using Q joined_mono [OF e] by (intro exI [of _ Q] exI [of _ j]) auto
  then have "phase_inv M ?n ?H i ?p"
    by (auto simp: phase_inv_def Let_def accepting_inv_def StartNewRound_def b_def [symmetric])
  moreover have "node_ok s'" using D(1) pi by (simp add: node_ok_def parts i_def)
  ultimately have "node_inv M E c ?H s'"
    using queue_inv_mono [OF e order_refl D(5)] log_inv_mono [OF e D(6)]
    by (simp add: node_inv_def node_base_def parts i_def)
  then have "reaches M E c ?H (rec ?m s')"
    by (rule rec [OF ok' _ _ m]) (use rdy in \<open>simp_all add: parts i_def ready_def\<close>)
  moreover have "Accept E rec s = rec ?m s'"
    using pi by (simp add: Accept_def s'_def Let_def p_def [symmetric])
  ultimately show ?thesis using reaches_trans [OF st] by simp
qed

lemma Prepare_reaches:
  fixes s :: "('d, 'w, 'z) node_scheme" and nw :: bool
  defines "p \<equiv> proposer s" and "i \<equiv> instance_id s"
  defines "q \<equiv> proposal_id (start_prepare nw p)"
  assumes mem: "member_ok M E c" and ok: "hist_ok M H" and base: "node_base M E c H s" and rdy: "ready M s"
    and q: "proposal_id p \<le> q" and new: "\<And>w. (i, BallotNumber q (cfg_node_id E), w) \<notin> proposed H"
    and rec: "\<And>G t r. hist_ok M G \<Longrightarrow> node_inv M E c G t \<Longrightarrow> ready M t \<Longrightarrow>
      msg_ok M G (cfg_node_id E) (cfg_node_id E) r \<Longrightarrow> pm_type r = PREPARE \<Longrightarrow>
      pm_instance_id r = instance_id t \<Longrightarrow> pm_proposal_id r = proposal_id (proposer t) \<Longrightarrow> reaches M E c G (rec r t)"
  shows "reaches M E c H (Prepare E rec nw s)"
proof -
  let ?n = "cfg_node_id E" and ?b = "BallotNumber q (cfg_node_id E)"
  let ?H = "H\<lparr>prepared := insert (i, ?b) (prepared H)\<rparr>"
  let ?m = "PaxosMessage_default\<lparr>pm_type := PREPARE, pm_node_id := ?n, pm_instance_id := i, pm_proposal_id := q\<rparr>"
  let ?p = "(start_prepare nw p)\<lparr>counter := StartNewRound (counter p)\<rparr>"
  define s' where "s' = BroadcastMessage (Content_paxos (cfg_group_id E) ?m) (AddRetryTimer E 200000 (s\<lparr>proposer := ?p\<rparr>))"
  note D = node_baseD [OF base, folded i_def p_def]
  have M: "M \<noteq> {}" "?n \<in> M" using mem by (auto simp: member_ok_def)
  have sp: "pro_instance_id ?p = i" "\<not> accepting ?p" "\<not> skip_prepare ?p" "max_ballot ?p = Ballot_default"
      "promisors_or_acceptors (counter ?p) = {}" "proposal_id ?p = q" "counter (start_prepare nw p) = counter p"
      "pro_instance_id (start_prepare nw p) = i"
    using D(1) by (simp_all add: node_ok_def i_def p_def q_def start_prepare_def Let_def StartNewRound_def)
  have pos: "0 < q" using issued_invD(1) [OF D(3)] q by simp
  have st: "hist_step M ?n H ?H" by (rule hist_prepare [OF ok]) simp
  then have e: "extends H ?H" and ok': "hist_ok M ?H" by (simp_all add: hist_step_def)
  have m: "msg_ok M ?H ?n d ?m" for d using M(2) pos by (simp add: msg_ok_def)
  note parts = round_parts [where k = "Content_paxos (cfg_group_id E) ?m" and p = ?p and s = s and E = E and d = 200000,
      folded s'_def]
  have net: "net s' = net s @ [Multicast (membership s) (Content_paxos (cfg_group_id E) ?m)]"
    by (rule parts(7) [OF rdy M(1)])
  have "\<forall>k\<in>set (net s'). call_ok M ?H ?n k"
    using D(4) call_ok_mono [OF e] call_ok_multicast [OF m] unfolding net net_inv_def by auto
  then have "net_inv M ?n ?H (net s')"
    using D(4) accept_sent_snoc unfolding net net_inv_def by auto
  moreover have "acceptor_inv ?n ?H i (acceptor s')" using D(2) by (simp add: acceptor_inv_def parts)
  moreover have "issued_inv ?n ?H i q"
    using D(3) pos q unfolding issued_inv_def by (auto intro: order_trans)
  moreover have "phase_inv M ?n ?H i ?p"
    using new sp by (auto simp: phase_inv_def Let_def preparing_inv_def)
  moreover have "node_ok s'" using D(1) sp(1) by (simp add: node_ok_def parts i_def)
  ultimately have "node_inv M E c ?H s'"
    using queue_inv_mono [OF e order_refl D(5)] log_inv_mono [OF e D(6)] sp(6)
    by (simp add: node_inv_def node_base_def parts i_def)
  then have "reaches M E c ?H (rec ?m s')"
    by (rule rec [OF ok' _ _ m]) (use rdy sp(6) in \<open>simp_all add: parts i_def ready_def\<close>)
  moreover have "Prepare E rec nw s = rec ?m s'"
    using sp by (simp add: Prepare_def s'_def Let_def p_def [symmetric] q_def)
  ultimately show ?thesis using reaches_trans [OF st] by simp
qed

lemma count_prepare_reply_parts [simp]:
  "proposal_id (count_prepare_reply m p) = proposal_id p"
  "pro_instance_id (count_prepare_reply m p) = pro_instance_id p"
  "preparing (count_prepare_reply m p) = preparing p" "accepting (count_prepare_reply m p) = accepting p"
  "skip_prepare (count_prepare_reply m p) = skip_prepare p"
  by (simp_all add: count_prepare_reply_def Let_def)

lemma prepare_counted:
  assumes ph: "phase_inv M n H i p" "preparing p"
    and m: "msg_ok M H a n msg" "pm_type msg = PREPARE_REPLY" "pm_instance_id msg = i"
      "pm_rejected_id msg = 0 \<Longrightarrow> pm_proposal_id msg = proposal_id p"
  shows "preparing_inv M H i (BallotNumber (proposal_id p) n) (count_prepare_reply msg p)"
proof -
  let ?b = "BallotNumber (proposal_id p) n" and ?p = "count_prepare_reply msg p"
  have a: "a \<in> M" "pm_node_id msg = a" "(i, BallotNumber (pm_proposal_id msg) n) \<in> prepared H"
    using m by (simp_all add: msg_ok_def Let_def)
  have "\<exists>c. (i, c) \<in> prepared H \<and> GetNodeId c = n" using a(3) by auto
  with ph have inv: "preparing_inv M H i ?b p" by (simp add: phase_inv_def Let_def)
  show ?thesis
  proof (cases "pm_rejected_id msg = 0")
    case False
    with inv show ?thesis by (simp add: preparing_inv_def count_prepare_reply_counter count_prepare_reply_ballot)
  next
    case True
    have pr: "promise_ok H a i ?b msg" using m True by (simp add: msg_ok_def Let_def)
    have mb: "max_ballot ?p = max (max_ballot p) (reply_ballot msg)"
      using True by (simp add: count_prepare_reply_ballot)
    have "max_ballot ?p = Ballot_default \<or> (\<exists>a. (i, a, max_ballot ?p, pro_value ?p) \<in> voted H)"
      using inv pr True by (auto simp: preparing_inv_def promise_ok_def count_prepare_reply_ballot max_def not_less)
    moreover have "\<forall>x\<in>promisors_or_acceptors (counter ?p). x \<in> M \<and> joined H x i ?b \<and>
        (\<forall>c w. (i, x, c, w) \<in> voted H \<longrightarrow> c < ?b \<longrightarrow> c \<le> max_ballot ?p)"
      using inv pr a True unfolding mb
      by (auto simp: preparing_inv_def promise_ok_def count_prepare_reply_counter le_max_iff_disj)
    ultimately show ?thesis
      using inv pr unfolding preparing_inv_def promise_ok_def mb by auto
  qed
qed

lemma passed_safe:
  assumes ok: "hist_ok M H" and inv: "preparing_inv M H i b p" and Q: "quorum M (promisors_or_acceptors (counter p))"
  shows "safe_at M H i b (pro_value p)"
proof -
  have "max_ballot p = Ballot_default \<or> max_ballot p < b \<and> (\<exists>a. (i, a, max_ballot p, pro_value p) \<in> voted H)"
    using inv hist_okD(3) [OF ok] unfolding preparing_inv_def by (metis order.not_eq_order_implies_strict)
  with inv Q show ?thesis unfolding safe_at_def preparing_inv_def joined_def by blast
qed

lemma OnPrepareReply_reaches:
  assumes mem: "member_ok M E c" and ok: "hist_ok M H" and inv: "node_inv M E c H s" and rdy: "ready M s"
    and m: "msg_ok M H a (cfg_node_id E) msg" "pm_type msg = PREPARE_REPLY"
      "pm_rejected_id msg = 0 \<Longrightarrow> pm_instance_id msg = instance_id s \<Longrightarrow> pm_proposal_id msg = proposal_id (proposer s)"
    and rec: "\<And>G t r. hist_ok M G \<Longrightarrow> node_inv M E c G t \<Longrightarrow> ready M t \<Longrightarrow>
      msg_ok M G (cfg_node_id E) (cfg_node_id E) r \<Longrightarrow> pm_type r = ACCEPT \<Longrightarrow>
      pm_instance_id r = instance_id t \<Longrightarrow> pm_proposal_id r = proposal_id (proposer t) \<Longrightarrow> reaches M E c G (rec r t)"
  shows "reaches M E c H (OnPrepareReply E rec msg s)"
proof -
  let ?n = "cfg_node_id E" and ?i = "instance_id s" and ?p = "count_prepare_reply msg (proposer s)"
  let ?b = "BallotNumber (proposal_id (proposer s)) ?n"
  have p: "pro_instance_id (proposer s) = ?i" using inv by (simp add: node_inv_def node_base_def node_ok_def)
  define s1 where "s1 =
    (if preparing (proposer s) \<and> pm_instance_id msg = pro_instance_id (proposer s) then
       (if IsPassedOnThisRound s (counter ?p) then
          Accept E rec (RemoveRetryTimer (s\<lparr>proposer := ?p\<lparr>preparing := False, skip_prepare := True\<rparr>\<rparr>))
        else if IsRejectedOnThisRound s (counter ?p) \<or> IsReceiveAllOnThisRound s (counter ?p)
        then AddShortRetryTimer E (RemoveRetryTimer (s\<lparr>proposer := ?p\<lparr>preparing := False\<rparr>\<rparr>))
        else s\<lparr>proposer := ?p\<rparr>)
     else s)"
  have "reaches M E c H s1"
  proof (cases "preparing (proposer s) \<and> pm_instance_id msg = ?i")
    case False
    with reaches_refl [OF ok inv] p show ?thesis by (auto simp: s1_def)
  next
    case True
    note ph = node_inv_phase [OF inv]
    have na: "\<not> accepting (proposer s)" using ph True by (simp add: phase_inv_def Let_def)
    have pre: "preparing_inv M H ?i ?b ?p" by (rule prepare_counted [OF ph _ m(1,2)]) (use True m(3) in auto)
    show ?thesis
    proof (cases "IsPassedOnThisRound s (counter ?p)")
      case pass: True
      let ?s = "RemoveRetryTimer (s\<lparr>proposer := ?p\<lparr>preparing := False, skip_prepare := True\<rparr>\<rparr>)"
      have Q: "quorum M (promisors_or_acceptors (counter ?p))"
        by (rule passed_quorum [OF rdy pass]) (use pre in \<open>auto simp: preparing_inv_def\<close>)
      have s: "proposer ?s = ?p\<lparr>preparing := False, skip_prepare := True\<rparr>" "instance_id ?s = ?i"
        by (simp_all add: RemoveRetryTimer_def)
      have "node_base M E c H ?s"
        using inv by (simp add: node_inv_def node_base_def node_ok_def RemoveRetryTimer_def)
      then have "reaches M E c H (Accept E rec ?s)"
      proof (rule Accept_reaches [OF mem ok, where Q = "promisors_or_acceptors (counter ?p)" and j = ?i])
        show "safe_at M H (instance_id ?s) (BallotNumber (proposal_id (proposer ?s)) ?n) (pro_value (proposer ?s))"
          using passed_safe [OF ok pre Q] by (simp add: s)
      qed (use rdy pre Q rec in \<open>simp_all add: s preparing_inv_def\<close>)
      with True pass p show ?thesis by (simp add: s1_def)
    next
      case False
      have "node_inv M E c H (s\<lparr>proposer := ?p\<rparr>)"
        by (rule node_inv_proposer [OF inv])
          (use ph pre na in \<open>simp_all add: phase_inv_def Let_def\<close>)
      moreover have "node_inv M E c H (AddShortRetryTimer E (RemoveRetryTimer (s\<lparr>proposer := ?p\<lparr>preparing := False\<rparr>\<rparr>)))"
        by (rule node_inv_give_up [OF inv]) (simp_all add: na)
      ultimately show ?thesis using True False p by (auto simp: s1_def intro: reaches_refl [OF ok])
    qed
  qed
  from reaches_map [OF this] reaches_refl node_inv_SetMax
  have "reaches M E c H (s1\<lparr>proposer := Proposer_SetMaxProposalId msg (proposer s1)\<rparr>)" by blast
  then show ?thesis unfolding OnPrepareReply_def s1_def Let_def .
qed

end
