(* ===== verification/Agreement.thy ===== *)
theory Agreement
  imports Replication
begin

text \<open>
  Agreement of the members of a group: over any guarded run in which messages are lost, delayed,
  repeated and reordered, the logs of the members agree on every instance that both have
  passed. The steps are the handlers of the nodes; their guards state under which
  circumstances the code keeps the contract of \<open>Consensus\<close>. Without them it does not: the last
  section shows a ballot that is used for two values. The runs do not include a crash or restart of
  a node, a change of the membership, the collection of log entries or the installation of a
  checkpoint.
\<close>

section \<open>Guards\<close>

text \<open>A reply is counted in the round it answers. The handlers compare the instance only.\<close>

definition timely :: "PaxosMessage \<Rightarrow> ('d, 'w, 'z) node_scheme \<Rightarrow> bool" where
  "timely m s \<longleftrightarrow>
     ((pm_type m = PREPARE_REPLY \<or> pm_type m = ACCEPT_REPLY) \<and> pm_rejected_id m = 0 \<and>
        pm_instance_id m = instance_id s \<longrightarrow> pm_proposal_id m = proposal_id (proposer s))"

text \<open>A prepare or an accept of the next instance does not reach a node, which would take it as
  evidence that its own accepted ballot was chosen.\<close>

definition not_ahead :: "PaxosMessage \<Rightarrow> ('d, 'w, 'z) node_scheme \<Rightarrow> bool" where
  "not_ahead m s \<longleftrightarrow>
     (pm_type m = PREPARE \<or> pm_type m = ACCEPT \<longrightarrow> pm_instance_id m \<noteq> instance_id s + 1)"

text \<open>A round is started with a ballot that no accept of this instance has used, unless the
  proposer was refused and takes a new one; proposal numbers do not wrap around.\<close>

definition may_propose :: "('d, 'w, 'z) node_scheme \<Rightarrow> bool" where
  "may_propose s \<longleftrightarrow>
     (let p = proposer s
      in (was_rejected_by_someone p \<or> \<not> accept_sent (net s) (instance_id s) (proposal_id p)) \<and>
         proposal_id p \<noteq> - 1 \<and> max_proposal_id p \<noteq> - 1)"

section \<open>Every message\<close>

lemma OnPaxosMessage_reaches:
  fixes E :: "('d, 'w) env" and s :: "('d, 'w, 'z) node_scheme"
  assumes mem: "member_ok M E c"
  shows "hist_ok M H \<Longrightarrow> node_inv M E c H s \<Longrightarrow> ready M s \<Longrightarrow> msg_ok M H a (cfg_node_id E) m \<Longrightarrow>
    timely m s \<Longrightarrow> not_ahead m s \<Longrightarrow>
    (a = cfg_node_id E \<Longrightarrow> pm_type m = PREPARE \<or> pm_type m = ACCEPT \<Longrightarrow> pm_proposal_id m = proposal_id (proposer s)) \<Longrightarrow>
    reaches M E c H (OnPaxosMessage E m s)"
proof (induction "phase (pm_type m)" arbitrary: m s a H rule: less_induct)
  case less
  note ok = less.prems(1) and inv = less.prems(2) and rdy = less.prems(3) and msg = less.prems(4)
  let ?n = "cfg_node_id E"
  have rec: "reaches M E c G (OnPaxosMessage E r t)"
    if "phase (pm_type r) < phase (pm_type m)" "hist_ok M G" "node_inv M E c G t" "ready M t" "msg_ok M G ?n ?n r"
      "pm_type r = PREPARE_REPLY \<or> pm_type r = ACCEPT_REPLY \<or> pm_type r = ACCEPT \<Longrightarrow>
         pm_proposal_id r = proposal_id (proposer t)"
      "pm_type r = ACCEPT \<Longrightarrow> pm_instance_id r = instance_id t" "pm_type r \<noteq> PREPARE"
    for G r and t :: "('d, 'w, 'z) node_scheme"
    by (rule less.hyps [OF that(1-5)]) (use that(6-8) in \<open>auto simp: timely_def not_ahead_def\<close>)
  have t: "pm_proposal_id m = proposal_id (proposer s)"
    if "pm_type m = PREPARE_REPLY \<or> pm_type m = ACCEPT_REPLY" "pm_rejected_id m = 0" "pm_instance_id m = instance_id s"
    using less.prems(5) that by (simp add: timely_def)
  have refl: "node_inv M E c H s' \<Longrightarrow> reaches M E c H s'" for s' :: "('d, 'w, 'z) node_scheme"
    by (rule reaches_refl [OF ok])
  let ?s = "case pm_type m of
      PREPARE \<Rightarrow> Acceptor_OnPrepare E (OnPaxosMessage E) m s
    | ACCEPT \<Rightarrow> Acceptor_OnAccpet E (OnPaxosMessage E) m s
    | PREPARE_REPLY \<Rightarrow> OnPrepareReply E (OnPaxosMessage E) m s
    | ACCEPT_REPLY \<Rightarrow> OnAccpetReply E (OnPaxosMessage E) m s
    | NEW_CHOSEN_VALUE \<Rightarrow> OnNewChosenValue E m s
    | ASK_FOR_LEARN \<Rightarrow> OnAskForLearn E m s
    | SEND_LEARNED_VALUE \<Rightarrow> OnSendLearnedValue E m s
    | SEND_NOW_INSTANCE_ID \<Rightarrow> OnSendNowInstanceId E m s
    | COMFIRM_ASK_FOR_LEARN \<Rightarrow> OnComfirmAskForLearn m s
    | ASK_FOR_CHECKPOINT \<Rightarrow> OnAskForCheckpoint m s
    | OTHER_MESSAGE _ \<Rightarrow> s"
  have "reaches M E c H ?s"
  proof (cases "pm_type m")
    case PREPARE
    have "reaches M E c H (Acceptor_OnPrepare E (OnPaxosMessage E) m s)"
      by (rule OnPrepare_reaches [OF mem ok inv rdy msg PREPARE])
        (use less.prems(6,7) PREPARE in \<open>auto simp: not_ahead_def intro!: rec\<close>)
    with PREPARE show ?thesis by simp
  next
    case ACCEPT
    have "reaches M E c H (Acceptor_OnAccpet E (OnPaxosMessage E) m s)"
      by (rule OnAccpet_reaches [OF mem ok inv rdy msg ACCEPT])
        (use less.prems(6,7) ACCEPT in \<open>auto simp: not_ahead_def intro!: rec\<close>)
    with ACCEPT show ?thesis by simp
  next
    case PREPARE_REPLY
    have "reaches M E c H (OnPrepareReply E (OnPaxosMessage E) m s)"
      by (rule OnPrepareReply_reaches [OF mem ok inv rdy msg PREPARE_REPLY])
        (use t PREPARE_REPLY in \<open>auto intro!: rec\<close>)
    with PREPARE_REPLY show ?thesis by simp
  next
    case ACCEPT_REPLY
    have "reaches M E c H (OnAccpetReply E (OnPaxosMessage E) m s)"
      by (rule OnAccpetReply_reaches [OF mem ok inv rdy msg ACCEPT_REPLY])
        (use t ACCEPT_REPLY in \<open>auto intro!: rec\<close>)
    with ACCEPT_REPLY show ?thesis by simp
  next
    case NEW_CHOSEN_VALUE
    with refl OnNewChosenValue_inv [OF mem ok inv rdy msg] show ?thesis by simp
  next
    case SEND_LEARNED_VALUE
    with refl OnSendLearnedValue_inv [OF mem inv rdy msg] show ?thesis by simp
  qed (use refl inv OnAskForLearn_inv [OF mem inv] OnSendNowInstanceId_inv [OF mem inv]
        OnComfirmAskForLearn_inv [OF inv] OnAskForCheckpoint_inv [OF inv] in simp_all)
  from reaches_map [OF this CheckLearn_reaches] have "reaches M E c H (CheckLearn E ?s)" .
  then show ?case by (subst OnPaxosMessage.simps) (simp add: refl inv)
qed

section \<open>Proposals and timers\<close>

lemma own_message_reaches:
  fixes E :: "('d, 'w) env" and s :: "('d, 'w, 'z) node_scheme"
  assumes "member_ok M E c" "hist_ok M H" "node_inv M E c H s" "ready M s"
    "msg_ok M H (cfg_node_id E) (cfg_node_id E) m" "pm_type m = PREPARE \<or> pm_type m = ACCEPT"
    "pm_instance_id m = instance_id s" "pm_proposal_id m = proposal_id (proposer s)"
  shows "reaches M E c H (OnPaxosMessage E m s)"
  by (rule OnPaxosMessage_reaches [OF assms(1-5)]) (use assms(6-8) in \<open>auto simp: timely_def not_ahead_def\<close>)

text \<open>The ballot a new round uses is new in this instance.\<close>

lemma start_prepare_id:
  fixes p :: Proposer
  defines "q \<equiv> proposal_id (start_prepare (was_rejected_by_someone p) p)"
  assumes "proposal_id p \<noteq> - 1" "max_proposal_id p \<noteq> - 1"
  shows "proposal_id p \<le> q" "was_rejected_by_someone p \<Longrightarrow> proposal_id p < q"
    "\<not> was_rejected_by_someone p \<Longrightarrow> q = proposal_id p"
proof -
  have "proposal_id p < proposal_id p + 1" "max_proposal_id p < max_proposal_id p + 1"
    by (rule less_plus_one_u64 [OF assms(2)], rule less_plus_one_u64 [OF assms(3)])
  then show "was_rejected_by_someone p \<Longrightarrow> proposal_id p < q" "\<not> was_rejected_by_someone p \<Longrightarrow> q = proposal_id p"
    by (auto simp: q_def start_prepare_def Let_def)
  then show "proposal_id p \<le> q" by (cases "was_rejected_by_someone p") auto
qed

lemma may_propose_new:
  assumes base: "node_base M E c H s" and may: "may_propose s"
    and v: "(instance_id s, BallotNumber (proposal_id (start_prepare (was_rejected_by_someone (proposer s)) (proposer s)))
      (cfg_node_id E), v) \<in> proposed H"
  shows False
proof -
  let ?p = "proposer s" and ?n = "cfg_node_id E"
  let ?q = "proposal_id (start_prepare (was_rejected_by_someone ?p) ?p)"
  note D = node_baseD [OF base]
  have q: "proposal_id ?p \<noteq> - 1" "max_proposal_id ?p \<noteq> - 1" using may by (simp_all add: may_propose_def Let_def)
  show False
  proof (cases "was_rejected_by_someone ?p")
    case True
    with issued_invD(3) [OF D(3) v] start_prepare_id(2) [OF q] show False by simp
  next
    case False
    with v start_prepare_id(3) [OF q] have "(instance_id s, BallotNumber (proposal_id ?p) ?n, v) \<in> proposed H" by simp
    with D(4) have "accept_sent (net s) (instance_id s) (proposal_id ?p)" unfolding net_inv_def by fastforce
    with may False show False by (simp add: may_propose_def Let_def)
  qed
qed

lemma Prepare_start_reaches:
  fixes E :: "('d, 'w) env" and s :: "('d, 'w, 'z) node_scheme"
  assumes mem: "member_ok M E c" and ok: "hist_ok M H" and base: "node_base M E c H s" and rdy: "ready M s"
    and may: "may_propose s"
  shows "reaches M E c H (Prepare E (OnPaxosMessage E) (was_rejected_by_someone (proposer s)) s)"
proof (rule Prepare_reaches [OF mem ok base rdy])
  show "proposal_id (proposer s) \<le>
      proposal_id (start_prepare (was_rejected_by_someone (proposer s)) (proposer s))"
    using may by (intro start_prepare_id(1)) (simp_all add: may_propose_def Let_def)
qed (use may_propose_new [OF base may] own_message_reaches [OF mem] in blast)+

text \<open>Skipping the prepare: the quorum that has joined the ballot in an earlier instance has cast
  no vote below it in this one, so every value is safe.\<close>

lemma skip_safe:
  assumes "skip_inv M H i b" and "\<And>v. (i, b, v) \<notin> proposed H"
  obtains Q j where "quorum M Q" "j \<le> i" "\<forall>a\<in>Q. joined H a j b" "\<And>v. safe_at M H i b v"
proof -
  from assms obtain Q j where Q: "quorum M Q" "j \<le> i" "\<forall>a\<in>Q. joined H a j b" "j \<noteq> i"
    unfolding skip_inv_def by blast
  then have "j < i" by simp
  with Q(3) have "\<forall>a\<in>Q. b \<le> promise_of H a \<and> (\<forall>c w. (i, a, c, w) \<in> voted H \<longrightarrow> c < b \<longrightarrow> c \<le> Ballot_default)"
    unfolding joined_def by (meson leD)
  with Q(1) have "safe_at M H i b v" for v unfolding safe_at_def by blast
  with Q that show thesis by blast
qed

lemma NewPropose_reaches:
  fixes E :: "('d, 'w) env" and s :: "('d, 'w, 'z) node_scheme"
  assumes mem: "member_ok M E c" and ok: "hist_ok M H" and inv: "node_inv M E c H s" and rdy: "ready M s"
    and may: "may_propose s"
  shows "reaches M E c H (NewPropose E (OnPaxosMessage E) v s)"
proof -
  let ?n = "cfg_node_id E" and ?s = "s\<lparr>proposer := (proposer s)\<lparr>pro_value := v\<rparr>\<rparr>"
  have base: "node_base M E c H ?s" using inv by (simp add: node_inv_def node_base_def node_ok_def)
  have may': "may_propose ?s" using may by (simp add: may_propose_def Let_def)
  show ?thesis
  proof (cases "skip_prepare (proposer s) \<and> \<not> was_rejected_by_someone (proposer s)")
    case True
    let ?b = "BallotNumber (proposal_id (proposer s)) ?n"
    have new: "(instance_id s, ?b, w) \<notin> proposed H" for w
      using may_propose_new [OF base may', of w] True by (auto simp: start_prepare_def Let_def)
    have "skip_inv M H (instance_id s) ?b"
      using node_inv_phase [OF inv] True by (simp add: phase_inv_def Let_def)
    from skip_safe [OF this new] obtain Q j where Q: "quorum M Q" "j \<le> instance_id s"
        "\<forall>a\<in>Q. joined H a j ?b" "\<And>v. safe_at M H (instance_id s) ?b v" by metis
    have "reaches M E c H (Accept E (OnPaxosMessage E) ?s)"
      by (rule Accept_reaches [OF mem ok base, where Q = Q and j = j])
        (use rdy new Q in \<open>auto intro: own_message_reaches [OF mem]\<close>)
    with True show ?thesis by (simp add: NewPropose_def Let_def)
  next
    case False
    have "reaches M E c H (Prepare E (OnPaxosMessage E) (was_rejected_by_someone (proposer ?s)) ?s)"
      by (rule Prepare_start_reaches [OF mem ok base _ may']) (use rdy in simp)
    with False show ?thesis by (auto simp: NewPropose_def Let_def)
  qed
qed

lemma run_RetryTimer_reaches:
  fixes E :: "('d, 'w) env" and s :: "('d, 'w, 'z) node_scheme"
  assumes "member_ok M E c" "hist_ok M H" "node_inv M E c H s" "ready M s" "may_propose s"
  shows "reaches M E c H (run_RetryTimer E (OnPaxosMessage E) i s)"
  using Prepare_start_reaches [OF assms(1,2) _ assms(4,5)] reaches_refl [OF assms(2,3)] assms(3)
  by (simp add: run_RetryTimer_def node_inv_def)

lemma Instance_OnPropose_reaches:
  fixes E :: "('d, 'w) env" and s :: "('d, 'w, 'z) node_scheme"
  assumes mem: "member_ok M E c" and ok: "hist_ok M H" and inv: "node_inv M E c H s" and rdy: "ready M s"
    and may: "may_propose s"
  shows "reaches M E c H (Instance_OnPropose E mid d ctx s)"
proof -
  have same: "reaches M E c H (propose_cb i st k s)" "reaches M E c H (abort s)"
      "reaches M E c H (abort (s\<lparr>is_proposing := True\<rparr>))" for i st k
    by (rule reaches_refl [OF ok node_inv_same [OF inv]]; simp)+
  let ?g = "GetPaxosValueId E (s\<lparr>is_proposing := True, context_ptr := ctx\<rparr>)"
  let ?v = "\<lparr>pv_value_id = fst ?g, pv_machine_id = mid, pv_user_data = d\<rparr>"
  let ?t = "io_RunAfter E (cfg_propose_timeout E) ProposeTimer ((snd ?g)\<lparr>propose_value := ?v\<rparr>)"
  let ?s = "(snd ?t)\<lparr>propose_timer := fst ?t\<rparr>"
  have s: "acceptor ?s = acceptor s" "learner ?s = learner s" "proposer ?s = proposer s" "instance_id ?s = instance_id s"
      "db ?s = db s" "net ?s = net s" "learn_loop ?s = learn_loop s" "membership ?s = membership s"
    by (simp_all add: GetPaxosValueId_def Let_def in_world_def case_prod_beta)
  have "reaches M E c H (NewPropose E (OnPaxosMessage E) ?v ?s)"
    by (rule NewPropose_reaches [OF mem ok node_inv_same [OF inv]])
      (use rdy may s in \<open>simp_all add: ready_def may_propose_def\<close>)
  with same show ?thesis by (simp add: Instance_OnPropose_def case_prod_beta Let_def)
qed

lemma run_ProposeTimer_inv:
  assumes "node_inv M E c H s"
  shows "node_inv M E c H (run_ProposeTimer s)"
proof -
  have q: "node_inv M E c H (QuitPropose s)"
    unfolding QuitPropose_def
    by (intro node_inv_RemoveRetryTimer node_inv_proposer [OF assms phase_inv_stopped [OF node_inv_phase [OF assms]]])
      simp_all
  show ?thesis unfolding run_ProposeTimer_def Let_def by (rule node_inv_same [OF q]) simp_all
qed

text \<open>The closures of the learn loop.\<close>

lemma ASyncSend_inv:
  "member_ok M E c \<Longrightarrow> node_inv M E c H s \<Longrightarrow> to \<le> instance_id s \<Longrightarrow> node_inv M E c H (ASyncSend E d from to s)"
proof (induction E d "from" to s rule: ASyncSend.induct)
  case (1 E d "from" to s)
  have st: "storage_ok E c" "cfg_node_id E \<in> M" using 1(2) by (simp_all add: member_ok_def)
  show ?case
  proof (cases "from < to \<and> fst (DB_Get E from (db s)) = 0")
    case True
    then obtain x where x: "DB_Get E from (db s) = (0, x)" by (metis prod.collapse)
    then have log: "log_of E (c (db s)) from = Some x" using db.get_zero_iff [OF st(1)] by blast
    have "log_inv M E H (instance_id s) (acceptor s) (learner s) (c (db s))"
      using 1(3) by (simp add: node_inv_def node_base_def)
    moreover have "from < instance_id s" using True 1(4) by auto
    ultimately have "msg_ok M H (cfg_node_id E) d (learned_message E (snd (parse_instance E x)))"
      using learned_message_ok [OF st(2) _ _ log] by blast
    then have "node_inv M E c H (SendLearnedValue E d (snd (parse_instance E x)) s)"
      unfolding SendLearnedValue_def by (rule node_inv_send [OF 1(3)])
    with 1(1) [OF _ x [symmetric] refl 1(2)] 1(4) True show ?thesis
      by (subst ASyncSend.simps) (simp add: x SendLearnedValue_def)
  next
    case False
    with 1(3) show ?thesis by (subst ASyncSend.simps) (auto split: prod.split)
  qed
qed

lemma SendTask_inv:
  assumes "node_inv M E c H s" and "Func (SendTask d k) \<in> set (funcs (learn_loop s))"
  shows "node_inv M E c H (Messager_SendMessage E d k s)"
proof -
  have "call_ok M H (cfg_node_id E) (Unicast d k)"
    using assms by (auto simp: node_inv_def node_base_def queue_inv_def split: learn_task.splits)
  from net_inv_snoc [OF _ this] assms(1) show ?thesis
    by (simp add: node_inv_def node_base_def node_ok_def Messager_SendMessage_def)
qed

section \<open>Runs of a group\<close>

text \<open>
  What the member \<open>n\<close> can do in the state \<open>\<sigma>\<close> of the group, and the state \<open>s\<close> it is in
  then: it handles a message that some member has sent and that is addressed to it, at any time
  and any number of times; a proposal begins; the retry timer, the propose timer and the learn
  timer fire; the learn loop runs a closure of its queue.
\<close>

inductive member_step ::
    "u64 set \<Rightarrow> (u64 \<Rightarrow> ('d, 'w) env) \<Rightarrow> (u64 \<Rightarrow> ('d, 'w, 'z) node_scheme) \<Rightarrow> u64 \<Rightarrow> ('d, 'w, 'z) node_scheme \<Rightarrow> bool"
  for M :: "u64 set" and En :: "u64 \<Rightarrow> ('d, 'w) env" and \<sigma> :: "u64 \<Rightarrow> ('d, 'w, 'z) node_scheme" where
  deliver: "m \<in> M \<Longrightarrow> n \<in> M \<Longrightarrow> m \<noteq> n \<Longrightarrow> k \<in> set (net (\<sigma> m)) \<Longrightarrow> addressed k n \<Longrightarrow>
    ct_type (call_content k) = PAXOS_MESSAGE \<Longrightarrow> ready M (\<sigma> n) \<Longrightarrow>
    timely (ct_paxos_msg (call_content k)) (\<sigma> n) \<Longrightarrow> not_ahead (ct_paxos_msg (call_content k)) (\<sigma> n) \<Longrightarrow>
    member_step M En \<sigma> n (Instance_OnContent (En n) (call_content k) (\<sigma> n))"
| propose: "n \<in> M \<Longrightarrow> ready M (\<sigma> n) \<Longrightarrow> may_propose (\<sigma> n) \<Longrightarrow>
    member_step M En \<sigma> n (Instance_OnPropose (En n) mid v ctx (\<sigma> n))"
| retry: "n \<in> M \<Longrightarrow> ready M (\<sigma> n) \<Longrightarrow> may_propose (\<sigma> n) \<Longrightarrow>
    member_step M En \<sigma> n (run_RetryTimer (En n) (OnPaxosMessage (En n)) i (\<sigma> n))"
| give_up: "n \<in> M \<Longrightarrow> member_step M En \<sigma> n (run_ProposeTimer (\<sigma> n))"
| ask: "n \<in> M \<Longrightarrow> member_step M En \<sigma> n (AskForLearn (En n) b (\<sigma> n))"
| send: "n \<in> M \<Longrightarrow> Func (SendTask d k) \<in> set (funcs (learn_loop (\<sigma> n))) \<Longrightarrow>
    member_step M En \<sigma> n (Messager_SendMessage (En n) d k (\<sigma> n))"
| send_log: "n \<in> M \<Longrightarrow> Func (ASyncSendTask d from to) \<in> set (funcs (learn_loop (\<sigma> n))) \<Longrightarrow>
    member_step M En \<sigma> n (ASyncSend (En n) d from to (\<sigma> n))"

text \<open>What the handlers of the instance work on.\<close>

definition same_paxos :: "('d, 'w, 'z) node_scheme \<Rightarrow> ('d, 'w, 'z) node_scheme \<Rightarrow> bool" where
  "same_paxos s s' \<longleftrightarrow>
     acceptor s' = acceptor s \<and> learner s' = learner s \<and> proposer s' = proposer s \<and>
     instance_id s' = instance_id s \<and> db s' = db s \<and> net s' = net s \<and> learn_loop s' = learn_loop s"

text \<open>A step of the group: of one member, or of other threads of a node, which change the rest of its
  state. The store and the roles are changed by the steps of a member only: the clean loop, which
  deletes entries of the log, the installation of a checkpoint and a restart of the process are not
  among the steps, and a member with a membership other than \<open>M\<close> takes no step of the protocol.\<close>

inductive cluster_step ::
    "u64 set \<Rightarrow> (u64 \<Rightarrow> ('d, 'w) env) \<Rightarrow> (u64 \<Rightarrow> ('d, 'w, 'z) node_scheme) \<Rightarrow> (u64 \<Rightarrow> ('d, 'w, 'z) node_scheme) \<Rightarrow> bool"
  for M :: "u64 set" and En :: "u64 \<Rightarrow> ('d, 'w) env" where
  act: "member_step M En \<sigma> n s \<Longrightarrow> cluster_step M En \<sigma> (\<sigma>(n := s))"
| other: "n \<in> M \<Longrightarrow> same_paxos (\<sigma> n) s \<Longrightarrow> cluster_step M En \<sigma> (\<sigma>(n := s))"

text \<open>Each member with its own configuration, on stores that work.\<close>

definition cluster_env :: "u64 set \<Rightarrow> (u64 \<Rightarrow> ('d, 'w) env) \<Rightarrow> ('d \<Rightarrow> bytes \<rightharpoonup> bytes) \<Rightarrow> bool" where
  "cluster_env M En c \<longleftrightarrow>
     finite M \<and> (\<forall>n\<in>M. storage_ok (En n) c \<and> instance_codec_ok (En n) \<and> cfg_node_id (En n) = n)"

text \<open>Members as they start at the instance \<open>first\<close> on empty logs: nothing accepted, nothing sent, no round begun.\<close>

definition starts ::
    "u64 \<Rightarrow> ('d, 'w) env \<Rightarrow> ('d \<Rightarrow> bytes \<rightharpoonup> bytes) \<Rightarrow> ('d, 'w, 'z) node_scheme \<Rightarrow> bool" where
  "starts first E c s \<longleftrightarrow>
     node_ok s \<and> instance_id s = first \<and> accepted_ballot (acceptor s) = Ballot_default \<and> \<not> has_learned (learner s) \<and>
     0 < proposal_id (proposer s) \<and> \<not> preparing (proposer s) \<and> \<not> accepting (proposer s) \<and>
     \<not> skip_prepare (proposer s) \<and> net s = [] \<and> funcs (learn_loop s) = [] \<and>
     (\<forall>i<instance_id s. log_of E (c (db s)) i = None)"

definition cluster_inv ::
    "u64 \<Rightarrow> u64 set \<Rightarrow> (u64 \<Rightarrow> ('d, 'w) env) \<Rightarrow> ('d \<Rightarrow> bytes \<rightharpoonup> bytes) \<Rightarrow> (u64 \<Rightarrow> ('d, 'w, 'z) node_scheme) \<Rightarrow> bool" where
  "cluster_inv first M En c \<sigma> \<longleftrightarrow>
     (\<exists>H. first_instance H = first \<and> hist_ok M H \<and> (\<forall>n\<in>M. node_inv M (En n) c H (\<sigma> n)))"

lemma starts_inv:
  assumes env: "cluster_env M En c" and st: "\<And>n. n \<in> M \<Longrightarrow> starts first (En n) c (\<sigma> n)"
  shows "cluster_inv first M En c \<sigma>"
proof -
  let ?H = "\<lparr>first_instance = first, promise_of = \<lambda>n. promised_ballot (acceptor (\<sigma> n)), instance_of = \<lambda>n. instance_id (\<sigma> n),
    prepared = {}, proposed = {}, voted = {}\<rparr>"
  have "hist_ok M ?H" using env by (simp add: hist_ok_def cluster_env_def)
  moreover have "node_inv M (En n) c ?H (\<sigma> n)" if n: "n \<in> M" for n
  proof -
    have "cfg_node_id (En n) = n" using env n by (simp add: cluster_env_def)
    with st [OF n] show ?thesis
      by (auto simp: starts_def node_inv_def node_base_def acceptor_inv_def issued_inv_def net_inv_def
          queue_inv_def log_inv_def phase_inv_def)
  qed
  ultimately show ?thesis unfolding cluster_inv_def by (intro exI [of _ ?H]) simp
qed

text \<open>What one member does keeps the invariant of all.\<close>

lemma cluster_inv_step:
  assumes env: "cluster_env M En c" and first: "first_instance H = first" and inv: "\<And>m. m \<in> M \<Longrightarrow> node_inv M (En m) c H (\<sigma> m)"
    and n: "n \<in> M" and r: "reaches M (En n) c H s"
  shows "cluster_inv first M En c (\<sigma>(n := s))"
proof -
  have id: "m \<in> M \<Longrightarrow> cfg_node_id (En m) = m" for m using env by (simp add: cluster_env_def)
  from r obtain H' where H': "hist_step M n H H'" "node_inv M (En n) c H' s" unfolding reaches_def id [OF n] by blast
  have "node_inv M (En m) c H' ((\<sigma>(n := s)) m)" if m: "m \<in> M" for m
    using H'(2) node_inv_other [OF H'(1) _ inv [OF m]] id [OF m] by (cases "m = n") auto
  moreover have "hist_ok M H'" "first_instance H' = first"
    using H'(1) first by (simp_all add: hist_step_def extends_def)
  ultimately show ?thesis unfolding cluster_inv_def by blast
qed

lemma member_step_reaches:
  assumes env: "cluster_env M En c" and step: "member_step M En \<sigma> n s"
    and ok: "hist_ok M H" and H: "\<And>m. m \<in> M \<Longrightarrow> node_inv M (En m) c H (\<sigma> m)"
  shows "n \<in> M" "reaches M (En n) c H s"
proof -
  show n: "n \<in> M" using step by cases
  have mem: "member_ok M (En n) c" using env n by (simp add: cluster_env_def member_ok_def)
  note refl = reaches_refl [OF ok] and inv = H [OF n]
  from step show "reaches M (En n) c H s"
  proof cases
    case (deliver m k)
    have id: "cfg_node_id (En m) = m" "cfg_node_id (En n) = n" using env deliver(2,3) by (simp_all add: cluster_env_def)
    have "call_ok M H m k" using H [OF deliver(2)] deliver(5) id by (simp add: node_inv_def node_base_def net_inv_def)
    then have msg: "msg_ok M H m (cfg_node_id (En n)) (ct_paxos_msg (call_content k))"
      using deliver(6,7) id by (simp add: call_ok_def)
    have "reaches M (En n) c H (OnPaxosMessage (En n) (ct_paxos_msg (call_content k)) (\<sigma> n))"
      by (rule OnPaxosMessage_reaches [OF mem ok inv deliver(8) msg deliver(9,10)]) (use id deliver(4) in simp)
    with deliver(1,7) show ?thesis by (simp add: Instance_OnContent_def)
  next
    case (propose mid v ctx)
    then show ?thesis using Instance_OnPropose_reaches [OF mem ok inv] by simp
  next
    case (retry i)
    then show ?thesis using run_RetryTimer_reaches [OF mem ok inv] by simp
  next
    case give_up
    then show ?thesis using refl [OF run_ProposeTimer_inv [OF inv]] by simp
  next
    case (ask b)
    then show ?thesis using refl [OF AskForLearn_inv [OF mem inv]] by simp
  next
    case (send d k)
    then show ?thesis using refl [OF SendTask_inv [OF inv]] by simp
  next
    case (send_log d "from" to)
    have "to \<le> instance_id (\<sigma> n)"
      using inv send_log(3) by (auto simp: node_inv_def node_base_def queue_inv_def split: learn_task.splits)
    with send_log show ?thesis using refl [OF ASyncSend_inv [OF mem inv]] by simp
  qed
qed

lemma cluster_step_inv:
  assumes env: "cluster_env M En c" and step: "cluster_step M En \<sigma> \<sigma>'" and inv: "cluster_inv first M En c \<sigma>"
  shows "cluster_inv first M En c \<sigma>'"
proof -
  from inv obtain H where first: "first_instance H = first" and ok: "hist_ok M H"
    and H: "\<And>m. m \<in> M \<Longrightarrow> node_inv M (En m) c H (\<sigma> m)"
    unfolding cluster_inv_def by blast
  have inv': "cluster_inv first M En c (\<sigma>(n := s))" if "n \<in> M" "reaches M (En n) c H s" for n s
    by (rule cluster_inv_step [OF env first _ that]) (rule H)
  from step show ?thesis
  proof cases
    case (act n s)
    from member_step_reaches [OF env act(2) ok H] show ?thesis unfolding act(1) by (rule inv')
  next
    case (other n s)
    have "node_inv M (En n) c H s" by (rule node_inv_same [OF H [OF other(2)]]) (use other(3) in \<open>simp_all add: same_paxos_def\<close>)
    from inv' [OF other(2) reaches_refl [OF ok this]] show ?thesis unfolding other(1) .
  qed
qed

lemma cluster_run_inv:
  assumes "cluster_env M En c" and "\<And>n. n \<in> M \<Longrightarrow> starts first (En n) c (\<sigma>0 n)" and "(cluster_step M En)\<^sup>*\<^sup>* \<sigma>0 \<sigma>"
  shows "cluster_inv first M En c \<sigma>"
  using assms(3)
  by (induction rule: rtranclp_induct) (use starts_inv [OF assms(1,2)] cluster_step_inv [OF assms(1)] in blast)+

text \<open>The logs as far as both members have come.\<close>

lemma logs_agree_inv:
  assumes inv: "cluster_inv first M En c \<sigma>"
    and n: "n \<in> M" "i < instance_id (\<sigma> n)" and m: "m \<in> M" "i < instance_id (\<sigma> m)" and i: "first \<le> i"
  shows "\<exists>v. recorded (En n) (c (db (\<sigma> n))) i v \<and> recorded (En m) (c (db (\<sigma> m))) i v"
proof -
  from inv obtain H where first: "first_instance H = first" and ok: "hist_ok M H"
    and inv: "\<And>m. m \<in> M \<Longrightarrow> node_inv M (En m) c H (\<sigma> m)"
    unfolding cluster_inv_def by blast
  have rec: "\<exists>v. recorded (En k) (c (db (\<sigma> k))) i v \<and> chosen M H i v" if k: "k \<in> M" "i < instance_id (\<sigma> k)" for k
  proof -
    have log: "log_inv M (En k) H (instance_id (\<sigma> k)) (acceptor (\<sigma> k)) (learner (\<sigma> k)) (c (db (\<sigma> k)))"
      using inv [OF k(1)] by (simp add: node_inv_def node_base_def)
    then obtain x where "log_of (En k) (c (db (\<sigma> k))) i = Some x" using i first k(2) unfolding log_inv_def by blast
    with log k(2) show ?thesis unfolding log_inv_def recorded_def by blast
  qed
  from rec [OF n] rec [OF m] chosen_unique [OF ok] show ?thesis by blast
qed


section \<open>What the guards exclude\<close>

text \<open>A message that was sent stays sent.\<close>

definition outbox_grows :: "('d, 'w, 'z) node_scheme \<Rightarrow> ('d, 'w, 'z) node_scheme \<Rightarrow> bool" where
  "outbox_grows s s' \<longleftrightarrow> (\<exists>ks. net s' = net s @ ks)"

lemma outbox_same: "net s' = net s \<Longrightarrow> outbox_grows s s'"
  by (simp add: outbox_grows_def)

interpretation outbox: handler_invariant E outbox_grows for E :: "('d, 'w) env"
proof unfold_locales
  fix s t u :: "('d, 'w, 'z) node_scheme"
  show "outbox_grows s t \<Longrightarrow> outbox_grows t u \<Longrightarrow> outbox_grows s u" by (auto simp: outbox_grows_def)
  show "outbox_grows s (s\<lparr>net := net s @ ns\<rparr>)" for ns by (simp add: outbox_grows_def)
  show "outbox_grows s (snd (Acceptor_WriteToDB E (s\<lparr>acceptor := a\<rparr>)))" for a by (rule outbox_same) simp
  show "outbox_grows s (snd (Learner_WriteToDB E msg s))" for msg
    by (rule outbox_same) (simp add: Learner_WriteToDB_def Let_def case_prod_beta)
qed (auto intro: outbox_same simp: CheckLearn_parts)

text \<open>
  C38. Why a proposal must not follow another in the same instance with the same ballot: when the
  propose timer gives up on a proposal whose accept was sent, and the proposer was not refused,
  the next proposal sends an accept for the same instance with the same proposal number and its
  own value. Acceptors take both, so one ballot carries two values.
\<close>

theorem proposal_reuses_ballot:
  fixes s :: "('d, 'w, 'z) node_scheme" and mid :: u32 and d :: bytes and ctx :: ctx_ptr
  assumes "IsValidNodeId (cfg_node_id E) s" and "skip_prepare (proposer s)"
    and "\<not> was_rejected_by_someone (proposer s)"
  defines "s' \<equiv> Instance_OnPropose E mid d ctx (run_ProposeTimer s)"
  shows "\<exists>m. Multicast (membership s) (Content_paxos (cfg_group_id E) m) \<in> set (net s') \<and> pm_type m = ACCEPT \<and>
    pm_instance_id m = pro_instance_id (proposer s) \<and> pm_proposal_id m = proposal_id (proposer s) \<and>
    pv_machine_id (pm_value m) = mid \<and> pv_user_data (pm_value m) = d"
proof -
  let ?idle = "run_ProposeTimer s"
  let ?g = "GetPaxosValueId E (?idle\<lparr>is_proposing := True, context_ptr := ctx\<rparr>)"
  let ?v = "\<lparr>pv_value_id = fst ?g, pv_machine_id = mid, pv_user_data = d\<rparr>"
  let ?t = "io_RunAfter E (cfg_propose_timeout E) ProposeTimer ((snd ?g)\<lparr>propose_value := ?v\<rparr>)"
  let ?s = "(snd ?t)\<lparr>propose_timer := fst ?t\<rparr>"
  let ?m = "PaxosMessage_default\<lparr>pm_type := ACCEPT, pm_node_id := cfg_node_id E,
    pm_instance_id := pro_instance_id (proposer s), pm_proposal_id := proposal_id (proposer s), pm_value := ?v\<rparr>"
  have s0: "proposer ?idle = (proposer s)\<lparr>preparing := False, accepting := False\<rparr>" "membership ?idle = membership s"
      "\<not> is_proposing ?idle" "context_ptr ?idle = Null"
    by (simp_all add: run_ProposeTimer_def QuitPropose_def RemoveRetryTimer_def Let_def)
  then have s: "proposer ?s = (proposer s)\<lparr>preparing := False, accepting := False\<rparr>" "membership ?s = membership s"
    by (simp_all add: GetPaxosValueId_def Let_def in_world_def case_prod_beta)
  have "s' = NewPropose E (OnPaxosMessage E) ?v ?s"
    using assms(1) s0 by (simp add: s'_def Instance_OnPropose_def IsValidNodeId_def case_prod_beta Let_def)
  also have "\<dots> = Accept E (OnPaxosMessage E) (?s\<lparr>proposer := (proposer ?s)\<lparr>pro_value := ?v\<rparr>\<rparr>)"
    using assms(2,3) s(1) by (simp add: NewPropose_def)
  finally obtain u where u: "s' = OnPaxosMessage E ?m (BroadcastMessage (Content_paxos (cfg_group_id E) ?m) u)"
      "membership u = membership s"
    using s by (simp add: Accept_def Let_def AddRetryTimer_def case_prod_beta)
  have "ms_members (membership s) \<noteq> []" using assms(1) by (auto simp: IsValidNodeId_def)
  then have "Multicast (membership s) (Content_paxos (cfg_group_id E) ?m) \<in>
      set (net (BroadcastMessage (Content_paxos (cfg_group_id E) ?m) u))"
    by (simp add: BroadcastMessage_def u(2))
  moreover obtain ks where "net s' = net (BroadcastMessage (Content_paxos (cfg_group_id E) ?m) u) @ ks"
    using outbox.R_OnPaxosMessage [of _ E ?m] unfolding u(1) outbox_grows_def by blast
  ultimately have "Multicast (membership s) (Content_paxos (cfg_group_id E) ?m) \<in> set (net s')" by simp
  then show ?thesis by (intro exI [of _ ?m]) simp
qed

end
