(* ===== verification/Threads.thy ===== *)
theory Threads
  imports Prelude
begin

text \<open>
  \<^verbatim>\<open>ThreadPool\<close>, \<^verbatim>\<open>src/paxos/threadpool.cc\<close>: five vectors of run loops, each
  loop in a thread of its own, handed out in turn. A loop is known by the number of its
  creation.
\<close>

section \<open>ThreadPool\<close>

record ThreadPool =
  pool_started :: bool
  io_next :: u32
  callback_next :: u32
  learn_next :: u32
  clean_next :: u32
  master_next :: u32
  io_loops :: "nat list"
  callback_loops :: "nat list"
  learn_loops :: "nat list"
  clean_loops :: "nat list"
  master_loops :: "nat list"

definition ThreadPool_new :: ThreadPool where
  "ThreadPool_new =
     \<lparr>pool_started = False, io_next = 0, callback_next = 0, learn_next = 0, clean_next = 0,
      master_next = 0, io_loops = [], callback_loops = [], learn_loops = [], clean_loops = [],
      master_loops = []\<rparr>"

text \<open>One of the five loops of \<^verbatim>\<open>Start\<close>: the threads made after \<open>k\<close> others.\<close>

definition new_threads :: "nat \<Rightarrow> u32 \<Rightarrow> nat list" where
  "new_threads k n = [k ..< k + unat n]"

text \<open>\<^const>\<open>None\<close> is the failed assertion that the pool has not been started.\<close>

definition ThreadPool_Start :: "u32 \<Rightarrow> u32 \<Rightarrow> u32 \<Rightarrow> u32 \<Rightarrow> u32 \<Rightarrow> ThreadPool \<Rightarrow> ThreadPool option" where
  "ThreadPool_Start io_thread_size callback_thread_size learn_thread_size clean_thread_size master_thread_size p =
     (if pool_started p then None
      else
        (let c = unat io_thread_size; l = c + unat callback_thread_size;
             n = l + unat learn_thread_size; m = n + unat clean_thread_size
         in Some (p\<lparr>pool_started := True,
              io_loops := io_loops p @ new_threads 0 io_thread_size,
              callback_loops := callback_loops p @ new_threads c callback_thread_size,
              learn_loops := learn_loops p @ new_threads l learn_thread_size,
              clean_loops := clean_loops p @ new_threads n clean_thread_size,
              master_loops := master_loops p @ new_threads m master_thread_size\<rparr>)))"

text \<open>The body the five methods share: the loop at the counter, after its wrap, and the counter
  past it. An index out of the vector, when it is empty, is not defined.\<close>

definition next_loop :: "u32 \<Rightarrow> nat list \<Rightarrow> (nat \<times> u32) option" where
  "next_loop i loops =
     (let k = (if unat i = length loops then 0 else i)
      in if unat k < length loops then Some (loops ! unat k, k + 1) else None)"

definition GetNextIOLoop :: "ThreadPool \<Rightarrow> (nat \<times> ThreadPool) option" where
  "GetNextIOLoop p =
     (if \<not> pool_started p then None
      else map_option (\<lambda>(l, k). (l, p\<lparr>io_next := k\<rparr>)) (next_loop (io_next p) (io_loops p)))"

definition GetNextCallbackLoop :: "ThreadPool \<Rightarrow> (nat \<times> ThreadPool) option" where
  "GetNextCallbackLoop p =
     (if \<not> pool_started p then None
      else map_option (\<lambda>(l, k). (l, p\<lparr>callback_next := k\<rparr>)) (next_loop (callback_next p) (callback_loops p)))"

definition GetNextLearnLoop :: "ThreadPool \<Rightarrow> (nat \<times> ThreadPool) option" where
  "GetNextLearnLoop p =
     (if \<not> pool_started p then None
      else map_option (\<lambda>(l, k). (l, p\<lparr>learn_next := k\<rparr>)) (next_loop (learn_next p) (learn_loops p)))"

definition GetNextCleanLoop :: "ThreadPool \<Rightarrow> (nat \<times> ThreadPool) option" where
  "GetNextCleanLoop p =
     (if \<not> pool_started p then None
      else map_option (\<lambda>(l, k). (l, p\<lparr>clean_next := k\<rparr>)) (next_loop (clean_next p) (clean_loops p)))"

text \<open>With no master threads the result is a null pointer, the inner \<^const>\<open>None\<close>.\<close>

definition GetNextMasterLoop :: "ThreadPool \<Rightarrow> (nat option \<times> ThreadPool) option" where
  "GetNextMasterLoop p =
     (if \<not> pool_started p then None
      else if master_loops p = [] then Some (None, p)
      else map_option (\<lambda>(l, k). (Some l, p\<lparr>master_next := k\<rparr>)) (next_loop (master_next p) (master_loops p)))"

lemmas [op_defs] = ThreadPool_new_def new_threads_def ThreadPool_Start_def next_loop_def
  GetNextIOLoop_def GetNextCallbackLoop_def GetNextLearnLoop_def GetNextCleanLoop_def GetNextMasterLoop_def

section \<open>Round robin\<close>

text \<open>The counter after \<open>j\<close> calls on a vector of \<open>n\<close> loops: it is left at the end of
  the vector, not wrapped.\<close>

definition counter_at :: "nat \<Rightarrow> nat \<Rightarrow> u32" where
  "counter_at n j = (case j of 0 \<Rightarrow> 0 | Suc i \<Rightarrow> word_of_nat (i mod n + 1))"

lemma counter_at_0 [simp]: "counter_at n 0 = 0"
  by (simp add: counter_at_def)

lemma unat_counter:
  assumes "0 < n" "n < 2 ^ 32"
  shows "unat (counter_at n (Suc i)) = i mod n + 1"
proof -
  have "i mod n < n" using assms(1) by simp
  with assms(2) have "i mod n + 1 < 2 ^ 32" by linarith
  then show ?thesis by (simp add: counter_at_def unat_of_nat del: of_nat_add of_nat_Suc)
qed

lemma next_loop_turn:
  assumes "loops \<noteq> []" "length loops < 2 ^ 32"
  shows "next_loop (counter_at (length loops) j) loops =
    Some (loops ! (j mod length loops), counter_at (length loops) (Suc j))"
proof (cases j)
  case 0
  with assms show ?thesis by (simp add: next_loop_def counter_at_def Let_def)
next
  case (Suc i)
  let ?n = "length loops"
  have n: "0 < ?n" using assms(1) by simp
  note c = unat_counter [OF n assms(2), of i]
  have m: "Suc i mod ?n = (if i mod ?n + 1 = ?n then 0 else i mod ?n + 1)"
    by (simp add: mod_Suc)
  have step: "counter_at ?n (Suc (Suc i)) = word_of_nat (Suc i mod ?n + 1)" by (simp add: counter_at_def)
  show ?thesis
  proof (cases "i mod ?n + 1 = ?n")
    case True
    with n c m show ?thesis by (simp add: Suc next_loop_def Let_def step)
  next
    case False
    moreover have "i mod ?n + 1 < ?n" using False n by (metis Suc_eq_plus1 Suc_lessI mod_less_divisor)
    moreover have "counter_at ?n (Suc i) = word_of_nat (i mod ?n + 1)" by (simp add: counter_at_def)
    ultimately show ?thesis using c m by (simp add: Suc next_loop_def Let_def step)
  qed
qed

end
