(* ===== verification/Nodes.thy ===== *)
theory Nodes
  imports PaxosGroup Threads "HOL-Library.Multiset"
begin

text \<open>
  \<^verbatim>\<open>NodeImpl\<close>, \<^verbatim>\<open>src/paxos/node_impl.cc\<close>: the groups of a node, their start on the
  loops of a thread pool, and the operations that hand over to a group; and the packing of node
  ids, \<^verbatim>\<open>src/paxos/node_util.cc\<close>. The groups share one world; each has its own constants.
  An index that is out of the vector of groups is not defined: \<^const>\<open>None\<close>.
\<close>

section \<open>Options\<close>

text \<open>The callbacks and the cluster object of the options are functions of the environment.\<close>

record Options =
  net_thread_size :: u32
  io_thread_size :: u32
  callback_thread_size :: u32
  learn_thread_size :: u32
  clean_thread_size :: u32
  master_thread_size :: u32
  opt_my :: Member
  opt_groups :: "GroupOptions list"

text \<open>The constructor; \<^verbatim>\<open>my\<close> has no initialiser, and its integers hold the given ones.\<close>

definition Options_default :: "u64 \<Rightarrow> u16 \<Rightarrow> Options" where
  "Options_default node_id port =
     \<lparr>net_thread_size = 1, io_thread_size = 0, callback_thread_size = 1, learn_thread_size = 1,
      clean_thread_size = 1, master_thread_size = 1,
      opt_my = \<lparr>id_of = node_id, host_of = [], port_of = port, context_of = []\<rparr>, opt_groups = []\<rparr>"

section \<open>State\<close>

record group_loops =
  gl_io :: nat
  gl_callback :: nat
  gl_learn :: nat
  gl_clean :: nat
  gl_master :: "nat option"

record ('d, 'w) NodeImpl =
  stop :: bool
  node_options :: Options
  pool :: ThreadPool
  groups :: "('d, 'w) group list"
  group_configs :: "config list"
  group_loops :: "group_loops list"
  server_started :: bool
  node_world :: 'w

definition NodeImpl_new :: "Options \<Rightarrow> 'w \<Rightarrow> ('d, 'w) NodeImpl" where
  "NodeImpl_new options w =
     \<lparr>stop = False, node_options = options, pool = ThreadPool_new, groups = [], group_configs = [],
      group_loops = [], server_started = False, node_world = w\<rparr>"

definition with_config :: "config \<Rightarrow> ('d, 'w) env \<Rightarrow> ('d, 'w) env" where
  "with_config c E = config.extend c (config.more E)"

text \<open>An operation of the group at an index, with its result.\<close>

definition in_group ::
    "('d, 'w) env \<Rightarrow> nat \<Rightarrow> (('d, 'w) env \<Rightarrow> ('d, 'w) group \<Rightarrow> 'r \<times> ('d, 'w) group) \<Rightarrow>
      ('d, 'w) NodeImpl \<Rightarrow> ('r \<times> ('d, 'w) NodeImpl) option" where
  "in_group E i f n =
     (if i < length (groups n) then
        (case f (with_config (group_configs n ! i) E) ((groups n ! i)\<lparr>world := node_world n\<rparr>) of
           (r, g) \<Rightarrow> Some (r, n\<lparr>groups := (groups n)[i := g], node_world := world g\<rparr>))
      else None)"

section \<open>Start\<close>

text \<open>
  The first loop of \<^verbatim>\<open>StartWorking\<close>: each group is constructed and recovered, before the
  callbacks of the options are set; it stops at the first failure. \<open>init\<close> gives what the
  constructor of a group leaves to chance: two seeds, the times of its loops and two
  uninitialised fields.
\<close>

fun recover_groups ::
    "('d, 'w) env \<Rightarrow> u64 \<Rightarrow> (u32 \<Rightarrow> u32 \<times> u32 \<times> (loop_name \<Rightarrow> u64) \<times> u64 \<times> CheckpointReceiver) \<Rightarrow> 'd \<Rightarrow> u32 \<Rightarrow> GroupOptions list \<Rightarrow>
      ('d, 'w) NodeImpl \<Rightarrow> (bool \<times> ('d, 'w) NodeImpl) option" where
  "recover_groups E my init d i [] n = Some (True, n)"
| "recover_groups E my init d i (g # gs) n =
     (case Config_options my i g of
        None \<Rightarrow> None
      | Some c \<Rightarrow>
         (let E' = quiet (with_config c E);
              (seed1, seed2, born, uninit, rcv) = init i
          in case Group_Recover E' (Group_new E' g seed1 seed2 born uninit rcv d (node_world n)) of
               None \<Rightarrow> None
             | Some (False, grp) \<Rightarrow> Some (False, n\<lparr>node_world := world grp\<rparr>)
             | Some (True, grp) \<Rightarrow>
                 recover_groups E my init d (i + 1) gs
                   (n\<lparr>groups := groups n @ [grp], group_configs := group_configs n @ [c],
                      node_world := world grp\<rparr>)))"

text \<open>The sizes of the pool. A comparison with \<^verbatim>\<open>groups.size()\<close> is on 64 bits.\<close>

definition thread_sizes :: "nat \<Rightarrow> Options \<Rightarrow> Options" where
  "thread_sizes n opts =
     (let clamp = (\<lambda>size. if size = 0 then 1 else if unat size > n then word_of_nat n else size)
      in opts\<lparr>io_thread_size := (if io_thread_size opts = 0 then word_of_nat ((n + 1) div 2)
                              else if unat (io_thread_size opts) > n then word_of_nat n else io_thread_size opts),
           callback_thread_size := clamp (callback_thread_size opts),
           learn_thread_size := clamp (learn_thread_size opts),
           clean_thread_size := clamp (clean_thread_size opts),
           master_thread_size := (if unat (master_thread_size opts) > n then word_of_nat n
                                  else master_thread_size opts)\<rparr>)"

text \<open>The loops of one group; the order in which the five methods are called makes no
  difference, each has its own counter.\<close>

definition next_loops :: "ThreadPool \<Rightarrow> (group_loops \<times> ThreadPool) option" where
  "next_loops p =
     (case GetNextIOLoop p of None \<Rightarrow> None | Some (a, p1) \<Rightarrow>
     (case GetNextCallbackLoop p1 of None \<Rightarrow> None | Some (b, p2) \<Rightarrow>
     (case GetNextLearnLoop p2 of None \<Rightarrow> None | Some (c, p3) \<Rightarrow>
     (case GetNextCleanLoop p3 of None \<Rightarrow> None | Some (d, p4) \<Rightarrow>
     (case GetNextMasterLoop p4 of None \<Rightarrow> None | Some (e, p5) \<Rightarrow>
        Some (\<lparr>gl_io = a, gl_callback = b, gl_learn = c, gl_clean = d, gl_master = e\<rparr>, p5))))))"

text \<open>The second loop: callbacks, loops, garbage collection.\<close>

fun start_groups :: "('d, 'w) env \<Rightarrow> nat list \<Rightarrow> ('d, 'w) NodeImpl \<Rightarrow> ('d, 'w) NodeImpl option" where
  "start_groups E [] n = Some n"
| "start_groups E (i # is) n =
     (case next_loops (pool n) of
        None \<Rightarrow> None
      | Some (l, p) \<Rightarrow>
         (case in_group E i (\<lambda>E g. ((), Group_StartGC E (Group_Start g)))
                 (n\<lparr>pool := p, group_loops := group_loops n @ [l]\<rparr>) of
            None \<Rightarrow> None
          | Some (_, n') \<Rightarrow> start_groups E is n'))"

text \<open>The third loop. A group that uses a master and has no master loop calls a method of a
  null pointer.\<close>

fun sync_groups :: "('d, 'w) env \<Rightarrow> nat list \<Rightarrow> ('d, 'w) NodeImpl \<Rightarrow> ('d, 'w) NodeImpl option" where
  "sync_groups E [] n = Some n"
| "sync_groups E (i # is) n =
     (if cfg_use_master (group_configs n ! i) \<and> gl_master (group_loops n ! i) = None then None
      else (case in_group E i (\<lambda>E g. ((), Group_Sync E g)) n of
         None \<Rightarrow> None
       | Some (_, n') \<Rightarrow> sync_groups E is n'))"

text \<open>
  The whole of \<^verbatim>\<open>StartWorking\<close>. \<open>shuffle\<close> is \<^verbatim>\<open>std::shuffle\<close> with the engine
  seeded by the id of the node. The four assertions fail when there are no groups.
\<close>

definition StartWorking ::
    "('d, 'w) env \<Rightarrow> (u64 \<Rightarrow> nat list \<Rightarrow> nat list) \<Rightarrow> (u32 \<Rightarrow> u32 \<times> u32 \<times> (loop_name \<Rightarrow> u64) \<times> u64 \<times> CheckpointReceiver) \<Rightarrow> 'd \<Rightarrow>
      ('d, 'w) NodeImpl \<Rightarrow> (bool \<times> ('d, 'w) NodeImpl) option" where
  "StartWorking E shuffle init d n =
     (case recover_groups E (id_of (opt_my (node_options n))) init d 0 (opt_groups (node_options n)) n of
        None \<Rightarrow> None
      | Some (False, n1) \<Rightarrow> Some (False, n1)
      | Some (True, n1) \<Rightarrow>
         (let opts = thread_sizes (length (groups n1)) (node_options n1)
          in if io_thread_size opts = 0 \<or> callback_thread_size opts = 0 \<or> learn_thread_size opts = 0 \<or>
                clean_thread_size opts = 0 then None
             else (case ThreadPool_Start (io_thread_size opts) (callback_thread_size opts) (learn_thread_size opts)
                     (clean_thread_size opts) (master_thread_size opts) (pool n1) of
                None \<Rightarrow> None
              | Some p \<Rightarrow>
                 (case start_groups E [0 ..< length (groups n1)] (n1\<lparr>node_options := opts, pool := p\<rparr>) of
                    None \<Rightarrow> None
                  | Some n2 \<Rightarrow>
                     map_option (Pair True)
                       (sync_groups E (shuffle (id_of (opt_my opts)) [0 ..< length (groups n2)])
                         (n2\<lparr>server_started := True\<rparr>))))))"

definition Node_Start ::
    "('d, 'w) env \<Rightarrow> (u64 \<Rightarrow> nat list \<Rightarrow> nat list) \<Rightarrow> (u32 \<Rightarrow> u32 \<times> u32 \<times> (loop_name \<Rightarrow> u64) \<times> u64 \<times> CheckpointReceiver) \<Rightarrow> 'd \<Rightarrow>
      Options \<Rightarrow> 'w \<Rightarrow> (bool \<times> ('d, 'w) NodeImpl option) option" where
  "Node_Start E shuffle init d options w =
     map_option (\<lambda>(res, n). (res, if res then Some n else None))
       (StartWorking E shuffle init d (NodeImpl_new options w))"

section \<open>Operations\<close>

definition group_size :: "('d, 'w) NodeImpl \<Rightarrow> nat" where
  "group_size n = length (groups n)"

definition NodeImpl_Propose ::
    "('d, 'w) env \<Rightarrow> u32 \<Rightarrow> u32 \<Rightarrow> bytes \<Rightarrow> ctx_ptr \<Rightarrow> complete_cb \<Rightarrow> ('d, 'w) NodeImpl \<Rightarrow>
      (bool \<times> ('d, 'w) NodeImpl) option" where
  "NodeImpl_Propose E group_id machine_id value ctx cb n =
     in_group E (unat group_id) (\<lambda>_. Group_OnPropose machine_id value ctx cb) n"

definition NodeImpl_OnContent :: "('d, 'w) env \<Rightarrow> Content \<Rightarrow> ('d, 'w) NodeImpl \<Rightarrow> ('d, 'w) NodeImpl option" where
  "NodeImpl_OnContent E content n =
     (if \<not> stop n then
        (if unat (ct_group_id content) < length (groups n) then
           map_option snd (in_group E (unat (ct_group_id content)) (\<lambda>_ g. ((), Group_OnContent content g)) n)
         else Some n)
      else Some n)"

definition NodeImpl_ChangeMember ::
    "('d, 'w) env \<Rightarrow> u32 \<Rightarrow> (Member \<times> bool) list \<Rightarrow> ctx_ptr \<Rightarrow> complete_cb \<Rightarrow> ('d, 'w) NodeImpl \<Rightarrow>
      (bool \<times> ('d, 'w) NodeImpl) option" where
  "NodeImpl_ChangeMember E group_id value ctx cb n =
     in_group E (unat group_id) (\<lambda>E. ChangeMember E value ctx cb) n"

definition NodeImpl_GetMembership ::
    "('d, 'w) env \<Rightarrow> u32 \<Rightarrow> ('d, 'w) NodeImpl \<Rightarrow> ((Member list \<times> u64) \<times> ('d, 'w) NodeImpl) option" where
  "NodeImpl_GetMembership E group_id n = in_group E (unat group_id) (\<lambda>E g. (Group_GetMembership g, g)) n"

definition NodeImpl_GetMaster ::
    "('d, 'w) env \<Rightarrow> u32 \<Rightarrow> ('d, 'w) NodeImpl \<Rightarrow> ((Member \<times> u64) option \<times> ('d, 'w) NodeImpl) option" where
  "NodeImpl_GetMaster E group_id n = in_group E (unat group_id) (\<lambda>E g. (Group_GetMaster E g, g)) n"

definition NodeImpl_IsMaster ::
    "('d, 'w) env \<Rightarrow> u32 \<Rightarrow> ('d, 'w) NodeImpl \<Rightarrow> (bool \<times> ('d, 'w) NodeImpl) option" where
  "NodeImpl_IsMaster E group_id n = in_group E (unat group_id) (\<lambda>E g. (Group_IsMaster E g, g)) n"

definition NodeImpl_RetireMaster ::
    "('d, 'w) env \<Rightarrow> u32 \<Rightarrow> ('d, 'w) NodeImpl \<Rightarrow> (unit \<times> ('d, 'w) NodeImpl) option" where
  "NodeImpl_RetireMaster E group_id n = in_group E (unat group_id) (\<lambda>E g. ((), RetireMaster E g)) n"

definition NodeImpl_StartGC ::
    "('d, 'w) env \<Rightarrow> u32 \<Rightarrow> ('d, 'w) NodeImpl \<Rightarrow> (unit \<times> ('d, 'w) NodeImpl) option" where
  "NodeImpl_StartGC E group_id n = in_group E (unat group_id) (\<lambda>E g. ((), Group_StartGC E g)) n"

definition NodeImpl_StopGC ::
    "('d, 'w) env \<Rightarrow> u32 \<Rightarrow> ('d, 'w) NodeImpl \<Rightarrow> (unit \<times> ('d, 'w) NodeImpl) option" where
  "NodeImpl_StopGC E group_id n = in_group E (unat group_id) (\<lambda>E g. ((), Group_StopGC g)) n"

definition NodeImpl_stop :: "('d, 'w) NodeImpl \<Rightarrow> ('d, 'w) NodeImpl" where
  "NodeImpl_stop n = n\<lparr>stop := True\<rparr>"

lemmas [op_defs] = Options_default_def NodeImpl_new_def with_config_def in_group_def thread_sizes_def
  next_loops_def StartWorking_def Node_Start_def group_size_def NodeImpl_Propose_def NodeImpl_OnContent_def
  NodeImpl_ChangeMember_def NodeImpl_GetMembership_def NodeImpl_GetMaster_def NodeImpl_IsMaster_def
  NodeImpl_RetireMaster_def NodeImpl_StartGC_def NodeImpl_StopGC_def NodeImpl_stop_def

section \<open>One group at a time\<close>

lemma with_config_own: "with_config (config.truncate E) E = E"
  by (cases E) (simp add: with_config_def config.defs)

lemma in_group_SomeD:
  assumes "in_group E i f n = Some (r, n')"
  shows "i < length (groups n)"
    "groups n' = (groups n)[i := snd (f (with_config (group_configs n ! i) E) ((groups n ! i)\<lparr>world := node_world n\<rparr>))]"
    "n' = n\<lparr>groups := groups n', node_world := node_world n'\<rparr>"
  using assms by (auto simp: in_group_def split: if_splits prod.splits)

text \<open>What the loops of \<^verbatim>\<open>StartWorking\<close> do to the groups: \<open>f\<close> is applied to those
  at the given indices, each on the world of its turn.\<close>

definition each_group ::
    "('d, 'w) env \<Rightarrow> (('d, 'w) env \<Rightarrow> ('d, 'w) group \<Rightarrow> ('d, 'w) group) \<Rightarrow> nat set \<Rightarrow>
      ('d, 'w) NodeImpl \<Rightarrow> ('d, 'w) NodeImpl \<Rightarrow> bool" where
  "each_group E f I n n' \<longleftrightarrow>
     length (groups n') = length (groups n) \<and> group_configs n' = group_configs n \<and>
     node_options n' = node_options n \<and>
     (\<forall>i < length (groups n). if i \<in> I
        then \<exists>w. groups n' ! i = f (with_config (group_configs n ! i) E) ((groups n ! i)\<lparr>world := w\<rparr>)
        else groups n' ! i = groups n ! i)"

lemma each_group_cong:
  "groups m = groups n \<Longrightarrow> group_configs m = group_configs n \<Longrightarrow> node_options m = node_options n \<Longrightarrow>
   each_group E f I m n' \<longleftrightarrow> each_group E f I n n'"
  by (simp add: each_group_def)

lemma each_group_one:
  assumes "in_group E i (\<lambda>E g. ((), f E g)) n = Some (r, n')"
  shows "each_group E f {i} n n'"
proof -
  note d = in_group_SomeD [OF assms]
  have "groups n' ! i = f (with_config (group_configs n ! i) E) ((groups n ! i)\<lparr>world := node_world n\<rparr>)"
    using d(1,2) by simp
  moreover have "group_configs n' = group_configs n" "node_options n' = node_options n"
    by (subst d(3), simp)+
  ultimately show ?thesis using d(1,2) by (auto simp: each_group_def)
qed

lemma each_group_trans:
  assumes "each_group E f I n n1" "each_group E f J n1 n2" "I \<inter> J = {}"
  shows "each_group E f (I \<union> J) n n2"
  unfolding each_group_def
proof (intro conjI allI impI)
  fix i assume i: "i < length (groups n)"
  have i1: "i < length (groups n1)" "group_configs n1 = group_configs n" using assms(1) i by (simp_all add: each_group_def)
  have a: "if i \<in> I
      then \<exists>w. groups n1 ! i = f (with_config (group_configs n ! i) E) ((groups n ! i)\<lparr>world := w\<rparr>)
      else groups n1 ! i = groups n ! i"
    using assms(1) i unfolding each_group_def by blast
  have b: "if i \<in> J
      then \<exists>w. groups n2 ! i = f (with_config (group_configs n1 ! i) E) ((groups n1 ! i)\<lparr>world := w\<rparr>)
      else groups n2 ! i = groups n1 ! i"
    using assms(2) i1(1) unfolding each_group_def by blast
  show "if i \<in> I \<union> J
      then \<exists>w. groups n2 ! i = f (with_config (group_configs n ! i) E) ((groups n ! i)\<lparr>world := w\<rparr>)
      else groups n2 ! i = groups n ! i"
    using a b assms(3) i1(2) by (auto split: if_splits)
qed (use assms in \<open>simp_all add: each_group_def\<close>)

section \<open>Sizes of the pool\<close>

text \<open>
  Every size of the thread pool is within the bounds the options document: with at least
  one group, whatever the user asked for, there is at least one and at most one thread per group
  for io, callbacks, learning and cleaning, and at most one per group for masters. Hence the
  assertions before the start of the pool hold.
\<close>

theorem thread_sizes_bounds:
  assumes "0 < n" and "n < 2 ^ 32"
  shows "let o' = thread_sizes n opts in
    (\<forall>size \<in> {io_thread_size o', callback_thread_size o', learn_thread_size o', clean_thread_size o'}.
       0 < unat size \<and> unat size \<le> n) \<and>
    unat (master_thread_size o') \<le> n"
proof -
  have small: "unat (word_of_nat k :: u32) = k" if "k \<le> n" for k
    using that assms(2) by (simp add: unat_of_nat)
  have half: "(n + 1) div 2 \<le> n" "0 < (n + 1) div 2" using assms(1) by auto
  have pos: "0 < unat k" if "k \<noteq> 0" for k :: u32 using that by (simp add: unat_gt_0)
  show ?thesis
    using assms(1) small [of n] small [OF half(1)] half(2) pos by (auto simp: thread_sizes_def Let_def)
qed

section \<open>Loops for the groups\<close>

text \<open>The loops of the \<open>j\<close>-th group that asks, and the pool after \<open>j\<close> groups.\<close>

definition loops_at :: "ThreadPool \<Rightarrow> nat \<Rightarrow> group_loops" where
  "loops_at p j =
     (let at = (\<lambda>ls. ls ! (j mod length ls))
      in \<lparr>gl_io = at (io_loops p), gl_callback = at (callback_loops p), gl_learn = at (learn_loops p),
          gl_clean = at (clean_loops p),
          gl_master = (if master_loops p = [] then None else Some (at (master_loops p)))\<rparr>)"

definition pool_at :: "ThreadPool \<Rightarrow> nat \<Rightarrow> ThreadPool" where
  "pool_at p j =
     p\<lparr>io_next := counter_at (length (io_loops p)) j, callback_next := counter_at (length (callback_loops p)) j,
       learn_next := counter_at (length (learn_loops p)) j, clean_next := counter_at (length (clean_loops p)) j,
       master_next := (if master_loops p = [] then 0 else counter_at (length (master_loops p)) j)\<rparr>"

definition pool_ok :: "ThreadPool \<Rightarrow> bool" where
  "pool_ok p \<longleftrightarrow> pool_started p \<and>
     (\<forall>ls \<in> {io_loops p, callback_loops p, learn_loops p, clean_loops p}. ls \<noteq> [] \<and> length ls < 2 ^ 32) \<and>
     length (master_loops p) < 2 ^ 32"

lemma next_loops_at:
  assumes "pool_ok p"
  shows "next_loops (pool_at p j) = Some (loops_at p j, pool_at p (Suc j))"
  using assms next_loop_turn [of "io_loops p" j] next_loop_turn [of "callback_loops p" j]
    next_loop_turn [of "learn_loops p" j] next_loop_turn [of "clean_loops p" j] next_loop_turn [of "master_loops p" j]
  by (simp add: next_loops_def GetNextIOLoop_def GetNextCallbackLoop_def GetNextLearnLoop_def
      GetNextCleanLoop_def GetNextMasterLoop_def pool_at_def pool_ok_def loops_at_def Let_def)

lemma start_groups_at:
  assumes "start_groups E is n = Some n'" "pool_ok p" "pool n = pool_at p j" "distinct is"
  shows "group_loops n' = group_loops n @ map (loops_at p) [j ..< j + length is] \<and>
    each_group E (\<lambda>E g. Group_StartGC E (Group_Start g)) (set is) n n'"
  using assms(1,3,4)
proof (induction "is" arbitrary: n j)
  case Nil
  then show ?case by (simp add: each_group_def)
next
  case (Cons i "is")
  let ?f = "\<lambda>E g. Group_StartGC E (Group_Start g)"
  let ?n = "n\<lparr>pool := pool_at p (Suc j), group_loops := group_loops n @ [loops_at p j]\<rparr>"
  obtain n1 where n1: "in_group E i (\<lambda>E g. ((), ?f E g)) ?n = Some ((), n1)" "start_groups E is n1 = Some n'"
    using Cons.prems(1,2) next_loops_at [OF assms(2)] by (auto split: option.splits)
  have p1: "pool n1 = pool_at p (Suc j)" "group_loops n1 = group_loops n @ [loops_at p j]"
    by (subst in_group_SomeD(3) [OF n1(1)], simp)+
  have one: "each_group E ?f {i} n n1"
    using each_group_one [OF n1(1)] each_group_cong [of ?n n] by simp
  from Cons.IH [OF n1(2) p1(1)] Cons.prems(3) have
    rest: "group_loops n' = group_loops n1 @ map (loops_at p) [Suc j ..< Suc j + length is]"
      "each_group E ?f (set is) n1 n'" by simp_all
  from each_group_trans [OF one rest(2)] Cons.prems(3) have "each_group E ?f (set (i # is)) n n'" by simp
  moreover have "[j ..< j + length (i # is)] = j # [Suc j ..< Suc j + length is]" by (simp add: upt_rec)
  ultimately show ?case using rest(1) p1(2) by simp
qed

lemma sync_groups_at:
  assumes "sync_groups E is n = Some n'" "distinct is"
  shows "group_loops n' = group_loops n \<and> each_group E Group_Sync (set is) n n'"
  using assms
proof (induction "is" arbitrary: n)
  case Nil
  then show ?case by (simp add: each_group_def)
next
  case (Cons i "is")
  obtain n1 where n1: "in_group E i (\<lambda>E g. ((), Group_Sync E g)) n = Some ((), n1)" "sync_groups E is n1 = Some n'"
    using Cons.prems(1) by (auto split: option.splits if_splits)
  have "group_loops n1 = group_loops n" by (subst in_group_SomeD(3) [OF n1(1)], simp)
  with Cons.IH [OF n1(2)] Cons.prems(2) each_group_trans [OF each_group_one [OF n1(1)], of "set is" n'] show ?case
    by simp
qed

text \<open>The groups that were recovered.\<close>

definition recovered ::
    "('d, 'w) env \<Rightarrow> u64 \<Rightarrow> u32 \<Rightarrow> GroupOptions \<Rightarrow> config \<Rightarrow> ('d, 'w) group \<Rightarrow> bool" where
  "recovered E my i g c grp \<longleftrightarrow> Config_options my i g = Some c \<and>
     (\<exists>seed1 seed2 born u r d w. Group_Recover (quiet (with_config c E))
        (Group_new (quiet (with_config c E)) g seed1 seed2 born u r d w) = Some (True, grp))"

lemma recover_groups_all:
  assumes "recover_groups E my init d i gs n = Some (True, n')"
  shows "\<exists>grps cs. n' = n\<lparr>groups := groups n @ grps, group_configs := group_configs n @ cs, node_world := node_world n'\<rparr> \<and>
    length grps = length gs \<and> length cs = length gs \<and>
    (\<forall>k < length gs. recovered E my (i + word_of_nat k) (gs ! k) (cs ! k) (grps ! k))"
  using assms
proof (induction gs arbitrary: i n)
  case Nil
  then show ?case by simp
next
  case (Cons g gs)
  obtain c seed1 seed2 born u r grp where c: "Config_options my i g = Some c" "init i = (seed1, seed2, born, u, r)"
      "Group_Recover (quiet (with_config c E)) (Group_new (quiet (with_config c E)) g seed1 seed2 born u r d (node_world n)) =
         Some (True, grp)"
    and rest: "recover_groups E my init d (i + 1) gs (n\<lparr>groups := groups n @ [grp],
        group_configs := group_configs n @ [c], node_world := world grp\<rparr>) = Some (True, n')"
    using Cons.prems by (auto simp: Let_def split: option.splits prod.splits bool.splits)
  obtain grps cs where IH: "n' = n\<lparr>groups := (groups n @ [grp]) @ grps,
        group_configs := (group_configs n @ [c]) @ cs, node_world := node_world n'\<rparr>"
      "length grps = length gs" "length cs = length gs"
      "\<forall>k < length gs. recovered E my (i + 1 + word_of_nat k) (gs ! k) (cs ! k) (grps ! k)"
    using Cons.IH [OF rest] by auto
  have "recovered E my i g c grp" using c unfolding recovered_def by blast
  with IH(4) have "\<forall>k < length (g # gs).
      recovered E my (i + word_of_nat k) ((g # gs) ! k) ((c # cs) ! k) ((grp # grps) ! k)"
    by (auto simp: less_Suc_eq_0_disj add.assoc)
  with IH(1-3) show ?case by (intro exI [of _ "grp # grps"] exI [of _ "c # cs"]) simp
qed

section \<open>The start as a whole\<close>

definition started_pool :: "Options \<Rightarrow> ThreadPool" where
  "started_pool opts = the (ThreadPool_Start (io_thread_size opts) (callback_thread_size opts)
     (learn_thread_size opts) (clean_thread_size opts) (master_thread_size opts) ThreadPool_new)"

lemma started_pool_eq:
  "ThreadPool_Start (io_thread_size opts) (callback_thread_size opts) (learn_thread_size opts)
     (clean_thread_size opts) (master_thread_size opts) ThreadPool_new = Some (started_pool opts)"
  by (simp add: started_pool_def ThreadPool_Start_def ThreadPool_new_def Let_def)

lemma started_pool_ok:
  assumes "\<forall>size \<in> {io_thread_size opts, callback_thread_size opts, learn_thread_size opts, clean_thread_size opts}.
    size \<noteq> 0"
  shows "pool_ok (started_pool opts)" "started_pool opts = pool_at (started_pool opts) 0"
proof -
  have "unat n < 2 ^ 32" for n :: u32 using unsigned_less [of n] by simp
  with assms show "pool_ok (started_pool opts)" "started_pool opts = pool_at (started_pool opts) 0"
    by (simp_all add: pool_ok_def started_pool_def ThreadPool_Start_def ThreadPool_new_def Let_def
        new_threads_def pool_at_def unat_gt_0)
qed

lemma StartWorking_parts:
  fixes w :: 'w and d :: 'd
  assumes st: "StartWorking E shuffle init d (NodeImpl_new options w) = Some (True, n')"
    and sh: "\<And>seed xs. mset (shuffle seed xs) = mset xs"
  defines "k \<equiv> length (opt_groups options)"
  shows "length (groups n') = k" "node_options n' = thread_sizes k options"
    "group_loops n' = map (loops_at (started_pool (thread_sizes k options))) [0 ..< k]"
    "i < k \<Longrightarrow> \<exists>g w1 w2. let E' = with_config (group_configs n' ! i) E in
       recovered E (id_of (opt_my options)) (word_of_nat i) (opt_groups options ! i) (group_configs n' ! i) g \<and>
       groups n' ! i = Group_Sync E' ((Group_StartGC E' (Group_Start (g\<lparr>world := w1\<rparr>)))\<lparr>world := w2\<rparr>)"
    "\<forall>size \<in> {io_thread_size (node_options n'), callback_thread_size (node_options n'),
       learn_thread_size (node_options n'), clean_thread_size (node_options n')}. size \<noteq> 0"
proof -
  let ?o = "thread_sizes k options"
  let ?my = "id_of (opt_my options)"
  obtain n1 where rec: "recover_groups E ?my init d 0 (opt_groups options) (NodeImpl_new options w) = Some (True, n1)"
    using st by (auto simp: StartWorking_def NodeImpl_new_def split: option.splits bool.splits)
  obtain grps cs where n1: "n1 = (NodeImpl_new options w)\<lparr>groups := grps, group_configs := cs, node_world := node_world n1\<rparr>"
      "length grps = k" "length cs = k"
      "\<forall>i < k. recovered E ?my (word_of_nat i) (opt_groups options ! i) (cs ! i) (grps ! i)"
    using recover_groups_all [OF rec] by (auto simp: k_def NodeImpl_new_def)
  have f1: "groups n1 = grps" "group_configs n1 = cs" "node_options n1 = options" "pool n1 = ThreadPool_new"
      "group_loops n1 = []"
    by (subst n1(1), simp add: NodeImpl_new_def)+
  have rec': "recover_groups E (id_of (opt_my (node_options (NodeImpl_new options w)))) init d 0
      (opt_groups (node_options (NodeImpl_new options w))) (NodeImpl_new options w) = Some (True, n1)"
    using rec by (simp add: NodeImpl_new_def)
  obtain n2 where sizes: "\<forall>size \<in> {io_thread_size ?o, callback_thread_size ?o, learn_thread_size ?o, clean_thread_size ?o}. size \<noteq> 0"
    and s2: "start_groups E [0 ..< k] (n1\<lparr>node_options := ?o, pool := started_pool ?o\<rparr>) = Some n2"
    and s3: "sync_groups E (shuffle (id_of (opt_my ?o)) [0 ..< length (groups n2)]) (n2\<lparr>server_started := True\<rparr>) = Some n'"
    using st
    by (auto simp: StartWorking_def rec' Let_def f1 n1(2) started_pool_eq split: if_splits option.splits)
  let ?m = "n1\<lparr>node_options := ?o, pool := started_pool ?o\<rparr>"
  let ?start = "\<lambda>E g. Group_StartGC E (Group_Start g)"
  note p = started_pool_ok [OF sizes]
  have g2: "group_loops n2 = map (loops_at (started_pool ?o)) [0 ..< k]" "each_group E ?start {0 ..< k} ?m n2"
    using start_groups_at [OF s2 p(1), of 0] p(2) f1(5) by auto
  have l2: "length (groups n2) = k" "group_configs n2 = cs" "node_options n2 = ?o"
    using g2(2) f1 n1(2) by (simp_all add: each_group_def)
  have perm: "set (shuffle s [0 ..< k]) = {0 ..< k}" "distinct (shuffle s [0 ..< k])" for s
    using sh [of s "[0 ..< k]"] by (metis mset_eq_setD set_upt, metis distinct_upt mset_eq_imp_distinct_iff)
  have g3: "group_loops n' = group_loops n2" "each_group E Group_Sync {0 ..< k} n2 n'"
    using sync_groups_at [OF s3] perm l2(1) each_group_cong [of "n2\<lparr>server_started := True\<rparr>" n2] by auto
  then show l3: "length (groups n') = k" "node_options n' = ?o"
      "group_loops n' = map (loops_at (started_pool ?o)) [0 ..< k]"
    using l2 g2(1) by (simp_all add: each_group_def)
  have c3: "group_configs n' = cs" using g3(2) l2(2) by (simp add: each_group_def)
  show "\<exists>g w1 w2. let E' = with_config (group_configs n' ! i) E in
       recovered E ?my (word_of_nat i) (opt_groups options ! i) (group_configs n' ! i) g \<and>
       groups n' ! i = Group_Sync E' ((Group_StartGC E' (Group_Start (g\<lparr>world := w1\<rparr>)))\<lparr>world := w2\<rparr>)"
    if i: "i < k"
  proof -
    have m: "groups ?m = grps" "group_configs ?m = cs" by (simp_all add: f1)
    have "\<exists>w1. groups n2 ! i = ?start (with_config (cs ! i) E) ((grps ! i)\<lparr>world := w1\<rparr>)"
      using g2(2) i n1(2) unfolding each_group_def m by auto
    moreover have "\<exists>w2. groups n' ! i = Group_Sync (with_config (cs ! i) E) ((groups n2 ! i)\<lparr>world := w2\<rparr>)"
      using g3(2) i l2 unfolding each_group_def by auto
    ultimately obtain w1 w2 where "groups n' ! i =
        Group_Sync (with_config (cs ! i) E) ((?start (with_config (cs ! i) E) ((grps ! i)\<lparr>world := w1\<rparr>))\<lparr>world := w2\<rparr>)"
      by auto
    then show ?thesis using n1(4) i unfolding Let_def c3 by blast
  qed
  show "\<forall>size \<in> {io_thread_size (node_options n'), callback_thread_size (node_options n'),
       learn_thread_size (node_options n'), clean_thread_size (node_options n')}. size \<noteq> 0"
    using sizes by (simp add: l3(2))
qed

text \<open>
  C32. A node that has started has all its groups, and spreads them over its threads round
  robin: the \<open>i\<close>-th group is served by thread \<open>i\<close> modulo the number of threads of each
  kind, threads being numbered in the order of their creation, and by no master thread exactly
  when there are none.
\<close>

theorem StartWorking_round_robin:
  assumes "StartWorking E shuffle init d (NodeImpl_new options w) = Some (True, n')"
    and "\<And>seed xs. mset (shuffle seed xs) = mset xs"
  defines "opts \<equiv> node_options n'"
  defines "a \<equiv> unat (io_thread_size opts)" and "b \<equiv> unat (callback_thread_size opts)"
    and "c \<equiv> unat (learn_thread_size opts)" and "e \<equiv> unat (clean_thread_size opts)"
    and "m \<equiv> unat (master_thread_size opts)"
  shows "group_size n' = length (opt_groups options) \<and>
    group_loops n' = map (\<lambda>i. \<lparr>gl_io = i mod a, gl_callback = a + i mod b, gl_learn = a + b + i mod c,
      gl_clean = a + b + c + i mod e,
      gl_master = (if m = 0 then None else Some (a + b + c + e + i mod m))\<rparr>) [0 ..< length (opt_groups options)]"
proof -
  let ?k = "length (opt_groups options)"
  note parts = StartWorking_parts [OF assms(1,2)]
  have o: "thread_sizes ?k options = opts" by (simp add: opts_def parts(2))
  have pos: "a \<noteq> 0" "b \<noteq> 0" "c \<noteq> 0" "e \<noteq> 0"
    using parts(5) by (simp_all add: a_def b_def c_def e_def opts_def unat_gt_0)
  have "loops_at (started_pool opts) i = \<lparr>gl_io = i mod a, gl_callback = a + i mod b, gl_learn = a + b + i mod c,
      gl_clean = a + b + c + i mod e, gl_master = (if m = 0 then None else Some (a + b + c + e + i mod m))\<rparr>"
    for i
    using pos
    by (simp add: loops_at_def started_pool_def ThreadPool_Start_def ThreadPool_new_def Let_def new_threads_def
        a_def [symmetric] b_def [symmetric] c_def [symmetric] e_def [symmetric] m_def [symmetric])
  then show ?thesis using parts(1,3) o by (simp add: group_size_def)
qed

section \<open>Node ids\<close>

text \<open>\<^verbatim>\<open>inet_addr\<close> and \<^verbatim>\<open>inet_ntoa\<close> are arguments; the address is in network byte
  order, as a number. The assertion of \<^verbatim>\<open>MakeId\<close> compares with a number that a 32-bit
  address never is: it holds always.\<close>

definition MakeId :: "(string \<Rightarrow> u32) \<Rightarrow> string \<Rightarrow> u16 \<Rightarrow> u64" where
  "MakeId inet_addr ip port = or (push_bit 32 (ucast (inet_addr ip))) (ucast port)"

definition ParseId :: "(u32 \<Rightarrow> string) \<Rightarrow> u64 \<Rightarrow> string \<times> u16" where
  "ParseId inet_ntoa i = (inet_ntoa (ucast (drop_bit 32 i)), ucast (and i 0xffffffff))"

lemma MakeId_assertion: "ucast (inet_addr ip :: u32) \<noteq> (0xffffffffffffffff - 1 :: u64)"
proof
  assume "ucast (inet_addr ip :: u32) = (0xffffffffffffffff - 1 :: u64)"
  then have "unat (ucast (inet_addr ip :: u32) :: u64) = 0xfffffffffffffffe" by simp
  moreover have "unat (inet_addr ip :: u32) < 2 ^ 32" using unsigned_less [of "inet_addr ip"] by simp
  ultimately show False by (simp add: unsigned_ucast_eq take_bit_nat_eq_self)
qed

lemma id_bits:
  fixes a :: u32 and p :: u16
  shows "ucast (drop_bit 32 (or (push_bit 32 (ucast a)) (ucast p) :: u64)) = a"
    "ucast (and (or (push_bit 32 (ucast a)) (ucast p) :: u64) 0xffffffff) = p"
proof -
  have mask: "(0xffffffff :: u64) = mask 32" by (simp add: mask_eq_exp_minus_1)
  show "ucast (drop_bit 32 (or (push_bit 32 (ucast a)) (ucast p) :: u64)) = a"
    by (rule bit_word_eqI) (auto simp: bit_simps dest: bit_imp_le_length)
  show "ucast (and (or (push_bit 32 (ucast a)) (ucast p) :: u64) 0xffffffff) = p"
    unfolding mask by (rule bit_word_eqI) (auto simp: bit_simps)
qed

text \<open>
  C36. Packing the address and the port of a node into its id loses nothing: \<^verbatim>\<open>ParseId\<close>
  gives back the port, and the address in the notation of \<^verbatim>\<open>inet_ntoa\<close>; different
  addresses or ports give different ids.
\<close>

theorem MakeId_roundtrip:
  assumes "\<And>a. inet_addr (inet_ntoa a) = a"
  shows "ParseId inet_ntoa (MakeId inet_addr (inet_ntoa a) port) = (inet_ntoa a, port) \<and>
    (MakeId inet_addr (inet_ntoa a) port = MakeId inet_addr (inet_ntoa a') port' \<longleftrightarrow> a = a' \<and> port = port')"
proof -
  have "ParseId inet_ntoa (MakeId inet_addr (inet_ntoa a) port) = (inet_ntoa a, port)" for a port
    by (simp only: ParseId_def MakeId_def assms id_bits)
  moreover have "inet_ntoa a = inet_ntoa a' \<longleftrightarrow> a = a'" using assms by metis
  ultimately show ?thesis by (metis prod.inject)
qed

end
