(* ===== verification/Proposals.thy ===== *)
theory Proposals
  imports Safety PaxosGroup
begin

text \<open>
  The way of a proposal: the queue of the group, the closure on the io loop, the instance and
  its timer, and back to the queue. The invariant \<open>proposals_ok\<close> says that exactly one of
  these holds the proposal under way; every handler keeps it, so that the assertions of
  \<^verbatim>\<open>Instance::OnPropose\<close> and \<^verbatim>\<open>ProposeQueue::ProposeComplete\<close> cannot fail,
  and every proposal that was taken in is answered once, in order.
\<close>

section \<open>The invariant\<close>

fun is_handler :: "io_task \<Rightarrow> bool" where
  "is_handler (ProposeTask m v c) = True"
| "is_handler MasterTask = True"
| "is_handler _ = False"

fun func_handler :: "io_task func \<Rightarrow> bool" where
  "func_handler (Func t) = is_handler t"
| "func_handler _ = False"

definition handlers :: "io_task runloop \<Rightarrow> io_task func list" where
  "handlers l = filter func_handler (funcs l)"

definition queued_handlers :: "io_task runloop \<Rightarrow> nat" where
  "queued_handlers l = length (handlers l)"

text \<open>The proposal under way is on the io loop, or one of the \<open>n\<close> held elsewhere.\<close>

definition slots :: "(io_task, 'c) ProposeQueue \<Rightarrow> io_task runloop \<Rightarrow> nat \<Rightarrow> bool" where
  "slots q io n \<longleftrightarrow>
     queue_ok q \<and> list_all is_handler (propose_queue q) \<and>
     queued_handlers io + n = (if last_finished q then 0 else 1)"

text \<open>The loop: consistent one-shot timers, among them at most the propose timer \<open>p\<close> and
  only if \<open>busy\<close>, and none that proposes; no queued closure is a propose timer's.\<close>

definition loop_ok :: "io_task runloop \<Rightarrow> bool \<Rightarrow> TimerId \<Rightarrow> bool" where
  "loop_ok io busy p \<longleftrightarrow>
     timers_ok (timer_list io) \<and>
     (\<forall>a t. live_cb (timer_list io) a = Some t \<longrightarrow>
        \<not> is_handler t \<and> (t = ProposeTimer \<longrightarrow> busy \<and> a = snd p)) \<and>
     (\<forall>a tm. map_of (timer_heap (timer_list io)) a = Some tm \<longrightarrow> ms_interval tm = 0) \<and>
     (\<forall>f \<in> set (funcs io). \<exists>t. f = Func t \<and> t \<noteq> ProposeTimer)"

definition proposals_ok :: "('d, 'w, 'z) node_scheme \<Rightarrow> bool" where
  "proposals_ok s \<longleftrightarrow>
     slots (queue s) (io_loop s) (if is_proposing s then 1 else 0) \<and>
     loop_ok (io_loop s) (is_proposing s) (propose_timer s) \<and>
     (context_ptr s \<noteq> Null \<longrightarrow> is_proposing s)"

text \<open>The callbacks that wait for their turn, or for the answer of their proposal.\<close>

fun func_cb :: "complete_cb cb_call func \<Rightarrow> complete_cb list" where
  "func_cb (Func c) = [fst c]"
| "func_cb _ = []"

definition called_back :: "complete_cb cb_call runloop \<Rightarrow> complete_cb list" where
  "called_back l = concat (map func_cb (funcs l))"

definition callbacks :: "('d, 'w, 'z) node_scheme \<Rightarrow> complete_cb list" where
  "callbacks s = called_back (callback_loop s) @ cb_queue (queue s)"

text \<open>The closures of proposals that have not run yet: on the io loop, then in the queue. No handler
  changes them or the callbacks.\<close>

definition pending :: "('d, 'w, 'z) node_scheme \<Rightarrow> io_task func list" where
  "pending s = handlers (io_loop s) @ map Func (propose_queue (queue s))"

definition same_flow :: "('d, 'w, 'z) node_scheme \<Rightarrow> ('d, 'w, 'z) node_scheme \<Rightarrow> bool" where
  "same_flow s s' \<longleftrightarrow> callbacks s' = callbacks s \<and> pending s' = pending s"

lemmas flow_defs = same_flow_def callbacks_def pending_def

lemma proposals_ok_cong:
  assumes "queue s' = queue s" "io_loop s' = io_loop s" "is_proposing s' = is_proposing s"
    "context_ptr s' = context_ptr s" "propose_timer s' = propose_timer s"
  shows "proposals_ok s' \<longleftrightarrow> proposals_ok s"
  using assms by (simp add: proposals_ok_def)

section \<open>Completing a proposal\<close>

lemma handlers_Queue [simp]:
  "handlers (RunLoop_QueueInLoop f l) = handlers l @ (if func_handler f then [f] else [])"
  by (simp add: handlers_def RunLoop_QueueInLoop_def)

lemma queued_handlers_Queue [simp]:
  "queued_handlers (RunLoop_QueueInLoop f l) = queued_handlers l + (if func_handler f then 1 else 0)"
  by (simp add: queued_handlers_def)

lemma timer_list_Queue [simp]: "timer_list (RunLoop_QueueInLoop f l) = timer_list l"
  by (simp add: RunLoop_QueueInLoop_def)

lemma loop_ok_Queue:
  "loop_ok io b p \<Longrightarrow> t \<noteq> ProposeTimer \<Longrightarrow> loop_ok (RunLoop_QueueInLoop (Func t) io) b p"
  by (auto simp: loop_ok_def RunLoop_QueueInLoop_def)

lemma called_back_Queue [simp]:
  "called_back (RunLoop_QueueInLoop (Func c) l) = called_back l @ [fst c]"
  by (simp add: called_back_def RunLoop_QueueInLoop_def)

lemma handler_not_timer: "is_handler t \<Longrightarrow> t \<noteq> ProposeTimer"
  by (cases t) auto

lemma Complete_slots:
  assumes "slots q io 1"
  obtains io' cbl' q' where
    "ProposeQueue_ProposeComplete i st c io cbl q = Some (io', cbl', q')"
    "slots q' io' 0" "called_back cbl' @ cb_queue q' = called_back cbl @ cb_queue q"
    "\<And>b p. loop_ok io b p \<Longrightarrow> loop_ok io' b p" "timer_list io' = timer_list io"
    "handlers io' @ map Func (propose_queue q') = handlers io @ map Func (propose_queue q)"
proof -
  have q: "queue_ok q" "list_all is_handler (propose_queue q)" "\<not> last_finished q"
    "queued_handlers io = 0"
    using assms by (auto simp: slots_def split: if_splits)
  then obtain cb cbs where cb: "cb_queue q = cb # cbs"
    by (cases "cb_queue q") (auto simp: queue_ok_def)
  show thesis
  proof (cases "propose_queue q")
    case Nil
    then have eq: "ProposeQueue_ProposeComplete i st c io cbl q =
        Some (io, RunLoop_QueueInLoop (Func (cb, i, Status_copy st, c)) cbl,
          q\<lparr>cb_queue := cbs, last_finished := True\<rparr>)"
      using q(3) cb by (simp add: ProposeQueue_ProposeComplete_def)
    show thesis
      using q cb Nil by (intro that [OF eq]) (auto simp: slots_def queue_ok_def)
  next
    case (Cons f fs)
    then have f: "is_handler f" using q(2) by simp
    have eq: "ProposeQueue_ProposeComplete i st c io cbl q =
        Some (RunLoop_QueueInLoop (Func f) io,
          RunLoop_QueueInLoop (Func (cb, i, Status_copy st, c)) cbl,
          q\<lparr>cb_queue := cbs, propose_queue := fs\<rparr>)"
      using q(3) cb Cons by (simp add: ProposeQueue_ProposeComplete_def)
    have "slots (q\<lparr>cb_queue := cbs, propose_queue := fs\<rparr>) (RunLoop_QueueInLoop (Func f) io) 0"
      using q cb Cons f by (auto simp: slots_def queue_ok_def)
    then show thesis
      using cb loop_ok_Queue [OF _ handler_not_timer [OF f]] f Cons
      by (intro that [OF eq]) simp_all
  qed
qed

text \<open>\<^verbatim>\<open>propose_cb_\<close> called for the proposal under way: no assertion fails, and the
  head of the callbacks moves to the callback loop.\<close>

lemma propose_cb_slots:
  fixes s :: "('d, 'w, 'z) node_scheme"
  assumes "slots (queue s) (io_loop s) 1"
  shows "aborted (propose_cb i st c s) = aborted s"
    and "slots (queue (propose_cb i st c s)) (io_loop (propose_cb i st c s)) 0"
    and "same_flow s (propose_cb i st c s)"
    and "loop_ok (io_loop s) b p \<Longrightarrow> loop_ok (io_loop (propose_cb i st c s)) b p"
proof -
  obtain io' cbl' q' where c:
    "ProposeQueue_ProposeComplete i st c (io_loop s) (callback_loop s) (queue s) = Some (io', cbl', q')"
    "slots q' io' 0" "called_back cbl' @ cb_queue q' = called_back (callback_loop s) @ cb_queue (queue s)"
    "\<And>b p. loop_ok (io_loop s) b p \<Longrightarrow> loop_ok io' b p"
    "handlers io' @ map Func (propose_queue q') = handlers (io_loop s) @ map Func (propose_queue (queue s))"
    using Complete_slots [OF assms] by metis
  then have eq: "propose_cb i st c s = s\<lparr>io_loop := io', callback_loop := cbl', queue := q'\<rparr>"
    by (simp add: propose_cb_def)
  show "aborted (propose_cb i st c s) = aborted s"
    "slots (queue (propose_cb i st c s)) (io_loop (propose_cb i st c s)) 0"
    "same_flow s (propose_cb i st c s)"
    using c(2,3,5) by (simp_all add: eq flow_defs)
  show "loop_ok (io_loop s) b p \<Longrightarrow> loop_ok (io_loop (propose_cb i st c s)) b p"
    using c(4) by (simp add: eq)
qed

section \<open>Timers\<close>

lemma heap_keys: "timers_ok L \<Longrightarrow> set (timer_ptrs L) \<subseteq> set (map fst (timer_heap L))"
proof
  fix p assume ok: "timers_ok L" and "p \<in> set (timer_ptrs L)"
  then obtain v where "(v, p) \<in> set (timers L)" by (auto simp: timers_ok_def)
  with ok obtain tm where "map_of (timer_heap L) p = Some tm" by (auto simp: timers_ok_def)
  from map_of_SomeD [OF this] show "p \<in> set (map fst (timer_heap L))" by force
qed

lemma RunAfter_funcs [simp]: "funcs (io_loop (snd (io_RunAfter E d cb s))) = funcs (io_loop s)"
  by (simp add: io_RunAfter_def RunAfter_def schedule_def RunInLoop_timer_def case_prod_beta Let_def)

lemma loop_ok_RunAfter:
  fixes s :: "('d, 'w, 'z) node_scheme"
  assumes ok: "loop_ok (io_loop s) b p" and alloc: "alloc_ok E"
    and r: "io_RunAfter E d cb s = (t, s')" and cb: "\<not> is_handler cb"
  shows "cb \<noteq> ProposeTimer \<Longrightarrow> loop_ok (io_loop s') b p"
    and "\<not> b \<Longrightarrow> loop_ok (io_loop s') True t"
proof -
  let ?L = "timer_list (io_loop s)"
  obtain now w1 where w1: "NowMillis E (world s) = (now, w1)" by fastforce
  obtain a w2 where w2: "new_timer E (map fst (timer_heap ?L)) w1 = (a, w2)" by fastforce
  have "a \<notin> set (map fst (timer_heap ?L))"
    using alloc w2 by (metis alloc_ok_def fst_conv)
  then have fresh: "a \<notin> set (timer_ptrs ?L)"
    using heap_keys ok by (auto simp: loop_ok_def)
  have t: "t = (now + d, a)"
    and l: "io_loop s' = (io_loop s)\<lparr>timer_list :=
      InsertInLoop (now + d, a) (Timer_new a (now + d) 0 cb ?L)\<rparr>"
    using r w1 w2
    by (auto simp: io_RunAfter_def RunAfter_def schedule_def RunInLoop_timer_def)
  have heap: "map_of (timer_heap (InsertInLoop (now + d, a) (Timer_new a (now + d) 0 cb ?L))) x = Some tm \<Longrightarrow>
      ms_interval tm = 0" for x tm
    using ok by (auto simp: loop_ok_def InsertInLoop_def Timer_new_def update_conv' split: if_splits)
  show "cb \<noteq> ProposeTimer \<Longrightarrow> loop_ok (io_loop s') b p"
    using ok cb timers_ok_schedule [OF _ fresh] heap
    by (auto simp: loop_ok_def l live_cb_schedule split: if_splits)
  show "\<not> b \<Longrightarrow> loop_ok (io_loop s') True t"
    using ok cb timers_ok_schedule [OF _ fresh] heap
    by (auto simp: loop_ok_def l live_cb_schedule t split: if_splits)
qed

lemma Remove_heap:
  "map_of (timer_heap (TimerList_Remove t L)) a = Some tm \<Longrightarrow> map_of (timer_heap L) a = Some tm"
  by (auto simp: TimerList_Remove_def delete_conv' split: if_splits option.splits)

lemma loop_ok_Remove:
  assumes "loop_ok io b p"
  shows "loop_ok (RunLoop_Remove True t io) b p"
    and "loop_ok (RunLoop_Remove True p io) False p'"
proof -
  have "RunLoop_Remove True t io = io\<lparr>timer_list := TimerList_Remove t (timer_list io)\<rparr>" for t
    by (simp add: RunLoop_Remove_def RunInLoop_timer_def)
  with assms show "loop_ok (RunLoop_Remove True t io) b p" "loop_ok (RunLoop_Remove True p io) False p'"
    by (auto simp: loop_ok_def timers_ok_Remove live_cb_Remove dest: Remove_heap split: if_splits)
qed

section \<open>Every handler keeps the invariant\<close>

definition proposals_step ::
    "('d, 'w) env \<Rightarrow> ('d, 'w, 'z) node_scheme \<Rightarrow> ('d, 'w, 'z) node_scheme \<Rightarrow> bool" where
  "proposals_step E s s' \<longleftrightarrow>
     (alloc_ok E \<and> proposals_ok s \<longrightarrow> proposals_ok s' \<and> same_flow s s')"

lemma proposals_stepI:
  assumes "queue s' = queue s" "io_loop s' = io_loop s" "is_proposing s' = is_proposing s"
    "context_ptr s' = context_ptr s" "propose_timer s' = propose_timer s"
    "callback_loop s' = callback_loop s"
  shows "proposals_step E s s'"
  using assms proposals_ok_cong [of s' s] by (simp add: proposals_step_def flow_defs)

lemma proposals_step_timer:
  "cb = LearnTimer \<or> (\<exists>i. cb = RetryTimer i) \<Longrightarrow> proposals_step E s (snd (io_RunAfter E d cb s))"
proof -
  assume "cb = LearnTimer \<or> (\<exists>i. cb = RetryTimer i)"
  then have cb: "\<not> is_handler cb" "cb \<noteq> ProposeTimer" by auto
  obtain t s' where r: "io_RunAfter E d cb s = (t, s')" by fastforce
  have "queue s' = queue s" "is_proposing s' = is_proposing s" "context_ptr s' = context_ptr s"
    "propose_timer s' = propose_timer s" "callback_loop s' = callback_loop s"
    using r io_RunAfter_frame [of E d cb s] by simp_all
  moreover have "funcs (io_loop s') = funcs (io_loop s)"
    using r RunAfter_funcs [of E d cb s] by simp
  ultimately show ?thesis
    using loop_ok_RunAfter(1) [OF _ _ r cb(1) cb(2), of "is_proposing s" "propose_timer s"]
    by (simp add: r proposals_step_def proposals_ok_def flow_defs slots_def queued_handlers_def handlers_def)
qed

lemma queued_handlers_Remove [simp]:
  "handlers (RunLoop_Remove True t io) = handlers io"
  "queued_handlers (RunLoop_Remove True t io) = queued_handlers io"
  by (simp_all add: queued_handlers_def handlers_def RunLoop_Remove_def RunInLoop_timer_def)

lemma proposals_step_remove: "proposals_step E s (io_Remove t s)"
  using loop_ok_Remove(1)
  by (auto simp: proposals_step_def proposals_ok_def flow_defs slots_def io_Remove_def)

text \<open>Learning a value answers the proposal under way, if there is one, whatever was learned.\<close>

lemma proposals_step_CheckLearn: "proposals_step E s (CheckLearn E s)"
proof (cases "has_learned (learner s) \<and> is_proposing s")
  case False
  let ?v = "learned_value (learner s)"
  show ?thesis
    using False
    by (intro proposals_stepI)
      (auto simp: CheckLearn_def Let_def case_prod_beta Instance_NextInstance_def
        Learner_NextInstance_def SetMaxChosenInstanceId_def)
next
  case True
  define s1 where "s1 = io_Remove (propose_timer s) s"
  define my where "my = (pv_value_id (propose_value s) = pv_value_id (learned_value (learner s)))"
  define s2 where "s2 = snd (MachineExecute E (learned_value (learner s)) my s1)"
  define st where "st = learn_status (fst (MachineExecute E (learned_value (learner s)) my s1)) my
    (learned_value (learner s))"
  define s3 where "s3 = propose_cb (instance_id s2) st (context_ptr s2) s2"
  have fields: "queue (CheckLearn E s) = queue s3" "io_loop (CheckLearn E s) = io_loop s3"
    "\<not> is_proposing (CheckLearn E s)" "context_ptr (CheckLearn E s) = Null"
    "propose_timer (CheckLearn E s) = propose_timer s3"
    "callback_loop (CheckLearn E s) = callback_loop s3"
    using True
    by (simp_all add: CheckLearn_def Let_def case_prod_beta Instance_NextInstance_def
        Learner_NextInstance_def SetMaxChosenInstanceId_def s1_def s2_def s3_def my_def st_def)
  have s2: "queue s2 = queue s" "io_loop s2 = RunLoop_Remove True (propose_timer s) (io_loop s)"
    "callback_loop s2 = callback_loop s"
    by (simp_all add: s2_def s1_def) (simp add: io_Remove_def)
  show ?thesis
    unfolding proposals_step_def
  proof
    assume "alloc_ok E \<and> proposals_ok s"
    then have ok: "slots (queue s2) (io_loop s2) 1" "loop_ok (io_loop s2) False (propose_timer s3)"
      using True loop_ok_Remove(2) [of "io_loop s" True "propose_timer s" "propose_timer s3"]
      by (simp_all add: proposals_ok_def s2 slots_def)
    note cb = propose_cb_slots [OF ok(1), where i = "instance_id s2" and st = st and c = "context_ptr s2",
      folded s3_def]
    have "same_flow s s2" by (simp add: flow_defs s2)
    with cb(2,3) cb(4) [OF ok(2)] show "proposals_ok (CheckLearn E s) \<and> same_flow s (CheckLearn E s)"
      by (simp add: proposals_ok_def flow_defs fields)
  qed
qed

interpretation proposals: handler_invariant E "proposals_step E" for E :: "('d, 'w) env"
proof unfold_locales
  fix s t u :: "('d, 'w, 'z) node_scheme"
  show "proposals_step E s s" by (rule proposals_stepI) simp_all
  show "proposals_step E s t \<Longrightarrow> proposals_step E t u \<Longrightarrow> proposals_step E s u"
    by (simp add: proposals_step_def same_flow_def)
next
  fix s :: "('d, 'w, 'z) node_scheme" and msg :: PaxosMessage
  show "proposals_step E s (snd (Learner_WriteToDB E msg s))"
    by (rule proposals_stepI) (simp_all add: Learner_WriteToDB_def Let_def case_prod_beta)
qed (auto intro: proposals_stepI proposals_step_timer proposals_step_remove proposals_step_CheckLearn)

section \<open>The closures of the io loop\<close>

text \<open>A closure that has been taken off the loop and is about to propose.\<close>

definition handling :: "('d, 'w, 'z) node_scheme \<Rightarrow> bool" where
  "handling s \<longleftrightarrow>
     slots (queue s) (io_loop s) 1 \<and> loop_ok (io_loop s) False (propose_timer s) \<and>
     \<not> is_proposing s \<and> context_ptr s = Null"

lemma propose_cb_handling:
  assumes "handling s"
  shows "proposals_ok (propose_cb i st c s) \<and> same_flow s (propose_cb i st c s)"
  using assms propose_cb_slots [of s] by (simp add: handling_def proposals_ok_def)

lemma GetPaxosValueId_frame [simp]:
  "queue (snd (GetPaxosValueId E s)) = queue s"
  "io_loop (snd (GetPaxosValueId E s)) = io_loop s"
  "callback_loop (snd (GetPaxosValueId E s)) = callback_loop s"
  "is_proposing (snd (GetPaxosValueId E s)) = is_proposing s"
  "context_ptr (snd (GetPaxosValueId E s)) = context_ptr s"
  "propose_timer (snd (GetPaxosValueId E s)) = propose_timer s"
  by (simp_all add: GetPaxosValueId_def in_world_def Let_def case_prod_beta)

lemma OnPropose_handling:
  fixes s :: "('d, 'w, 'z) node_scheme"
  assumes alloc: "alloc_ok E" and h: "handling s"
  shows "proposals_ok (Instance_OnPropose E m v c s) \<and> same_flow s (Instance_OnPropose E m v c s)"
proof (cases "IsValidNodeId (cfg_node_id E) s")
  case False
  with propose_cb_handling [OF h] show ?thesis by (simp add: Instance_OnPropose_def)
next
  case True
  obtain i s1 where s1: "GetPaxosValueId E (s\<lparr>is_proposing := True, context_ptr := c\<rparr>) = (i, s1)"
    by fastforce
  define val where "val = \<lparr>pv_value_id = i, pv_machine_id = m, pv_user_data = v\<rparr>"
  obtain t s2 where s2: "io_RunAfter E (cfg_propose_timeout E) ProposeTimer (s1\<lparr>propose_value := val\<rparr>) = (t, s2)"
    by fastforce
  have f1: "queue s1 = queue s" "io_loop s1 = io_loop s" "callback_loop s1 = callback_loop s" "is_proposing s1"
    using GetPaxosValueId_frame [of E "s\<lparr>is_proposing := True, context_ptr := c\<rparr>"] s1 by simp_all
  have f2: "queue s2 = queue s" "callback_loop s2 = callback_loop s" "is_proposing s2"
      "funcs (io_loop s2) = funcs (io_loop s)"
    using f1 io_RunAfter_frame [of E "cfg_propose_timeout E" ProposeTimer "s1\<lparr>propose_value := val\<rparr>"]
      RunAfter_funcs [of E "cfg_propose_timeout E" ProposeTimer "s1\<lparr>propose_value := val\<rparr>"] s2 by simp_all
  have "loop_ok (io_loop s2) True t"
    using loop_ok_RunAfter(2) [OF _ alloc s2 _, of False "propose_timer s"] h f1 by (simp add: handling_def)
  then have "proposals_ok (s2\<lparr>propose_timer := t\<rparr>)" "same_flow s (s2\<lparr>propose_timer := t\<rparr>)"
    using h f2 by (simp_all add: proposals_ok_def handling_def slots_def queued_handlers_def handlers_def flow_defs)
  moreover have "Instance_OnPropose E m v c s = NewPropose E (OnPaxosMessage E) val (s2\<lparr>propose_timer := t\<rparr>)"
    using True h s1 s2 by (simp add: Instance_OnPropose_def handling_def val_def)
  ultimately show ?thesis
    using proposals.R_NewPropose [of E "s2\<lparr>propose_timer := t\<rparr>" val] alloc
    by (simp add: proposals_step_def same_flow_def)
qed

lemma ProposeTimer_answers:
  assumes "slots (queue s) (io_loop s) 1" "loop_ok (io_loop s) False p"
  shows "proposals_ok (run_ProposeTimer s) \<and> same_flow s (run_ProposeTimer s)"
proof -
  define s1 where "s1 = (QuitPropose s)\<lparr>is_proposing := False\<rparr>"
  have s1: "queue s1 = queue s" "callback_loop s1 = callback_loop s"
    "io_loop s1 = RunLoop_Remove True (retry_timer (proposer s)) (io_loop s)"
    by (simp_all add: s1_def QuitPropose_def RemoveRetryTimer_def io_Remove_def)
  have ok: "slots (queue s1) (io_loop s1) 1" "loop_ok (io_loop s1) False p'" for p'
    using assms loop_ok_Remove(1) [OF assms(2)] by (auto simp: s1 slots_def loop_ok_def)
  have "same_flow s s1" by (simp add: flow_defs s1)
  moreover have "run_ProposeTimer s = (propose_cb (instance_id s1)
      (Status_Timeout ''proposal time more than a second.'') (context_ptr s1) s1)\<lparr>context_ptr := Null\<rparr>"
    by (simp add: run_ProposeTimer_def s1_def Let_def)
  moreover have "\<not> is_proposing s1" by (simp add: s1_def)
  ultimately show ?thesis
    using propose_cb_slots(2-4) [OF ok(1)] ok(2) by (simp add: proposals_ok_def flow_defs)
qed

lemma OnSendCheckpoint_proposals: "proposals_step E s (OnSendCheckpoint E msg s)"
proof -
  let ?s1 = "snd (CheckpointManager_ReceiveCheckpoint E msg s)"
  have "proposals_step E s ?s1"
    using ReceiveCheckpoint_step [of s E msg] by (intro proposals_stepI) (simp_all add: transfer_step_def)
  from proposals.R_trans [OF proposals.R_trans [OF this proposals.R_remove] proposals.R_AddLearnTimer]
  show ?thesis by (simp add: OnSendCheckpoint_def RemoveLearnTimer_def case_prod_beta)
qed

lemma FinishMakeCheckpoint_proposals:
  fixes s :: "('d, 'w, 'z) node_scheme"
  shows "proposals_step E s (FinishMakeCheckpoint E m i r s)"
  using mach_step_node [OF FinishMakeCheckpoint_step [of s E m i r]]
  by (intro proposals_stepI) simp_all

lemma run_io_task_proposals:
  fixes s :: "('d, 'w, 'z) group_scheme"
  assumes "\<not> is_handler t" "t \<noteq> ProposeTimer"
  shows "proposals_step E s (run_io_task E t s)"
proof (cases t)
  case (ContentTask c)
  then show ?thesis
    by (auto simp: run_io_task_def Instance_OnContent_def OnCheckpointMessage_def
        proposals.R_OnPaxosMessage OnSendCheckpoint_proposals proposals.R_refl split: ContentType.split)
qed (use assms in \<open>simp_all add: run_io_task_def proposals.R_RetryTimer proposals.R_AskForLearn
    FinishMakeCheckpoint_proposals\<close>)

lemma run_handler_proposals:
  fixes s :: "('d, 'w, 'z) group_scheme"
  assumes "is_handler t" "alloc_ok E" "handling s"
  shows "proposals_ok (run_io_task E t s) \<and> same_flow s (run_io_task E t s)"
proof (cases t)
  case (ProposeTask m v c)
  with OnPropose_handling assms show ?thesis by (simp add: run_io_task_def)
next
  case MasterTask
  have h: "handling (s\<lparr>world := w, group_now := n\<rparr>)"
    and f: "callbacks (s\<lparr>world := w, group_now := n\<rparr>) = callbacks s"
      "pending (s\<lparr>world := w, group_now := n\<rparr>) = pending s" for w n
    using assms(3) by (simp_all add: handling_def flow_defs)
  show ?thesis
    using MasterTask OnPropose_handling [OF assms(2) h] propose_cb_handling [OF h]
    by (simp add: run_io_task_def TryBeMasterInLoop_def Let_def case_prod_beta in_world_def same_flow_def f)
qed (use assms in simp_all)

section \<open>Runs of a group\<close>

text \<open>What a run shows to the outside: a proposal taken in, with its closure and its callback, the
  closure of a proposal run by the io loop, and a callback called by the callback loop.\<close>

datatype event = Taken io_task complete_cb | Ran io_task | Called "complete_cb cb_call"

definition run_callback :: "complete_cb cb_call \<Rightarrow> ('d, 'w, 'z) group_scheme \<Rightarrow> ('d, 'w, 'z) group_scheme" where
  "run_callback c s =
     (case c of (UserCallback n, _) \<Rightarrow> s
      | (GroupComplete, i, st, ctx) \<Rightarrow> Group_ProposeComplete st s)"

text \<open>
  One step of one of the threads: a user or the master thread proposes, the io loop runs its
  next closure or its earliest due timer or corrects its deadlines, a content arrives, the
  callback loop makes its next call, the clean loop runs a closure, a machine reports that it
  has made a checkpoint (the callback \<^verbatim>\<open>MachineManager::MakeCheckpoint\<close> hands it, which
  queues a closure on the io loop), or something happens that proposals do not depend on.
\<close>

inductive group_step ::
    "('d, 'w) env \<Rightarrow> event list \<Rightarrow> ('d, 'w, 'z) group_scheme \<Rightarrow> ('d, 'w, 'z) group_scheme \<Rightarrow> bool"
  for E :: "('d, 'w) env" where
  propose: "Group_OnPropose m v c cb s = (b, s') \<Longrightarrow> group_step E (if b then [Taken (ProposeTask m v c) cb] else []) s s'"
| change: "ChangeMember E ms c cb s = (b, s') \<Longrightarrow> group_step E
    (if b then [Taken (ProposeTask kMembershipMachineId (ser_change E (change_message ms)) c) cb] else []) s s'"
| elect: "\<not> master_waiting s \<Longrightarrow> TryBeMaster E l s = s' \<Longrightarrow>
    group_step E (if master_waiting s' then [Taken MasterTask GroupComplete] else []) s s'"
| elected: "master_waiting s \<Longrightarrow> propose_end s \<Longrightarrow> group_step E [] s (TryBeMaster_end E l s)"
| content: "group_step E [] s (Group_OnContent ct s)"
| sync: "group_step E [] s (SyncData b s)"
| closure: "funcs (io_loop s) = Func t # fs \<Longrightarrow>
    group_step E (if is_handler t then [Ran t] else []) s
      (run_io_task E t (s\<lparr>io_loop := (io_loop s)\<lparr>funcs := fs\<rparr>\<rparr>))"
| clock: "group_step E [] s (s\<lparr>io_loop := (io_loop s)\<lparr>timer_list := AdjustTimers now (timer_list (io_loop s))\<rparr>\<rparr>)"
| timer: "PopDue now (timer_list (io_loop s)) = Some (t, L) \<Longrightarrow>
    group_step E [] s (run_io_task E t (s\<lparr>io_loop := (io_loop s)\<lparr>timer_list := L\<rparr>\<rparr>))"
| callback: "funcs (callback_loop s) = Func c # cs \<Longrightarrow>
    group_step E [Called c] s (run_callback c (s\<lparr>callback_loop := (callback_loop s)\<lparr>funcs := cs\<rparr>\<rparr>))"
| clean: "funcs (clean_loop s) = Func t # ts \<Longrightarrow>
    group_step E [] s (run_clean_task E t (s\<lparr>clean_loop := (clean_loop s)\<lparr>funcs := ts\<rparr>\<rparr>))"
| checkpoint: "group_step E [] s
    (s\<lparr>io_loop := RunLoop_QueueInLoop (Func (FinishTask m i r)) (io_loop s)\<rparr>)"
| other: "queue s' = queue s \<Longrightarrow> io_loop s' = io_loop s \<Longrightarrow> is_proposing s' = is_proposing s \<Longrightarrow>
    context_ptr s' = context_ptr s \<Longrightarrow> propose_timer s' = propose_timer s \<Longrightarrow>
    callback_loop s' = callback_loop s \<Longrightarrow> group_step E [] s s'"

inductive group_run ::
    "('d, 'w) env \<Rightarrow> event list \<Rightarrow> ('d, 'w, 'z) group_scheme \<Rightarrow> ('d, 'w, 'z) group_scheme \<Rightarrow> bool"
  for E :: "('d, 'w) env" where
  none: "group_run E [] s s"
| more: "group_run E es s t \<Longrightarrow> group_step E es' t u \<Longrightarrow> group_run E (es @ es') s u"

fun proposals_taken :: "event list \<Rightarrow> (io_task \<times> complete_cb) list" where
  "proposals_taken [] = []"
| "proposals_taken (Taken t cb # es) = (t, cb) # proposals_taken es"
| "proposals_taken (_ # es) = proposals_taken es"

definition taken :: "event list \<Rightarrow> complete_cb list" where
  "taken es = map snd (proposals_taken es)"

lemma taken_simps [simp]:
  "taken [] = []" "taken (Taken t cb # es) = cb # taken es" "taken (Ran t # es) = taken es"
  "taken (Called c # es) = taken es"
  by (simp_all add: taken_def)

fun ran :: "event list \<Rightarrow> io_task list" where
  "ran [] = []"
| "ran (Ran t # es) = t # ran es"
| "ran (_ # es) = ran es"

fun called :: "event list \<Rightarrow> complete_cb list" where
  "called [] = []"
| "called (Called c # es) = fst c # called es"
| "called (_ # es) = called es"

lemma proposals_taken_append [simp]: "proposals_taken (xs @ ys) = proposals_taken xs @ proposals_taken ys"
  by (induction xs rule: proposals_taken.induct) auto

lemma taken_append [simp]: "taken (xs @ ys) = taken xs @ taken ys"
  by (simp add: taken_def)

lemma ran_append [simp]: "ran (xs @ ys) = ran xs @ ran ys"
  by (induction xs rule: ran.induct) auto

lemma called_append [simp]: "called (xs @ ys) = called xs @ called ys"
  by (induction xs rule: called.induct) auto

subsection \<open>Each step\<close>

lemma queue_Put_proposals:
  fixes s :: "('d, 'w, 'z) node_scheme"
  assumes put: "queue_Put f cb s = (b, s')" and f: "is_handler f" and ok: "proposals_ok s"
  shows "proposals_ok s' \<and> callbacks s' = callbacks s @ (if b then [cb] else []) \<and>
    pending s' = pending s @ (if b then [Func f] else [])"
proof -
  obtain io q where p: "ProposeQueue_Put f cb (io_loop s) (queue s) = (b, io, q)"
    and s': "s' = s\<lparr>io_loop := io, queue := q\<rparr>"
    using put by (auto simp: queue_Put_def split: prod.splits)
  have q: "queue_ok q" using queue_ok_Put [OF _ p] ok by (simp add: proposals_ok_def slots_def)
  have "slots q io (if is_proposing s then 1 else 0)" "loop_ok io (is_proposing s) (propose_timer s)"
    "cb_queue q = cb_queue (queue s) @ (if b then [cb] else [])"
    "handlers io @ map Func (propose_queue q) = pending s @ (if b then [Func f] else [])"
    using p q f ok loop_ok_Queue [OF _ handler_not_timer [OF f], of "io_loop s" "is_proposing s" "propose_timer s"]
    by (auto simp: ProposeQueue_Put_def proposals_ok_def slots_def pending_def queue_ok_def split: if_splits)
  with ok show ?thesis by (simp add: s' proposals_ok_def callbacks_def pending_def)
qed

text \<open>A closure taken off the front of the loop.\<close>

lemma closure_proposals:
  fixes s :: "('d, 'w, 'z) group_scheme"
  assumes ok: "proposals_ok s" and alloc: "alloc_ok E" and fs: "funcs (io_loop s) = Func t # fs"
  defines "s1 \<equiv> s\<lparr>io_loop := (io_loop s)\<lparr>funcs := fs\<rparr>\<rparr>"
  shows "proposals_ok (run_io_task E t s1) \<and> callbacks (run_io_task E t s1) = callbacks s \<and>
    pending s = (if is_handler t then [Func t] else []) @ pending (run_io_task E t s1)"
proof -
  have cb: "callbacks s1 = callbacks s" "pending s = (if is_handler t then [Func t] else []) @ pending s1"
    using fs by (simp_all add: callbacks_def pending_def handlers_def s1_def)
  have t: "t \<noteq> ProposeTimer" using ok fs by (auto simp: proposals_ok_def loop_ok_def)
  show ?thesis
  proof (cases "is_handler t")
    case True
    with ok fs have "handling s1"
      by (auto simp: handling_def proposals_ok_def slots_def loop_ok_def queued_handlers_def handlers_def s1_def
          split: if_splits)
    with run_handler_proposals [OF True alloc, of s1] cb show ?thesis by (simp add: same_flow_def)
  next
    case False
    with ok fs have "proposals_ok s1"
      by (auto simp: proposals_ok_def slots_def loop_ok_def queued_handlers_def handlers_def s1_def)
    with run_io_task_proposals [OF False t, of E s1] alloc cb show ?thesis
      by (simp add: proposals_step_def same_flow_def)
  qed
qed

lemma PopDue_heap:
  assumes "PopDue now L = Some (t, L')" and one: "\<And>a tm. map_of (timer_heap L) a = Some tm \<Longrightarrow> ms_interval tm = 0"
  shows "map_of (timer_heap L') a = Some tm \<Longrightarrow> ms_interval tm = 0"
  using assms by (auto simp: PopDue_def delete_conv' split: list.splits if_splits option.splits)

text \<open>A due timer.\<close>

lemma timer_proposals:
  fixes s :: "('d, 'w, 'z) group_scheme"
  assumes ok: "proposals_ok s" and alloc: "alloc_ok E"
    and pop: "PopDue now (timer_list (io_loop s)) = Some (t, L)"
  defines "s1 \<equiv> s\<lparr>io_loop := (io_loop s)\<lparr>timer_list := L\<rparr>\<rparr>"
  shows "proposals_ok (run_io_task E t s1) \<and> same_flow s (run_io_task E t s1)"
proof -
  have cb: "callbacks s1 = callbacks s" "pending s1 = pending s"
    by (simp_all add: callbacks_def pending_def handlers_def s1_def)
  have lo: "loop_ok (io_loop s) (is_proposing s) (propose_timer s)" using ok by (simp add: proposals_ok_def)
  then have tok: "timers_ok (timer_list (io_loop s))"
    and one: "\<And>a tm. map_of (timer_heap (timer_list (io_loop s))) a = Some tm \<Longrightarrow> ms_interval tm = 0"
    by (simp_all add: loop_ok_def)
  obtain p where p: "live_cb (timer_list (io_loop s)) p = Some t" "timers_ok L"
      "live_cb L = (live_cb (timer_list (io_loop s)))(p := None)"
    using PopDue_live [OF tok pop] one by metis
  have t: "\<not> is_handler t" using lo p(1) by (auto simp: loop_ok_def)
  have heap: "map_of (timer_heap L) a = Some tm \<Longrightarrow> ms_interval tm = 0" for a tm
    by (rule PopDue_heap [OF pop one])
  have q: "queued_handlers (io_loop s1) = queued_handlers (io_loop s)"
    by (simp add: queued_handlers_def handlers_def s1_def)
  show ?thesis
  proof (cases "t = ProposeTimer")
    case True
    with p(1) lo have b: "is_proposing s" "p = snd (propose_timer s)" by (auto simp: loop_ok_def)
    then have "loop_ok (io_loop s1) False (propose_timer s)"
      using lo p heap by (auto simp: loop_ok_def s1_def)
    moreover have "slots (queue s1) (io_loop s1) 1"
      using ok b q by (simp add: proposals_ok_def slots_def s1_def)
    ultimately show ?thesis using ProposeTimer_answers [of s1] cb
      by (simp add: True run_io_task_def same_flow_def)
  next
    case False
    have "loop_ok (io_loop s1) (is_proposing s) (propose_timer s)"
      using lo p heap by (auto simp: loop_ok_def s1_def)
    with ok q have "proposals_ok s1" by (simp add: proposals_ok_def slots_def s1_def)
    with run_io_task_proposals [OF t False, of E s1] alloc cb show ?thesis
      by (simp add: proposals_step_def same_flow_def)
  qed
qed

lemma proposals_QueueInLoop:
  assumes "proposals_ok s" "\<not> is_handler t" "t \<noteq> ProposeTimer"
  shows "proposals_ok (s\<lparr>io_loop := RunLoop_QueueInLoop (Func t) (io_loop s)\<rparr>)"
    and "same_flow s (s\<lparr>io_loop := RunLoop_QueueInLoop (Func t) (io_loop s)\<rparr>)"
  using assms loop_ok_Queue [of "io_loop s" "is_proposing s" "propose_timer s" t]
  by (simp_all add: proposals_ok_def slots_def flow_defs)

lemma TryBeMaster_proposals:
  fixes s :: "('d, 'w, 'z) group_scheme"
  assumes ok: "proposals_ok s" and w: "\<not> master_waiting s"
  shows "proposals_ok (TryBeMaster E l s) \<and>
    callbacks (TryBeMaster E l s) = callbacks s @ (if master_waiting (TryBeMaster E l s) then [GroupComplete] else []) \<and>
    pending (TryBeMaster E l s) = pending s @ (if master_waiting (TryBeMaster E l s) then [Func MasterTask] else [])"
proof -
  let ?s1 = "s\<lparr>world := snd (NowMillis E (world s)), propose_end := False\<rparr>"
  obtain b s2 where put: "queue_Put MasterTask GroupComplete ?s1 = (b, s2)" by fastforce
  have s1: "proposals_ok ?s1" "callbacks ?s1 = callbacks s" "pending ?s1 = pending s"
    using ok proposals_ok_cong [of ?s1 s] by (simp_all add: callbacks_def pending_def)
  have s2: "proposals_ok s2" "callbacks s2 = callbacks s @ (if b then [GroupComplete] else [])"
    "pending s2 = pending s @ (if b then [Func MasterTask] else [])"
    "master_waiting s2 = master_waiting s"
    using queue_Put_proposals [OF put _ s1(1)] s1(2,3) put
    by (auto simp: queue_Put_def split: prod.splits)
  have sched: "proposals_ok (schedule_master E l n t) = proposals_ok t"
    "callbacks (schedule_master E l n t) = callbacks t" "pending (schedule_master E l n t) = pending t"
    "master_waiting (schedule_master E l n t) = master_waiting t" for n and t :: "('d, 'w, 'z) group_scheme"
    by (simp_all add: proposals_ok_def callbacks_def pending_def schedule_master_def Let_def case_prod_beta in_world_def)
  show ?thesis
    using s2 ok w put
    by (auto simp: TryBeMaster_def Group_NewPropose_def Let_def in_world_def case_prod_beta sched)
      (simp_all add: proposals_ok_def callbacks_def pending_def)
qed

lemma TryBeMaster_end_proposals:
  fixes s :: "('d, 'w, 'z) group_scheme"
  shows "proposals_step E s (TryBeMaster_end E l s)"
  by (rule proposals_stepI)
    (simp_all add: TryBeMaster_end_def schedule_master_def Let_def case_prod_beta in_world_def)

lemma run_clean_task_proposals:
  fixes s :: "('d, 'w, 'z) node_scheme"
  assumes "proposals_ok s"
  shows "proposals_ok (run_clean_task E t s) \<and> same_flow s (run_clean_task E t s)"
proof (cases "t = GCLoop")
  case True
  have "queue (run_clean_task E t s) = queue s" "io_loop (run_clean_task E t s) = io_loop s"
    "is_proposing (run_clean_task E t s) = is_proposing s" "context_ptr (run_clean_task E t s) = context_ptr s"
    "propose_timer (run_clean_task E t s) = propose_timer s"
    "callback_loop (run_clean_task E t s) = callback_loop s"
    by (simp_all add: run_clean_task_def True LogCleaner_GCLoop_def SetMinChosenInstanceId_def Let_def
        case_prod_beta)
  with assms proposals_ok_cong [of "run_clean_task E t s" s] show ?thesis by (simp add: flow_defs)
next
  case False
  let ?s1 = "snd (run_checkpoint_task E t s)"
  note f = mach_step_node [OF run_checkpoint_task_step [of s E t]]
  have "proposals_ok ?s1" "same_flow s ?s1"
    using assms proposals_ok_cong [of ?s1 s] f by (simp_all add: flow_defs)
  then show ?thesis
    using False proposals_QueueInLoop(1) [of ?s1]
    by (auto simp: run_clean_task_def case_prod_beta flow_defs split: option.split)
qed

text \<open>The account of a run: callbacks taken in are called or waiting, closures taken in have run or
  are pending, both in order.\<close>

definition flow :: "event list \<Rightarrow> ('d, 'w, 'z) node_scheme \<Rightarrow> ('d, 'w, 'z) node_scheme \<Rightarrow> bool" where
  "flow es s s' \<longleftrightarrow>
     callbacks s @ taken es = called es @ callbacks s' \<and>
     pending s @ map (Func \<circ> fst) (proposals_taken es) = map Func (ran es) @ pending s'"

lemma flow_silent [simp]: "flow [] s s' \<longleftrightarrow> same_flow s s'"
  by (auto simp: flow_def same_flow_def taken_def)

lemma flow_append: "flow es s t \<Longrightarrow> flow es' t u \<Longrightarrow> flow (es @ es') s u"
  unfolding flow_def by simp (metis append.assoc)

lemma group_step_proposals:
  fixes s :: "('d, 'w, 'z) group_scheme"
  assumes "group_step E es s s'" and "alloc_ok E" and "proposals_ok s"
  shows "proposals_ok s' \<and> flow es s s'"
  using assms
proof (induction rule: group_step.induct)
  case (propose m v c cb s b s')
  then show ?case using queue_Put_proposals [of _ cb s b s']
    by (auto simp: Group_OnPropose_def flow_def taken_def)
next
  case (change ms c cb s b s')
  then show ?case using queue_Put_proposals [of _ cb s b s']
    by (auto simp: ChangeMember_def Group_OnPropose_def flow_def taken_def)
next
  case (elect s l s')
  then show ?case using TryBeMaster_proposals [of s E l] by (auto simp: flow_def taken_def)
next
  case (elected s l)
  then show ?case using TryBeMaster_end_proposals [of E s l] by (simp add: proposals_step_def)
next
  case (content s ct)
  then show ?case using proposals_QueueInLoop [of s "ContentTask ct"] by (simp add: Group_OnContent_def)
next
  case (sync s b)
  then show ?case using proposals_QueueInLoop [of s "SyncTask b"] by (simp add: SyncData_def)
next
  case (closure s t fs)
  then show ?case using closure_proposals [of s E t fs] by (simp add: flow_def taken_def)
next
  case (clock s now)
  let ?L = "timer_list (io_loop s)"
  have "loop_ok (io_loop s) (is_proposing s) (propose_timer s)" using clock by (simp add: proposals_ok_def)
  then have "loop_ok ((io_loop s)\<lparr>timer_list := AdjustTimers now ?L\<rparr>) (is_proposing s) (propose_timer s)"
    using AdjustTimers_ok [of ?L now] by (auto simp: loop_ok_def) metis
  with clock show ?case
    by (simp add: proposals_ok_def slots_def queued_handlers_def handlers_def flow_defs)
next
  case (timer now s t L)
  then show ?case using timer_proposals [of s E now t L] by simp
next
  case (callback s c cs)
  let ?s1 = "s\<lparr>callback_loop := (callback_loop s)\<lparr>funcs := cs\<rparr>\<rparr>"
  have "proposals_ok (run_callback c ?s1) = proposals_ok s" "same_flow ?s1 (run_callback c ?s1)"
    by (auto simp: run_callback_def Group_ProposeComplete_def proposals_ok_def flow_defs
        split: complete_cb.split prod.split)
  with callback show ?case by (simp add: flow_def flow_defs called_back_def taken_def)
next
  case (clean s t ts)
  let ?s1 = "s\<lparr>clean_loop := (clean_loop s)\<lparr>funcs := ts\<rparr>\<rparr>"
  have "proposals_ok ?s1" "same_flow s ?s1"
    using clean proposals_ok_cong [of ?s1 s] by (simp_all add: flow_defs)
  then show ?case using run_clean_task_proposals [of ?s1 E t] by (simp add: same_flow_def)
next
  case (checkpoint s m i r)
  then show ?case using proposals_QueueInLoop [of s "FinishTask m i r"] by simp
next
  case (other s' s)
  then show ?case using proposals_ok_cong [of s' s] by (simp add: flow_defs)
qed

lemma group_run_proposals:
  fixes s :: "('d, 'w, 'z) group_scheme"
  assumes "group_run E es s s'" and "alloc_ok E" and "proposals_ok s"
  shows "proposals_ok s' \<and> flow es s s'"
  using assms
proof (induction rule: group_run.induct)
  case (none s)
  then show ?case by (simp add: same_flow_def)
next
  case (more es s t es' u)
  then have "proposals_ok t" "flow es s t" by auto
  with group_step_proposals [OF more.hyps(2) more.prems(1)] flow_append show ?case by blast
qed

section \<open>The start\<close>

text \<open>The fields proposals depend on and those of the group, which recovery does not touch.\<close>

definition proposal_state where
  "proposal_state s = (queue s, io_loop s, is_proposing s, context_ptr s, propose_timer s, callback_loop s,
     node.more s)"

lemma proposal_state_eq:
  "proposal_state s' = proposal_state s \<Longrightarrow>
     proposals_ok s' = proposals_ok s \<and> same_flow s s'"
  by (simp add: proposal_state_def proposals_ok_def flow_defs)

lemma mach_step_proposal:
  fixes s :: "('d, 'w, 'z) node_scheme"
  assumes "mach_step s s'"
  shows "proposal_state s' = proposal_state s"
  using mach_step_node [OF assms] by (simp add: proposal_state_def)

lemma ReplayLog_proposal:
  fixes s :: "('d, 'w, 'z) node_scheme"
  shows "proposal_state (snd (ReplayLog E i to s)) = proposal_state s"
proof (induction E i to s rule: ReplayLog.induct)
  case (1 E i to s)
  show ?case
    using 1 mach_step_proposal [OF MachineManager_Execute_step]
    by (subst ReplayLog.simps) (auto split: prod.split)
qed

lemma Instance_Recover_proposal:
  fixes s :: "('d, 'w, 'z) node_scheme"
  shows "proposal_state (snd (Instance_Recover E s)) = proposal_state s"
proof -
  have keep: "proposal_state (t\<lparr>instance_id := i\<rparr>) = proposal_state t"
    "proposal_state (t\<lparr>instance_id := i, acceptor := a, learner := l, proposer := p\<rparr>) = proposal_state t"
    "proposal_state (t\<lparr>min_chosen_id := n, max_chosen_id := m\<rparr>) = proposal_state t"
    for t :: "('d, 'w, 'z) node_scheme" and i a l p n m
    by (simp_all add: proposal_state_def)
  have a: "proposal_state (snd (Acceptor_Recover E i t)) = proposal_state t"
    for t :: "('d, 'w, 'z) node_scheme" and i
    by (auto simp: Acceptor_Recover_def Acceptor_ReadFromDB_def Let_def proposal_state_def split: prod.split)
  have l: "proposal_state (snd (LogManager_Recover E i t)) = proposal_state t"
    for t :: "('d, 'w, 'z) node_scheme" and i
    by (auto simp: LogManager_Recover_def Let_def case_prod_beta ReplayLog_proposal keep)
  show ?thesis
    by (auto simp: Instance_Recover_def Let_def case_prod_beta keep l a)
qed

lemma recover_machines_step:
  assumes "recover_machines E i ms s = Some (b, s')"
  shows "mach_step s s'"
  using assms
proof (induction E i ms s arbitrary: b s' rule: recover_machines.induct)
  case (2 E ii i m ms s)
  have "machine_Recover E i m ii dir s = Some (b, t) \<Longrightarrow> mach_step s t" for dir b t
    by (cases m) (auto simp: machine_Recover_def mach_step_def in_world_def case_prod_beta)
  note one = this
  let ?dir = "GetCheckpointPath_machine E ii i"
  show ?case
  proof (cases "FileExists E ?dir (world s)")
    case True
    with 2(3) obtain ok t where t: "machine_Recover E i m ii ?dir s = Some (ok, t)"
      by (auto simp: Let_def split: option.splits)
    show ?thesis
    proof (cases ok)
      case ok: True
      with 2(3) True t have "recover_machines E ii ms t = Some (b, s')" by (simp add: Let_def)
      with 2(2) True t ok have "mach_step t s'" by simp
      with one [OF t] show ?thesis by (rule mach_step_trans)
    next
      case False
      with 2(3) True t have "s' = t" by (simp add: Let_def)
      with one [OF t] show ?thesis by simp
    qed
  next
    case False
    with 2 show ?thesis by (simp add: Let_def)
  qed
qed simp

lemma Config_Recover_proposal:
  fixes s :: "('d, 'w, 'z) node_scheme"
  assumes "Config_Recover E s = Some (b, s')"
  shows "proposal_state s' = proposal_state s"
proof -
  have w: "proposal_state (t\<lparr>world := w\<rparr>) = proposal_state t"
    "proposal_state (t\<lparr>db := d\<rparr>) = proposal_state t"
    for t :: "('d, 'w, 'z) node_scheme" and d w
    by (simp_all add: proposal_state_def)
  have m: "proposal_state t' = proposal_state t" if "MachineManager_Recover E t = Some (b, t')"
    for t t' :: "('d, 'w, 'z) node_scheme"
  proof -
    define u where "u = (CleanCheckpoint E t)\<lparr>latest_checkpoint_instance_id :=
      (if checkpoints (CleanCheckpoint E t) = [] then 0 else last (checkpoints (CleanCheckpoint E t)))\<rparr>"
    have u: "mach_step t u"
      using CleanCheckpoint_step [of t E] by (simp add: u_def mach_step_def)
    from that have "t' = u \<or> recover_machines E (latest_checkpoint_instance_id u) (machines u) u = Some (b, t')"
      by (auto simp: MachineManager_Recover_def Let_def u_def split: if_splits)
    then have "mach_step t t'" using mach_step_trans [OF u recover_machines_step] u by blast
    then show ?thesis by (rule mach_step_proposal)
  qed
  show ?thesis
    using assms
    by (auto simp: Config_Recover_def Let_def in_world_def case_prod_beta DB_Open_def w dest!: m split: if_splits)
qed

lemma Group_Recover_proposal:
  fixes s :: "('d, 'w, 'z) group_scheme"
  assumes "Group_Recover E s = Some (b, s')"
  shows "proposal_state s' = proposal_state s"
proof -
  from assms obtain ok s1 where c: "Config_Recover E s = Some (ok, s1)"
    by (auto simp: Group_Recover_def split: option.splits)
  with assms have "s' = s1 \<or> s' = snd (Instance_Recover E s1)"
    by (auto simp: Group_Recover_def split: if_splits)
  with Config_Recover_proposal [OF c] Instance_Recover_proposal [of E s1] show ?thesis by auto
qed

lemma Group_new_idle:
  "proposals_ok (Group_new E opts seed1 seed2 born u r d w)" "callbacks (Group_new E opts seed1 seed2 born u r d w) = []"
  "pending (Group_new E opts seed1 seed2 born u r d w) = []"
  by (simp_all add: Group_new_def Instance_new_def node.defs logs.defs proposals_ok_def slots_def
      loop_ok_def callbacks_def called_back_def ProposeQueue_new_def RunLoop_new_def queue_ok_def
      queued_handlers_def handlers_def pending_def live_cb_def TimerList_new_def timers_ok_def)

text \<open>A group as \<^verbatim>\<open>NodeImpl::StartWorking\<close> brings it up.\<close>

definition started :: "('d, 'w) env \<Rightarrow> ('d, 'w) group \<Rightarrow> bool" where
  "started E s \<longleftrightarrow>
     (\<exists>opts seed1 seed2 born u r d w s0.
        Group_Recover (quiet E) (Group_new (quiet E) opts seed1 seed2 born u r d w) = Some (True, s0) \<and>
        s = Group_Start s0)"

lemma started_idle:
  assumes "started E s"
  shows "proposals_ok s \<and> callbacks s = [] \<and> pending s = []"
proof -
  from assms obtain opts seed1 seed2 born u r d w s0 where
    r: "Group_Recover (quiet E) (Group_new (quiet E) opts seed1 seed2 born u r d w) = Some (True, s0)"
      and s: "s = Group_Start s0"
    by (auto simp: started_def)
  have "proposal_state s = proposal_state s0" by (simp add: s Group_Start_def proposal_state_def)
  with Group_Recover_proposal [OF r]
  have "proposal_state s = proposal_state (Group_new (quiet E) opts seed1 seed2 born u r d w)" by simp
  with proposal_state_eq Group_new_idle [of "quiet E" opts seed1 seed2 born u r d w] show ?thesis
    by (metis same_flow_def)
qed

section \<open>What users see\<close>

text \<open>
  C10. Every proposal a started group has taken in is answered once, and in order: at any
  point of any run, the callbacks of the proposals taken so far are, in the order they were
  taken, the callbacks that have been called, then those queued to be called, then those of
  the proposals still waiting; and nothing is waiting when the queue is idle.
\<close>

theorem proposals_answered_in_order:
  assumes "started E s" and "alloc_ok E" and "group_run E es s s'"
  shows "taken es = called es @ called_back (callback_loop s') @ cb_queue (queue s') \<and>
    (last_finished (queue s') \<longleftrightarrow> cb_queue (queue s') = [])"
proof -
  note i = started_idle [OF assms(1)]
  note r = group_run_proposals [OF assms(3,2) conjunct1 [OF i]]
  from r have "queue_ok (queue s')" by (simp add: proposals_ok_def slots_def)
  then have "last_finished (queue s') \<longleftrightarrow> cb_queue (queue s') = []"
    by (auto simp: queue_ok_def split: if_splits)
  with r i show ?thesis by (simp add: flow_def callbacks_def)
qed

text \<open>The proposal under way, the first that is not answered: its closure waits on the io loop and all
  before it have run, or it was the last to run; its callback is the first of the queue.\<close>

lemma under_way:
  assumes "started E s" and "alloc_ok E" and "group_run E es s s'" and busy: "\<not> last_finished (queue s')"
  defines "n \<equiv> length (called es @ called_back (callback_loop s'))"
  shows "n < length (proposals_taken es)" "snd (proposals_taken es ! n) = hd (cb_queue (queue s'))"
    "is_proposing s' \<Longrightarrow> ran es \<noteq> [] \<and> fst (proposals_taken es ! n) = last (ran es)"
    "\<not> is_proposing s' \<Longrightarrow> handlers (io_loop s') = [Func (fst (proposals_taken es ! n))]"
proof -
  let ?q = "queue s'" and ?t = "proposals_taken es" and ?h = "handlers (io_loop s')"
  note i = started_idle [OF assms(1)]
  have ok: "proposals_ok s'" and fl: "flow es s s'"
    using group_run_proposals [OF assms(3,2) conjunct1 [OF i]] by auto
  have cb: "map snd ?t = (called es @ called_back (callback_loop s')) @ cb_queue ?q"
    and ts: "map (Func \<circ> fst) ?t = map Func (ran es) @ ?h @ map Func (propose_queue ?q)"
    using fl i by (simp_all add: flow_def callbacks_def pending_def taken_def)
  have len: "length (cb_queue ?q) = Suc (length (propose_queue ?q))"
    and one: "length ?h + (if is_proposing s' then 1 else 0) = 1"
    using ok busy by (auto simp: proposals_ok_def slots_def queue_ok_def queued_handlers_def)
  have "length ?t = n + length (cb_queue ?q)" using arg_cong [OF cb, of length] by (simp add: n_def)
  moreover have "length ?t = length (ran es) + length ?h + length (propose_queue ?q)"
    using arg_cong [OF ts, of length] by simp
  ultimately have n: "length (ran es) + length ?h = Suc n" "n < length ?t" using len by auto
  then show "n < length ?t" by simp
  have "map snd ?t ! n = cb_queue ?q ! 0" using len unfolding cb n_def by (simp add: nth_append)
  with n(2) len show "snd (?t ! n) = hd (cb_queue ?q)" by (cases "cb_queue ?q") simp_all
  have k: "Func (fst (?t ! n)) = (map Func (ran es) @ ?h @ map Func (propose_queue ?q)) ! n"
    using n(2) ts by (metis comp_apply nth_map)
  show "ran es \<noteq> [] \<and> fst (?t ! n) = last (ran es)" if "is_proposing s'"
  proof -
    from that one n(1) have "length (ran es) = Suc n" by simp
    with k show ?thesis by (cases "ran es" rule: rev_cases) (auto simp: nth_append)
  qed
  show "?h = [Func (fst (?t ! n))]" if "\<not> is_proposing s'"
  proof -
    from that one have "length ?h = 1" by simp
    then obtain f where "?h = [f]" by (cases ?h) auto
    with k n(1) show ?thesis by (simp add: nth_append)
  qed
qed

text \<open>
  C11. The assertions on the way of a proposal hold in every run of a started group. When the io
  loop comes to the closure of a proposal, a user's or the master's, the instance has no proposal
  under way and no context, the queue is not idle, and the first callback of the queue is the one
  that was taken in with this closure. While the instance has a proposal under way, the queue is
  not idle and its first callback, which \<^verbatim>\<open>ProposeComplete\<close> will take, is the one that was
  taken in with the last closure that ran. In both cases this is the first proposal not answered.
\<close>

theorem proposal_assertions_hold:
  assumes "started E s" and "alloc_ok E" and "group_run E es s s'"
  shows "let n = length (called es @ called_back (callback_loop s')); q = queue s' in
    (\<forall>t fs. funcs (io_loop s') = Func t # fs \<and> is_handler t \<longrightarrow>
      \<not> is_proposing s' \<and> context_ptr s' = Null \<and> \<not> last_finished q \<and> cb_queue q \<noteq> [] \<and>
      n < length (proposals_taken es) \<and> proposals_taken es ! n = (t, hd (cb_queue q))) \<and>
    (is_proposing s' \<longrightarrow> \<not> last_finished q \<and> cb_queue q \<noteq> [] \<and> ran es \<noteq> [] \<and>
      n < length (proposals_taken es) \<and> proposals_taken es ! n = (last (ran es), hd (cb_queue q)))"
proof -
  note i = started_idle [OF assms(1)]
  have ok: "proposals_ok s'" using group_run_proposals [OF assms(3,2) conjunct1 [OF i]] by simp
  then have q: "queue_ok (queue s')" by (simp add: proposals_ok_def slots_def)
  then have ne: "\<not> last_finished (queue s') \<Longrightarrow> cb_queue (queue s') \<noteq> []"
    by (auto simp: queue_ok_def)
  from ok have n: "length (handlers (io_loop s')) + (if is_proposing s' then 1 else 0) =
      (if last_finished (queue s') then 0 else 1)" and c: "context_ptr s' \<noteq> Null \<longrightarrow> is_proposing s'"
    by (auto simp: proposals_ok_def slots_def queued_handlers_def)
  have h: "hd (handlers (io_loop s')) = Func t" "handlers (io_loop s') \<noteq> []"
    if "funcs (io_loop s') = Func t # fs \<and> is_handler t" for t fs
    using that by (simp_all add: handlers_def)
  show ?thesis
    unfolding Let_def
    using n c ne h under_way [OF assms] by (auto simp: prod_eq_iff split: if_splits)
qed

end
