(* ===== verification/Startup.thy ===== *)
theory Startup
  imports Nodes Proposals
begin

text \<open>
  The start of a node and the runs of its groups together: the node starts each group the way
  a run of the group begins, so what holds of every run holds for the groups of a node.
\<close>

section \<open>From the start of the node to a run of a group\<close>

lemma with_config_alloc: "alloc_ok (with_config c E) \<longleftrightarrow> alloc_ok E"
  by (cases E) (simp add: alloc_ok_def with_config_def config.defs)

lemma group_run_trans: "group_run E fs t u \<Longrightarrow> group_run E es s t \<Longrightarrow> group_run E (es @ fs) s u"
proof (induction rule: group_run.induct)
  case (more es' t t' es'' u)
  from group_run.more [OF more.IH [OF more.prems] more.hyps(2)] show ?case by simp
qed simp

lemma StartGC_other:
  fixes g :: "('d, 'w) group"
  shows "group_step E [] g ((Group_StartGC E (g\<lparr>world := w1\<rparr>))\<lparr>world := w2\<rparr>)"
  by (rule group_step.other)
    (simp_all add: Group_StartGC_def StartGC_def Let_def case_prod_beta)

lemma StartGC_not_waiting:
  fixes g :: "('d, 'w) group"
  shows "master_waiting ((Group_StartGC E g)\<lparr>world := w\<rparr>) = master_waiting g"
  by (simp add: Group_StartGC_def StartGC_def Let_def case_prod_beta)

lemma recovered_not_waiting:
  assumes "Group_Recover E (Group_new E opts seed1 seed2 born u r d w) = Some (True, g)"
  shows "\<not> master_waiting g"
proof -
  have "node.more g = node.more (Group_new E opts seed1 seed2 born u r d w)"
    using Group_Recover_proposal [OF assms] by (simp add: proposal_state_def)
  then have "master_waiting g = master_waiting (Group_new E opts seed1 seed2 born u r d w)"
    by (cases g; cases "Group_new E opts seed1 seed2 born u r d w") simp
  then show ?thesis by (simp add: Group_new_def group.defs node.defs)
qed

text \<open>Whether the node has asked for the mastership of the group by the end of its start.\<close>

definition election :: "('d, 'w, 'z) group_scheme \<Rightarrow> event list" where
  "election s = (if master_waiting s then [Taken MasterTask GroupComplete] else [])"

lemma Sync_run:
  fixes g :: "('d, 'w) group"
  assumes "\<not> master_waiting g"
  shows "group_run E (election (Group_Sync E g)) g (Group_Sync E g)"
proof -
  let ?s = "SyncData True g"
  have sync: "group_run E [] g ?s"
    using group_run.more [OF group_run.none group_step.sync [of E g True]] by simp
  have w: "\<not> master_waiting ?s" using assms by (simp add: SyncData_def)
  show ?thesis
  proof (cases "cfg_use_master E")
    case True
    from group_run.more [OF sync group_step.elect [OF w refl]] True show ?thesis
      by (simp add: Group_Sync_def election_def)
  next
    case False
    with sync w show ?thesis by (simp add: Group_Sync_def election_def)
  qed
qed

lemma started_group_run:
  fixes w1 w2
  assumes "recovered E my i gopts c g"
  defines "E' \<equiv> with_config c E"
  defines "s \<equiv> Group_Sync E' ((Group_StartGC E' (Group_Start (g\<lparr>world := w1\<rparr>)))\<lparr>world := w2\<rparr>)"
  shows "\<exists>s0. started E' s0 \<and> group_run E' (election s) s0 s"
proof -
  from assms(1) obtain seed1 seed2 born u r d w where
    rec: "Group_Recover (quiet E') (Group_new (quiet E') gopts seed1 seed2 born u r d w) = Some (True, g)"
    by (auto simp: recovered_def E'_def)
  let ?t = "(Group_StartGC E' (Group_Start (g\<lparr>world := w1\<rparr>)))\<lparr>world := w2\<rparr>"
  have start: "Group_Start (g\<lparr>world := w1\<rparr>) = (Group_Start g)\<lparr>world := w1\<rparr>" by (simp add: Group_Start_def)
  have "started E' (Group_Start g)" using rec unfolding started_def by blast
  moreover have "group_run E' [] (Group_Start g) ?t"
    using group_run.more [OF group_run.none StartGC_other [of E' "Group_Start g" w2 w1]] by (simp add: start)
  moreover have "\<not> master_waiting ?t"
    using recovered_not_waiting [OF rec] by (simp add: StartGC_not_waiting Group_Start_def)
  ultimately show ?thesis
    using group_run_trans [OF Sync_run [of ?t E']] unfolding s_def by fastforce
qed

text \<open>
  C12. The guarantee to users from the start of the node on: in every group of a started node,
  whatever happens afterwards, the callbacks of the proposals taken are called once each and in
  the order the proposals were taken; the only proposal taken before that may be the node's own
  attempt to become master.
\<close>

theorem started_node_answers:
  assumes "StartWorking E shuffle init d (NodeImpl_new options w) = Some (True, n)"
    and "\<And>seed xs. mset (shuffle seed xs) = mset xs"
    and "alloc_ok E" and "i < group_size n"
    and "group_run (with_config (group_configs n ! i) E) es (groups n ! i) s'"
  shows "taken (election (groups n ! i)) @ taken es =
    called es @ called_back (callback_loop s') @ cb_queue (queue s')"
proof -
  let ?E = "with_config (group_configs n ! i) E"
  note parts = StartWorking_parts [OF assms(1,2)]
  have "i < length (opt_groups options)" using assms(4) parts(1) by (simp add: group_size_def)
  from parts(4) [OF this] obtain g w1 w2 where
    "recovered E (id_of (opt_my options)) (word_of_nat i) (opt_groups options ! i) (group_configs n ! i) g"
    and s: "groups n ! i = Group_Sync ?E ((Group_StartGC ?E (Group_Start (g\<lparr>world := w1\<rparr>)))\<lparr>world := w2\<rparr>)"
    unfolding Let_def by blast
  then have "\<exists>s0. started ?E s0 \<and> group_run ?E (election (groups n ! i)) s0 (groups n ! i)"
    unfolding s by (intro started_group_run)
  then obtain s0 where s0: "started ?E s0" "group_run ?E (election (groups n ! i)) s0 (groups n ! i)"
    by blast
  note i = started_idle [OF s0(1)]
  have alloc: "alloc_ok ?E" using assms(3) by (simp add: with_config_alloc)
  note run = group_run_proposals [OF group_run_trans [OF assms(5) s0(2)] alloc conjunct1 [OF i]]
  have "taken (election (groups n ! i) @ es) = called (election (groups n ! i) @ es) @ callbacks s'"
    using run i by (simp add: flow_def)
  then show ?thesis by (simp add: callbacks_def election_def split: if_splits)
qed

end
