(* ===== verification/Execution.thy ===== *)
theory Execution
  imports Agreement
begin

text \<open>
  What the members of a group have executed. A machine of the user is a part of the world that
  only its own \<^verbatim>\<open>Execute\<close> changes; the locale \<open>replicated_machine\<close> is that contract. Under
  it, the state of the machine of a node is at any time the replay of the log of the node, up
  to its current instance: every value was executed once and in order. With the agreement of
  the logs, machines of members at the same instance are in the same state.
\<close>

section \<open>The log as a sequence of values\<close>

definition logged :: "('d, 'w) env \<Rightarrow> (bytes \<rightharpoonup> bytes) \<Rightarrow> u64 \<Rightarrow> PaxosValue" where
  "logged E m i = pi_accepted_value (snd (parse_instance E (the (log_of E m i))))"

definition log_values :: "('d, 'w) env \<Rightarrow> (bytes \<rightharpoonup> bytes) \<Rightarrow> u64 \<Rightarrow> u64 \<Rightarrow> PaxosValue list" where
  "log_values E m first i = map (\<lambda>k. logged E m (first + word_of_nat k)) [0 ..< unat (i - first)]"

lemma recorded_logged: "recorded E m i v \<Longrightarrow> logged E m i = v"
  by (auto simp: recorded_def logged_def)

lemma log_index_less:
  assumes "k < unat (i - first)" "(first :: u64) \<le> i"
  shows "first \<le> first + word_of_nat k" "first + word_of_nat k < i"
proof -
  have u: "unat (i - first) = unat i - unat first" using assms(2) by (simp add: unat_sub)
  moreover have "unat i < 2 ^ 64" by (rule order_less_le_trans [OF unsigned_less]) simp
  ultimately have k: "unat first + k < unat i" "unat first + k < 2 ^ 64" using assms(1) by auto
  then have "unat (first + word_of_nat k) = unat first + k"
    by (simp add: unat_word_ariths unat_of_nat)
  then show "first \<le> first + word_of_nat k" "first + word_of_nat k < i"
    using k(1) by (simp_all add: word_le_nat_alt word_less_nat_alt)
qed

lemma log_values_cong:
  assumes "first \<le> i" and "\<And>j. first \<le> j \<Longrightarrow> j < i \<Longrightarrow> logged E m j = logged E' m' j"
  shows "log_values E m first i = log_values E' m' first i"
  using assms(2) log_index_less [OF _ assms(1)] by (simp add: log_values_def)

lemma log_values_next:
  assumes "first \<le> i" and "i \<noteq> - 1"
  shows "log_values E m first (i + 1) = log_values E m first i @ [logged E m i]"
proof -
  have "unat (i + 1) = unat i + 1" by (rule unat_inc_u64 [OF less_plus_one_u64 [OF assms(2)]])
  moreover have "first \<le> i + 1" using assms less_plus_one_u64 [OF assms(2)] by simp
  ultimately have "unat (i + 1 - first) = Suc (unat (i - first))"
    using assms(1) by (simp add: unat_sub word_le_nat_alt)
  then show ?thesis by (simp add: log_values_def)
qed

lemma log_values_append:
  assumes "first \<le> i" "i \<le> j"
  shows "log_values E m first j = log_values E m first i @ log_values E m i j"
proof -
  have u: "unat (i - first) + unat (j - i) = unat (j - first)"
    using assms by (simp add: unat_sub word_le_nat_alt)
  have "first + word_of_nat (unat (i - first) + k) = i + word_of_nat k" for k by simp
  then have "map (\<lambda>k. logged E m (first + word_of_nat k)) [unat (i - first) ..< unat (i - first) + unat (j - i)] =
      map (\<lambda>k. logged E m (i + word_of_nat k)) [0 ..< unat (j - i)]"
    by (intro nth_equalityI) simp_all
  moreover have "[0 ..< unat (j - first)] = [0 ..< unat (i - first)] @ [unat (i - first) ..< unat (i - first) + unat (j - i)]"
    using upt_add_eq_append [of 0 "unat (i - first)" "unat (j - i)"] u by simp
  ultimately show ?thesis by (simp add: log_values_def)
qed

text \<open>A value of the log, executed on the machine \<open>mid\<close>.\<close>

definition run_value :: "u32 \<Rightarrow> (bytes \<Rightarrow> 'v \<Rightarrow> 'v) \<Rightarrow> PaxosValue \<Rightarrow> 'v \<Rightarrow> 'v" where
  "run_value mid effect v x = (if pv_machine_id v = mid then effect (pv_user_data v) x else x)"

text \<open>The runs of a group in which other threads leave the machines and the view alone.\<close>

inductive replica_step ::
    "('w \<Rightarrow> 'v) \<Rightarrow> u64 set \<Rightarrow> (u64 \<Rightarrow> ('d, 'w) env) \<Rightarrow> (u64 \<Rightarrow> ('d, 'w, 'z) node_scheme) \<Rightarrow> (u64 \<Rightarrow> ('d, 'w, 'z) node_scheme) \<Rightarrow> bool"
  for view :: "'w \<Rightarrow> 'v" and M :: "u64 set" and En :: "u64 \<Rightarrow> ('d, 'w) env" where
  act: "member_step M En \<sigma> n s \<Longrightarrow> replica_step view M En \<sigma> (\<sigma>(n := s))"
| other: "n \<in> M \<Longrightarrow> same_paxos (\<sigma> n) s \<Longrightarrow> machines s = machines (\<sigma> n) \<Longrightarrow> view (world s) = view (world (\<sigma> n)) \<Longrightarrow>
    replica_step view M En \<sigma> (\<sigma>(n := s))"

lemma replica_step_cluster: "replica_step view M En \<sigma> \<sigma>' \<Longrightarrow> cluster_step M En \<sigma> \<sigma>'"
  by (erule replica_step.cases) (auto intro: cluster_step.intros)

text \<open>Every member starts on an empty log with its machine in the state \<open>x\<close>.\<close>

definition replica_starts ::
    "('w \<Rightarrow> 'v) \<Rightarrow> u32 \<Rightarrow> u64 \<Rightarrow> 'v \<Rightarrow> ('d, 'w) env \<Rightarrow> ('d \<Rightarrow> bytes \<rightharpoonup> bytes) \<Rightarrow> ('d, 'w, 'z) node_scheme \<Rightarrow> bool" where
  "replica_starts view mid first x E c s \<longleftrightarrow>
     starts first E c s \<and> map_of (machines s) mid = Some User_machine \<and> view (world s) = x"

section \<open>Machines that are replicated\<close>

text \<open>
  What a machine with the id \<open>mid\<close> promises: \<open>view\<close> is its state, as a part of the world. No
  other code changes it, \<^verbatim>\<open>Execute\<close> changes it as \<open>effect\<close> says, whatever instance and context
  it is given, and leaves it as it was when it fails. \<open>good\<close> is what is assumed of the environment.
\<close>

locale replicated_machine =
  fixes good :: "('d, 'w) env \<Rightarrow> bool" and view :: "'w \<Rightarrow> 'v" and mid :: u32 and effect :: "bytes \<Rightarrow> 'v \<Rightarrow> 'v"
  assumes executed: "good E \<Longrightarrow> fst (sm_execute E mid g i v ctx w) \<Longrightarrow> view (snd (sm_execute E mid g i v ctx w)) = effect v (view w)"
    and failed: "good E \<Longrightarrow> \<not> fst (sm_execute E mid g i v ctx w) \<Longrightarrow> view (snd (sm_execute E mid g i v ctx w)) = view w"
    and other_machine: "good E \<Longrightarrow> j \<noteq> mid \<Longrightarrow> view (snd (sm_execute E j g i v ctx w)) = view w"
    and checkpoint_view: "good E \<Longrightarrow> view (snd (sm_make_checkpoint E j g i dir w)) = view w"
    and time_view: "good E \<Longrightarrow> view (snd (gettimeofday E w)) = view w"
    and alloc_view: "good E \<Longrightarrow> view (snd (new_timer E live w)) = view w"
    and random_view: "good E \<Longrightarrow> view (snd (uniform_int E lo hi w)) = view w"
    and mkdir_view: "good E \<Longrightarrow> view (snd (sys_mkdir E f w)) = view w"
    and rmdir_view: "good E \<Longrightarrow> view (snd (sys_rmdir E f w)) = view w"
    and unlink_view: "good E \<Longrightarrow> view (snd (sys_unlink E f w)) = view w"
    and membership_cb_view: "good E \<Longrightarrow> membership_cb E = Some cb \<Longrightarrow> view (cb g w) = view w"
    and master_cb_view: "good E \<Longrightarrow> master_cb E = Some cb \<Longrightarrow> view (cb g w) = view w"
begin

text \<open>Executing a value changes the view as it should, or not at all.\<close>

lemma NowMillis_view: "good E \<Longrightarrow> view (snd (NowMillis E w)) = view w"
  using time_view [of E w] by (simp add: NowMillis_def case_prod_beta)

lemma RunAfter_view: "good E \<Longrightarrow> view (world (snd (io_RunAfter E d cb s))) = view (world s)"
  by (simp add: io_RunAfter_def case_prod_beta Let_def alloc_view NowMillis_view)

lemma file_views:
  assumes "good E"
  shows "view (snd (CreateDir E f w)) = view w" "view (snd (DeleteDir E f w)) = view w" "view (snd (DeleteFile E f w)) = view w"
  using assms
  by (simp_all add: CreateDir_def DeleteDir_def DeleteFile_def case_prod_beta mkdir_view rmdir_view unlink_view)

lemma delete_files_view: "good E \<Longrightarrow> view (snd (delete_files E d fs r w)) = view w"
  by (induction fs arbitrary: w) (simp_all add: case_prod_beta file_views)

lemma delete_dirs_view: "good E \<Longrightarrow> view (snd (delete_dirs E p ds r w)) = view w"
  by (induction ds arbitrary: r w) (simp_all add: case_prod_beta Let_def file_views delete_files_view)

lemma DeleteTempCheckpoint_view: "good E \<Longrightarrow> view (snd (DeleteTempCheckpoint E w)) = view w"
  by (simp add: DeleteTempCheckpoint_def case_prod_beta Let_def file_views delete_dirs_view)

lemma in_world_view: "(\<And>w. view (snd (f w)) = view w) \<Longrightarrow> view (world (snd (in_world f s))) = view (world s)"
  by (simp add: in_world_def case_prod_beta)

lemma machine_MakeCheckpoint_view:
  "good E \<Longrightarrow> view (world (snd (machine_MakeCheckpoint E j m i dir s))) = view (world s)"
  by (simp add: machine_MakeCheckpoint_def in_world_view checkpoint_view split: machine.split)

lemma make_checkpoints_view: "good E \<Longrightarrow> view (world (snd (make_checkpoints E i ms s))) = view (world s)"
proof (induction ms arbitrary: s)
  case (Cons jm ms)
  then show ?case
    by (cases jm) (simp add: case_prod_beta Let_def in_world_view file_views machine_MakeCheckpoint_view)
qed simp

lemma MakeCheckpoint_view: "good E \<Longrightarrow> view (world (snd (MakeCheckpoint E i s))) = view (world s)"
  by (simp add: MakeCheckpoint_def case_prod_beta Let_def in_world_view random_view DeleteTempCheckpoint_view
      make_checkpoints_view abort_def)

lemma machine_Execute_view:
  assumes "good E" and "j = mid \<longrightarrow> m = User_machine"
  shows "view (world (snd (machine_Execute E j m i v ctx s))) =
    (if j = mid \<and> fst (machine_Execute E j m i v ctx s) then effect v (view (world s)) else view (world s))"
proof (cases m)
  case Membership_machine
  then show ?thesis
    using assms membership_cb_view [OF assms(1)]
    by (auto simp: machine_Execute_def MembershipMachine_Execute_def run_cb_def abort_def
        split: option.splits prod.splits bool.splits)
next
  case Master_machine
  then show ?thesis
    using assms master_cb_view [OF assms(1)] NowMillis_view [OF assms(1)]
    by (auto simp: machine_Execute_def MasterMachine_Execute_def run_cb_def Let_def case_prod_beta
        split: option.splits bool.splits ctx_ptr.splits)
next
  case User_machine
  then show ?thesis
    using assms(1)
    by (cases "j = mid") (simp_all add: machine_Execute_def in_world_def case_prod_beta executed failed other_machine)
qed

lemma MachineExecute_view:
  assumes "good E" and "map_of (machines s) mid = Some User_machine"
  shows "view (world (snd (MachineExecute E v my s))) =
    (if fst (MachineExecute E v my s) then run_value mid effect v (view (world s)) else view (world s))"
  using assms
  by (auto simp: MachineExecute_def MachineManager_Execute_def Let_def case_prod_beta MakeCheckpoint_view run_value_def
      machine_Execute_view split: option.split)

text \<open>
  The invariant of a node: the view is what its log holds below the current instance, executed
  on the initial state \<open>x\<close>; and a value that was learned, or else accepted, is in the log.
\<close>

definition exec_inv ::
    "('d, 'w) env \<Rightarrow> ('d \<Rightarrow> bytes \<rightharpoonup> bytes) \<Rightarrow> u64 \<Rightarrow> 'v \<Rightarrow> ('d, 'w, 'z) node_scheme \<Rightarrow> bool" where
  "exec_inv E c first x s \<longleftrightarrow>
     node_ok s \<and> first \<le> instance_id s \<and> 0 < proposal_id (proposer s) \<and>
     map_of (machines s) mid = Some User_machine \<and>
     view (world s) = fold (run_value mid effect) (log_values E (c (db s)) first (instance_id s)) x \<and>
     (if has_learned (learner s)
      then instance_id s \<noteq> - 1 \<and> recorded E (c (db s)) (instance_id s) (learned_value (learner s))
      else accepted_ballot (acceptor s) \<noteq> Ballot_default \<longrightarrow>
        recorded E (c (db s)) (instance_id s) (accepted_value (acceptor s)))"

text \<open>Before a handler, nothing is waiting to be executed.\<close>

definition idle :: "('d, 'w, 'z) node_scheme \<Rightarrow> bool" where
  "idle s \<longleftrightarrow> \<not> has_learned (learner s) \<and> instance_id s \<noteq> - 1"

text \<open>Changes the invariant does not see.\<close>

definition unseen :: "('d, 'w, 'z) node_scheme \<Rightarrow> ('d, 'w, 'z) node_scheme \<Rightarrow> bool" where
  "unseen s s' \<longleftrightarrow>
     acceptor s' = acceptor s \<and> instance_id s' = instance_id s \<and> db s' = db s \<and> machines s' = machines s \<and>
     view (world s') = view (world s) \<and> lrn_instance_id (learner s') = lrn_instance_id (learner s) \<and>
     has_learned (learner s') = has_learned (learner s) \<and> learned_value (learner s') = learned_value (learner s) \<and>
     pro_instance_id (proposer s') = pro_instance_id (proposer s) \<and>
     (0 < proposal_id (proposer s) \<longrightarrow> 0 < proposal_id (proposer s'))"

lemma exec_inv_unseen: "exec_inv E c first x s \<Longrightarrow> unseen s s' \<Longrightarrow> exec_inv E c first x s'"
  by (simp add: exec_inv_def unseen_def node_ok_def)

lemma idle_unseen: "idle s \<Longrightarrow> unseen s s' \<Longrightarrow> idle s'"
  by (simp add: idle_def unseen_def)

lemma unseen_refl [simp]: "unseen s s"
  by (simp add: unseen_def)

lemma unseen_trans: "unseen s t \<Longrightarrow> unseen t u \<Longrightarrow> unseen s u"
  by (simp add: unseen_def)

lemma unseen_send [simp]:
  "unseen s (Messager_SendMessage E n k s)" "unseen s (BroadcastMessage k s)" "unseen s (send_to_cluster ms k s)"
  "unseen s (BroadcastMessageForLearn E k s)" "unseen s (Learner_BroadcastMessageToFollower E b s)" "unseen s (io_Remove t s)"
  "unseen s (RemoveRetryTimer s)" "unseen s (s\<lparr>learn_loop := ll\<rparr>)" "unseen s (abort s)" "unseen s (propose_cb i st k' s)"
  by (simp_all add: unseen_def RemoveRetryTimer_def Learner_BroadcastMessageToFollower_def)

lemma unseen_timer: "good E \<Longrightarrow> unseen s (snd (io_RunAfter E d cb s))"
  by (simp add: unseen_def RunAfter_view)

lemma unseen_proposer:
  "pro_instance_id p = pro_instance_id (proposer s) \<Longrightarrow> (0 < proposal_id (proposer s) \<longrightarrow> 0 < proposal_id p) \<Longrightarrow>
    unseen s (s\<lparr>proposer := p\<rparr>)"
  by (simp add: unseen_def)

lemma unseen_learner:
  "lrn_instance_id l = lrn_instance_id (learner s) \<Longrightarrow> has_learned l = has_learned (learner s) \<Longrightarrow>
    learned_value l = learned_value (learner s) \<Longrightarrow> unseen s (s\<lparr>learner := l\<rparr>)"
  by (simp add: unseen_def)

lemma unseen_retry: "good E \<Longrightarrow> unseen s (AddRetryTimer E d s)" "good E \<Longrightarrow> unseen s (AddShortRetryTimer E s)"
  "good E \<Longrightarrow> unseen s (AddLearnTimer E d s)"
  by (simp_all add: unseen_def AddRetryTimer_def AddShortRetryTimer_def AddLearnTimer_def RunAfter_view case_prod_beta Let_def)

subsection \<open>What writes the log\<close>

lemma log_values_put:
  assumes "storage_ok E c" and "first \<le> i"
  shows "log_values E (c (snd (DB_Put E sync i y d))) first i = log_values E (c d) first i"
  by (rule log_values_cong [OF assms(2)]) (simp add: logged_def db.put_lookup [OF assms(1)])

lemma exec_inv_write:
  assumes st: "storage_ok E c" "instance_codec_ok E" and inv: "exec_inv E c first x s" "idle s"
    and a: "acceptor_step (acceptor s) a"
  defines "s' \<equiv> snd (Acceptor_WriteToDB E (s\<lparr>acceptor := a\<rparr>))"
  shows "exec_inv E c first x s'" "idle s'"
proof -
  have i: "acc_instance_id a = instance_id s" "accepted_ballot a \<le> promised_ballot a" "first \<le> instance_id s"
    using inv(1) a by (auto simp: exec_inv_def node_ok_def acceptor_step_def intro: order_trans)
  obtain sync n where s': "s' = s\<lparr>acceptor := a\<lparr>log_sync_count := n\<rparr>,
      db := snd (DB_Put E sync (instance_id s) (ser_instance E (acceptor_instance a)) (db s))\<rparr>"
    using i(1) by (auto simp: s'_def Acceptor_WriteToDB_def Let_def case_prod_beta)
  have "recorded E (c (db s')) (instance_id s) (accepted_value a)"
    using recorded_put [OF st, of "acceptor_instance a"] i(1) by (simp add: s' acceptor_instance_def)
  then show "exec_inv E c first x s'" "idle s'"
    using inv i log_values_put [OF st(1)] by (simp_all add: exec_inv_def idle_def s' node_ok_def)
qed

lemma exec_inv_learned:
  assumes inv: "exec_inv E c first x s" "idle s" and v: "recorded E (c (db s)) (instance_id s) v"
  shows "exec_inv E c first x (Learner_BroadcastMessageToFollower E b (s\<lparr>learner := FinishLearnValue v (learner s)\<rparr>))"
proof (rule exec_inv_unseen)
  show "exec_inv E c first x (s\<lparr>learner := FinishLearnValue v (learner s)\<rparr>)"
    using inv v by (simp add: exec_inv_def idle_def FinishLearnValue_def node_ok_def)
qed simp

lemma exec_inv_OnNewChosenValue:
  assumes inv: "exec_inv E c first x s" "idle s" and msg: "0 < pm_proposal_id msg"
  shows "exec_inv E c first x (OnNewChosenValue E msg s)"
proof (cases "BallotNumber (pm_proposal_id msg) (pm_node_id msg) = accepted_ballot (acceptor s)")
  case True
  with msg have "accepted_ballot (acceptor s) \<noteq> Ballot_default" by (auto simp: Ballot_default_def)
  with inv have "recorded E (c (db s)) (instance_id s) (accepted_value (acceptor s))"
    by (simp add: exec_inv_def idle_def)
  with exec_inv_learned [OF inv] inv show ?thesis by (simp add: OnNewChosenValue_def Let_def)
next
  case False
  with inv show ?thesis by (simp add: OnNewChosenValue_def Let_def)
qed

lemma exec_inv_OnSendLearnedValue:
  assumes st: "storage_ok E c" "instance_codec_ok E" and inv: "exec_inv E c first x s" "idle s"
  shows "exec_inv E c first x (OnSendLearnedValue E msg s)"
proof (cases "pm_instance_id msg = lrn_instance_id (learner s)")
  case True
  let ?i = "instance_id s"
  let ?r = "\<lparr>pi_instance_id = ?i, pi_promised_id = pm_proposal_id msg, pi_promised_node_id = pm_node_id msg,
    pi_accepted_id = pm_proposal_id msg, pi_accepted_node_id = pm_node_id msg, pi_accepted_value = pm_value msg\<rparr>"
  let ?d = "snd (DB_Put E False ?i (ser_instance E ?r) (db s))"
  have i: "lrn_instance_id (learner s) = ?i" "first \<le> ?i" using inv(1) by (simp_all add: exec_inv_def node_ok_def)
  have rec: "recorded E (c ?d) ?i (pm_value msg)" using recorded_put [OF st, of ?r] by simp
  have "exec_inv E c first x (s\<lparr>db := ?d, learner := FinishLearnValue (pm_value msg) (learner s)\<rparr>)"
    using inv rec log_values_put [OF st(1) i(2)] by (simp add: exec_inv_def idle_def FinishLearnValue_def node_ok_def)
  then have "exec_inv E c first x (Learner_BroadcastMessageToFollower E b
      (s\<lparr>db := ?d, learner := FinishLearnValue (pm_value msg) (learner s)\<rparr>))" for b
    by (rule exec_inv_unseen) simp
  moreover have "fst (DB_Put E False ?i (ser_instance E ?r) (db s)) = 0" by (rule db.put_ret [OF st(1)])
  ultimately show ?thesis
    using True i(1) by (simp add: OnSendLearnedValue_def Learner_WriteToDB_def Let_def case_prod_beta)
next
  case False
  with inv show ?thesis by (simp add: OnSendLearnedValue_def)
qed

subsection \<open>Executing\<close>

lemma CheckLearn_view:
  assumes "good E" and "map_of (machines s) mid = Some User_machine"
  shows "view (world (CheckLearn E s)) =
    (if advances E s then run_value mid effect (learned_value (learner s)) (view (world s)) else view (world s))"
  using assms
  by (simp add: CheckLearn_def advances_def Let_def case_prod_beta MachineExecute_view Instance_NextInstance_def
      Learner_NextInstance_def SetMaxChosenInstanceId_def)

lemma MachineExecute_machines [simp]: "machines (snd (MachineExecute E v my s)) = machines s"
  using MachineExecute_step [of s E v my] by (simp add: mach_step_def)

lemma CheckLearn_machines [simp]: "machines (CheckLearn E s) = machines s"
  by (simp add: CheckLearn_def Let_def case_prod_beta Instance_NextInstance_def Learner_NextInstance_def
      SetMaxChosenInstanceId_def)

lemma exec_inv_CheckLearn:
  assumes "good E" and inv: "exec_inv E c first x s"
  shows "exec_inv E c first x (CheckLearn E s)"
proof (cases "advances E s")
  case True
  then have l: "has_learned (learner s)" by (simp add: advances_def)
  with inv have i: "instance_id s \<noteq> - 1" "first \<le> instance_id s"
      and v: "logged E (c (db s)) (instance_id s) = learned_value (learner s)"
    by (simp_all add: exec_inv_def recorded_logged)
  have "first \<le> instance_id s + 1" using i less_plus_one_u64 [OF i(1)] by simp
  moreover have "view (world (CheckLearn E s)) =
      fold (run_value mid effect) (log_values E (c (db s)) first (instance_id s + 1)) x"
    using inv assms(1) True CheckLearn_view [of E s] by (simp add: exec_inv_def log_values_next [OF i(2,1)] v)
  ultimately show ?thesis
    using inv True CheckLearn_learned [OF True] node_ok_advance [OF True]
    by (simp add: exec_inv_def CheckLearn_acceptor CheckLearn_ids CheckLearn_parts NextInstance_acceptor Proposer_NextInstance_def)
next
  case False
  with inv assms(1) CheckLearn_view [of E s] show ?thesis
    by (simp add: exec_inv_def CheckLearn_acceptor CheckLearn_ids CheckLearn_parts node_ok_def)
qed

subsection \<open>The roles, given the instance they call back into\<close>

text \<open>\<open>keeps_for\<close> is what is known of the nested call for the messages it is made with.\<close>

definition keeps_for ::
    "('d, 'w) env \<Rightarrow> ('d \<Rightarrow> bytes \<rightharpoonup> bytes) \<Rightarrow> u64 \<Rightarrow> 'v \<Rightarrow>
      (PaxosMessage \<Rightarrow> ('d, 'w, 'z) node_scheme \<Rightarrow> ('d, 'w, 'z) node_scheme) \<Rightarrow> PaxosMessageType set \<Rightarrow> bool" where
  "keeps_for E c first x rec T \<longleftrightarrow>
     (\<forall>m t. pm_type m \<in> T \<longrightarrow> 0 < pm_proposal_id m \<longrightarrow> exec_inv E c first x t \<longrightarrow> idle t \<longrightarrow> exec_inv E c first x (rec m t))"

lemma keeps_forD:
  "keeps_for E c first x rec T \<Longrightarrow> pm_type m \<in> T \<Longrightarrow> 0 < pm_proposal_id m \<Longrightarrow> exec_inv E c first x t \<Longrightarrow> idle t \<Longrightarrow>
    exec_inv E c first x (rec m t)"
  by (simp add: keeps_for_def)

lemma exec_inv_reply:
  assumes "keeps_for E c first x rec T" "pm_type m \<in> T" "0 < pm_proposal_id m" "exec_inv E c first x s" "idle s"
  shows "exec_inv E c first x (reply_to E rec n m s)"
  using keeps_forD [OF assms] exec_inv_unseen [OF assms(4) unseen_send(1)] by (simp add: reply_to_def)

lemma exec_inv_OnPrepare:
  assumes st: "storage_ok E c" "instance_codec_ok E" and inv: "exec_inv E c first x s" "idle s"
    and msg: "0 < pm_proposal_id msg" and rec: "keeps_for E c first x rec {PREPARE_REPLY, NEW_CHOSEN_VALUE}"
  shows "exec_inv E c first x (Acceptor_OnPrepare E rec msg s)"
proof -
  let ?b = "BallotNumber (pm_proposal_id msg) (pm_node_id msg)"
  have w: "promised_ballot (acceptor s) \<le> ?b \<Longrightarrow> acceptor_step (acceptor s) ((acceptor s)\<lparr>promised_ballot := ?b\<rparr>)"
    by (simp add: acceptor_step_def)
  show ?thesis
    unfolding Acceptor_OnPrepare_def Let_def Acceptor_NewChosenValue_def
    by (simp add: inv msg exec_inv_reply [OF rec] keeps_forD [OF rec] exec_inv_write [OF st inv w])
qed

lemma exec_inv_OnAccpet:
  assumes st: "storage_ok E c" "instance_codec_ok E" and inv: "exec_inv E c first x s" "idle s"
    and msg: "0 < pm_proposal_id msg" and rec: "keeps_for E c first x rec {ACCEPT_REPLY, NEW_CHOSEN_VALUE}"
  shows "exec_inv E c first x (Acceptor_OnAccpet E rec msg s)"
proof -
  let ?b = "BallotNumber (pm_proposal_id msg) (pm_node_id msg)"
  have w: "promised_ballot (acceptor s) \<le> ?b \<Longrightarrow> acceptor_step (acceptor s)
      ((acceptor s)\<lparr>promised_ballot := ?b, accepted_ballot := ?b, accepted_value := pm_value msg\<rparr>)"
    by (simp add: acceptor_step_def)
  show ?thesis
    unfolding Acceptor_OnAccpet_def Let_def Acceptor_NewChosenValue_def
    by (simp add: inv msg exec_inv_reply [OF rec] keeps_forD [OF rec] exec_inv_write [OF st inv w])
qed

lemma exec_inv_round:
  assumes "good E" and inv: "exec_inv E c first x s" "idle s" and rec: "keeps_for E c first x rec T"
    and p: "pro_instance_id p = pro_instance_id (proposer s)" "0 < proposal_id p"
    and m: "pm_type m \<in> T" "0 < pm_proposal_id m"
  shows "exec_inv E c first x (rec m (BroadcastMessage k (AddRetryTimer E d (s\<lparr>proposer := p\<rparr>))))"
proof -
  have "unseen s (BroadcastMessage k (AddRetryTimer E d (s\<lparr>proposer := p\<rparr>)))"
    by (intro unseen_trans [OF unseen_trans [OF unseen_proposer unseen_retry(1)] unseen_send(2)]) (use assms in simp_all)
  with keeps_forD [OF rec m] exec_inv_unseen [OF inv(1)] idle_unseen [OF inv(2)] show ?thesis by blast
qed

lemma exec_inv_Accept:
  assumes "good E" and inv: "exec_inv E c first x s" "idle s" and rec: "keeps_for E c first x rec {ACCEPT}"
  shows "exec_inv E c first x (Accept E rec s)"
  unfolding Accept_def Let_def
  by (rule exec_inv_round [OF assms]) (use inv(1) in \<open>simp_all add: exec_inv_def\<close>)

lemma exec_inv_Prepare:
  assumes "good E" and inv: "exec_inv E c first x s" "idle s" and rec: "keeps_for E c first x rec {PREPARE}"
    and new: "0 < proposal_id (start_prepare b (proposer s))"
  shows "exec_inv E c first x (Prepare E rec b s)"
  unfolding Prepare_def Let_def
  by (rule exec_inv_round [OF assms(1-4)]) (use new in \<open>simp_all add: start_prepare_def Let_def\<close>)

lemma unseen_stop:
  "pro_instance_id p = pro_instance_id (proposer s) \<Longrightarrow> proposal_id p = proposal_id (proposer s) \<Longrightarrow>
    unseen s (RemoveRetryTimer (s\<lparr>proposer := p\<rparr>))"
  by (rule unseen_trans [OF unseen_proposer unseen_send(7)]) simp_all

lemma exec_inv_SetMax:
  "exec_inv E c first x s \<Longrightarrow> exec_inv E c first x (s\<lparr>proposer := Proposer_SetMaxProposalId msg (proposer s)\<rparr>)"
  by (erule exec_inv_unseen) (rule unseen_proposer, simp_all add: Proposer_SetMaxProposalId_def Let_def)

lemma exec_inv_OnPrepareReply:
  assumes "good E" and inv: "exec_inv E c first x s" "idle s" and rec: "keeps_for E c first x rec {ACCEPT}"
  shows "exec_inv E c first x (OnPrepareReply E rec msg s)"
proof -
  let ?p = "count_prepare_reply msg (proposer s)"
  have 1: "unseen s (RemoveRetryTimer (s\<lparr>proposer := ?p\<lparr>preparing := False, skip_prepare := True\<rparr>\<rparr>))"
    and 2: "unseen s (RemoveRetryTimer (s\<lparr>proposer := ?p\<lparr>preparing := False\<rparr>\<rparr>))" by (rule unseen_stop; simp)+
  have 3: "unseen s (s\<lparr>proposer := ?p\<rparr>)" by (rule unseen_proposer) simp_all
  note k = exec_inv_unseen [OF inv(1)]
  show ?thesis
    unfolding OnPrepareReply_def Let_def
    by (intro exec_inv_SetMax)
      (simp add: inv k [OF 3] k [OF unseen_trans [OF 2 unseen_retry(2) [OF assms(1)]]]
        exec_inv_Accept [OF assms(1) k [OF 1] idle_unseen [OF inv(2) 1] rec])
qed

lemma exec_inv_OnAccpetReply:
  assumes "good E" and inv: "exec_inv E c first x s" "idle s" and rec: "keeps_for E c first x rec {NEW_CHOSEN_VALUE}"
  shows "exec_inv E c first x (OnAccpetReply E rec msg s)"
proof -
  let ?p = "count_accept_reply msg (proposer s)" and ?s = "RemoveRetryTimer (s\<lparr>proposer := (count_accept_reply msg (proposer s))\<lparr>accepting := False\<rparr>\<rparr>)"
  have p: "pro_instance_id ?p = pro_instance_id (proposer s)" "proposal_id ?p = proposal_id (proposer s)"
    by (simp_all add: count_accept_reply_def Let_def)
  have 1: "unseen s ?s" by (rule unseen_stop) (simp_all add: p)
  have 2: "unseen s (s\<lparr>proposer := ?p\<rparr>)" by (rule unseen_proposer) (simp_all add: p)
  note k = exec_inv_unseen [OF inv(1)]
  have b: "unseen s (BroadcastMessage m ?s)" for m by (rule unseen_trans [OF 1 unseen_send(2)])
  have "exec_inv E c first x (Proposer_NewChosenValue E rec ?s)"
    unfolding Proposer_NewChosenValue_def Let_def
    by (rule keeps_forD [OF rec _ _ k [OF b] idle_unseen [OF inv(2) b]])
      (use k [OF 1] in \<open>simp_all add: exec_inv_def\<close>)
  then show ?thesis
    unfolding OnAccpetReply_def Let_def
    by (intro exec_inv_SetMax) (simp add: inv k [OF 2] k [OF unseen_trans [OF 1 unseen_retry(2) [OF assms(1)]]])
qed

subsection \<open>Whole messages, proposals and timers\<close>

lemma unseen_OnAskForLearn: "unseen s (OnAskForLearn E msg s)"
  by (simp add: OnAskForLearn_def case_prod_beta SendLearnedValue_def SendNowInstanceId_def Let_def)

lemma unseen_OnSendNowInstanceId: "unseen s (OnSendNowInstanceId E msg s)"
  by (simp add: OnSendNowInstanceId_def Let_def AskForCheckpoint_def ComfirmAskForLearn_def)
    (auto simp: unseen_def)

lemma exec_inv_OnPaxosMessage:
  fixes s :: "('d, 'w, 'z) node_scheme"
  assumes E: "good E" "storage_ok E c" "instance_codec_ok E"
  shows "exec_inv E c first x s \<Longrightarrow> idle s \<Longrightarrow>
    (pm_type msg \<in> {PREPARE, ACCEPT, NEW_CHOSEN_VALUE} \<Longrightarrow> 0 < pm_proposal_id msg) \<Longrightarrow>
    exec_inv E c first x (OnPaxosMessage E msg s)"
proof (induction "phase (pm_type msg)" arbitrary: msg s rule: less_induct)
  case less
  note inv = less.prems(1,2) and pos = less.prems(3) and k = exec_inv_unseen [OF less.prems(1)]
  have rec: "keeps_for E c first x (OnPaxosMessage E :: _ \<Rightarrow> ('d, 'w, 'z) node_scheme \<Rightarrow> _) T"
    if "\<And>t. t \<in> T \<Longrightarrow> phase t < phase (pm_type msg)" for T
    using less.hyps that by (simp add: keeps_for_def)
  have "exec_inv E c first x (case pm_type msg of
      PREPARE \<Rightarrow> Acceptor_OnPrepare E (OnPaxosMessage E) msg s
    | ACCEPT \<Rightarrow> Acceptor_OnAccpet E (OnPaxosMessage E) msg s
    | PREPARE_REPLY \<Rightarrow> OnPrepareReply E (OnPaxosMessage E) msg s
    | ACCEPT_REPLY \<Rightarrow> OnAccpetReply E (OnPaxosMessage E) msg s
    | NEW_CHOSEN_VALUE \<Rightarrow> OnNewChosenValue E msg s
    | ASK_FOR_LEARN \<Rightarrow> OnAskForLearn E msg s
    | SEND_LEARNED_VALUE \<Rightarrow> OnSendLearnedValue E msg s
    | SEND_NOW_INSTANCE_ID \<Rightarrow> OnSendNowInstanceId E msg s
    | COMFIRM_ASK_FOR_LEARN \<Rightarrow> OnComfirmAskForLearn msg s
    | ASK_FOR_CHECKPOINT \<Rightarrow> OnAskForCheckpoint msg s
    | OTHER_MESSAGE _ \<Rightarrow> s)"
  proof (cases "pm_type msg")
    case PREPARE
    have "exec_inv E c first x (Acceptor_OnPrepare E (OnPaxosMessage E) msg s)"
      by (rule exec_inv_OnPrepare [OF E(2,3) inv _ rec]) (use pos PREPARE in auto)
    with PREPARE show ?thesis by simp
  next
    case ACCEPT
    have "exec_inv E c first x (Acceptor_OnAccpet E (OnPaxosMessage E) msg s)"
      by (rule exec_inv_OnAccpet [OF E(2,3) inv _ rec]) (use pos ACCEPT in auto)
    with ACCEPT show ?thesis by simp
  next
    case PREPARE_REPLY
    have "exec_inv E c first x (OnPrepareReply E (OnPaxosMessage E) msg s)" by (rule exec_inv_OnPrepareReply [OF E(1) inv rec]) (use PREPARE_REPLY in auto)
    with PREPARE_REPLY show ?thesis by simp
  next
    case ACCEPT_REPLY
    have "exec_inv E c first x (OnAccpetReply E (OnPaxosMessage E) msg s)" by (rule exec_inv_OnAccpetReply [OF E(1) inv rec]) (use ACCEPT_REPLY in auto)
    with ACCEPT_REPLY show ?thesis by simp
  next
    case NEW_CHOSEN_VALUE
    with pos exec_inv_OnNewChosenValue [OF inv] show ?thesis by simp
  next
    case SEND_LEARNED_VALUE
    with exec_inv_OnSendLearnedValue [OF E(2,3) inv] show ?thesis by simp
  qed (use inv k [OF unseen_OnAskForLearn] k [OF unseen_OnSendNowInstanceId] k [OF unseen_send(8)] in
      \<open>simp_all add: OnComfirmAskForLearn_def OnAskForCheckpoint_def\<close>)
  from exec_inv_CheckLearn [OF E(1) this] show ?case by (subst OnPaxosMessage.simps) (simp add: inv)
qed

lemma keeps_for_OnPaxosMessage:
  assumes "good E" "storage_ok E c" "instance_codec_ok E"
  shows "keeps_for E c first x (OnPaxosMessage E) T"
  unfolding keeps_for_def using exec_inv_OnPaxosMessage [OF assms] by blast

lemma start_prepare_pos:
  assumes "exec_inv E c first x s" "may_propose s"
  shows "0 < proposal_id (start_prepare (was_rejected_by_someone (proposer s)) (proposer s))"
proof -
  have "proposal_id (proposer s) \<le> proposal_id (start_prepare (was_rejected_by_someone (proposer s)) (proposer s))"
    using assms(2) by (intro start_prepare_id(1)) (simp_all add: may_propose_def Let_def)
  moreover have "0 < proposal_id (proposer s)" using assms(1) by (simp add: exec_inv_def)
  ultimately show ?thesis by simp
qed

lemma exec_inv_retry:
  assumes E: "good E" "storage_ok E c" "instance_codec_ok E"
    and inv: "exec_inv E c first x s" "idle s" "may_propose s"
  shows "exec_inv E c first x (run_RetryTimer E (OnPaxosMessage E) i s)"
  using exec_inv_Prepare [OF E(1) inv(1,2) keeps_for_OnPaxosMessage [OF E] start_prepare_pos [OF inv(1,3)]] inv(1)
  by (simp add: run_RetryTimer_def)

lemma exec_inv_NewPropose:
  assumes E: "good E" "storage_ok E c" "instance_codec_ok E"
    and inv: "exec_inv E c first x s" "idle s" "may_propose s"
  shows "exec_inv E c first x (NewPropose E (OnPaxosMessage E) v s)"
proof -
  let ?s = "s\<lparr>proposer := (proposer s)\<lparr>pro_value := v\<rparr>\<rparr>"
  have u: "unseen s ?s" by (rule unseen_proposer) simp_all
  note k = exec_inv_unseen [OF inv(1) u] idle_unseen [OF inv(2) u]
  have "may_propose ?s" using inv(3) by (simp add: may_propose_def Let_def)
  from start_prepare_pos [OF k(1) this] show ?thesis
    using exec_inv_Accept [OF E(1) k keeps_for_OnPaxosMessage [OF E]]
      exec_inv_Prepare [OF E(1) k keeps_for_OnPaxosMessage [OF E]]
    by (simp add: NewPropose_def Let_def)
qed

lemma exec_inv_OnPropose:
  assumes E: "good E" "storage_ok E c" "instance_codec_ok E"
    and inv: "exec_inv E c first x s" "idle s" "may_propose s"
  shows "exec_inv E c first x (Instance_OnPropose E mid' d ctx s)"
proof -
  let ?g = "GetPaxosValueId E (s\<lparr>is_proposing := True, context_ptr := ctx\<rparr>)"
  let ?v = "\<lparr>pv_value_id = fst ?g, pv_machine_id = mid', pv_user_data = d\<rparr>"
  let ?t = "io_RunAfter E (cfg_propose_timeout E) ProposeTimer ((snd ?g)\<lparr>propose_value := ?v\<rparr>)"
  let ?s = "(snd ?t)\<lparr>propose_timer := fst ?t\<rparr>"
  have g: "unseen s (snd ?g)"
    by (simp add: unseen_def GetPaxosValueId_def Let_def case_prod_beta in_world_def random_view [OF E(1)] NowMillis_view [OF E(1)])
  have "unseen (snd ?g) ((snd ?g)\<lparr>propose_value := ?v\<rparr>)" "unseen (snd ?t) ?s" by (simp_all add: unseen_def)
  with g unseen_timer [OF E(1)] have u: "unseen s ?s" by (meson unseen_trans)
  have "may_propose ?s" using inv(3)
    by (simp add: may_propose_def Let_def GetPaxosValueId_def in_world_def case_prod_beta)
  from exec_inv_NewPropose [OF E exec_inv_unseen [OF inv(1) u] idle_unseen [OF inv(2) u] this]
  have "exec_inv E c first x (NewPropose E (OnPaxosMessage E) ?v ?s)" .
  moreover have "exec_inv E c first x (abort (s\<lparr>is_proposing := True\<rparr>))"
    by (rule exec_inv_unseen [OF inv(1)]) (simp add: unseen_def)
  ultimately show ?thesis
    using exec_inv_unseen [OF inv(1) unseen_send(9)] exec_inv_unseen [OF inv(1) unseen_send(10)]
    by (simp add: Instance_OnPropose_def case_prod_beta Let_def)
qed

lemma unseen_ProposeTimer: "unseen s (run_ProposeTimer s)"
  by (simp add: run_ProposeTimer_def QuitPropose_def Let_def unseen_def RemoveRetryTimer_def)

lemma unseen_AskForLearn: "good E \<Longrightarrow> unseen s (AskForLearn E b s)"
  by (simp add: AskForLearn_def AddLearnTimer_def Let_def case_prod_beta unseen_def RunAfter_view)

lemma unseen_ASyncSend: "unseen s (ASyncSend E d from to s)"
proof (induction E d "from" to s rule: ASyncSend.induct)
  case (1 E d "from" to s)
  show ?case
    using 1 unseen_trans [OF unseen_send(1)]
    by (subst ASyncSend.simps) (auto simp: SendLearnedValue_def split: prod.split)
qed

subsection \<open>Runs of a group\<close>

lemma exec_inv_member_step:
  assumes env: "cluster_env M En c" and good: "\<And>n. n \<in> M \<Longrightarrow> good (En n)"
    and step: "member_step M En \<sigma> n s" and cl: "cluster_inv first M En c \<sigma>" and inv: "exec_inv (En n) c first x (\<sigma> n)"
  shows "exec_inv (En n) c first x s"
proof -
  have n: "n \<in> M" using step by cases
  have E: "good (En n)" "storage_ok (En n) c" "instance_codec_ok (En n)"
    using env good n by (simp_all add: cluster_env_def)
  have idle: "idle (\<sigma> n)" if "ready M (\<sigma> n)" using that by (simp add: ready_def idle_def)
  note k = exec_inv_unseen [OF inv]
  from step show ?thesis
  proof cases
    case (deliver m k)
    let ?m = "ct_paxos_msg (call_content k)"
    obtain H where H: "hist_ok M H" "node_inv M (En m) c H (\<sigma> m)" using cl deliver(2) unfolding cluster_inv_def by blast
    have "call_ok M H m k"
      using H(2) deliver(2,5) env by (simp add: node_inv_def node_base_def net_inv_def cluster_env_def)
    then have m: "msg_ok M H m n ?m" using deliver(6,7) by (simp add: call_ok_def)
    have "0 < pm_proposal_id ?m" if "pm_type ?m \<in> {PREPARE, ACCEPT, NEW_CHOSEN_VALUE}"
      using m that by (auto simp: msg_ok_def Let_def dest!: chosen_proposed [OF H(1)] hist_okD(6) [OF H(1)])
    with exec_inv_OnPaxosMessage [OF E inv idle [OF deliver(8)], of ?m] deliver(1,7) show ?thesis
      by (simp add: Instance_OnContent_def)
  next
    case (propose mid' v ctx)
    then show ?thesis using exec_inv_OnPropose [OF E inv idle] by simp
  next
    case (retry i)
    then show ?thesis using exec_inv_retry [OF E inv idle] by simp
  next
    case give_up
    then show ?thesis using k [OF unseen_ProposeTimer] by simp
  next
    case (ask b)
    then show ?thesis using k [OF unseen_AskForLearn [OF E(1)]] by simp
  next
    case (send d k')
    then show ?thesis using k [OF unseen_send(1)] by simp
  next
    case (send_log d "from" to)
    then show ?thesis using k [OF unseen_ASyncSend] by simp
  qed
qed

lemma replica_run:
  assumes env: "cluster_env M En c" and good: "\<And>n. n \<in> M \<Longrightarrow> good (En n)"
    and start: "\<And>n. n \<in> M \<Longrightarrow> replica_starts view mid first x (En n) c (\<sigma>0 n)"
    and run: "(replica_step view M En)\<^sup>*\<^sup>* \<sigma>0 \<sigma>"
  shows "cluster_inv first M En c \<sigma> \<and> (\<forall>n\<in>M. exec_inv (En n) c first x (\<sigma> n))"
  using run
proof (induction rule: rtranclp_induct)
  case base
  have "cluster_inv first M En c \<sigma>0" by (rule starts_inv [OF env]) (use start in \<open>simp add: replica_starts_def\<close>)
  moreover have "exec_inv (En n) c first x (\<sigma>0 n)" if "n \<in> M" for n
    using start [OF that] by (simp add: replica_starts_def starts_def exec_inv_def log_values_def)
  ultimately show ?case by blast
next
  case (step \<sigma> \<sigma>')
  from step.hyps(2) have "\<forall>n\<in>M. exec_inv (En n) c first x (\<sigma>' n)"
  proof cases
    case (act n s)
    then have "n \<in> M" by (auto elim: member_step.cases)
    with exec_inv_member_step [OF env good act(2)] step.IH show ?thesis by (simp add: act(1))
  next
    case (other n s)
    then have "unseen (\<sigma> n) s" by (simp add: unseen_def same_paxos_def)
    with exec_inv_unseen [of "En n" c first x "\<sigma> n" s] step.IH other show ?thesis by auto
  qed
  with step.IH cluster_step_inv [OF env replica_step_cluster [OF step.hyps(2)]] show ?case by blast
qed

text \<open>The state of the machine is the replay of the log.\<close>

lemma replayed:
  assumes "cluster_env M En c" and "\<And>n. n \<in> M \<Longrightarrow> good (En n)"
    and "\<And>n. n \<in> M \<Longrightarrow> replica_starts view mid first x (En n) c (\<sigma>0 n)"
    and "(replica_step view M En)\<^sup>*\<^sup>* \<sigma>0 \<sigma>" and "n \<in> M"
  shows "view (world (\<sigma> n)) =
    fold (run_value mid effect) (log_values (En n) (c (db (\<sigma> n))) first (instance_id (\<sigma> n))) x"
  using replica_run [OF assms(1-4)] assms(5) by (simp add: exec_inv_def)

text \<open>A member that is ahead has executed what the other has, and then the rest of its log.\<close>

lemma replicas_agree:
  assumes run: "cluster_env M En c" "\<And>n. n \<in> M \<Longrightarrow> good (En n)"
      "\<And>n. n \<in> M \<Longrightarrow> replica_starts view mid first x (En n) c (\<sigma>0 n)" "(replica_step view M En)\<^sup>*\<^sup>* \<sigma>0 \<sigma>"
    and n: "n \<in> M" and m: "m \<in> M" and le: "instance_id (\<sigma> n) \<le> instance_id (\<sigma> m)"
  shows "view (world (\<sigma> m)) =
    fold (run_value mid effect) (log_values (En m) (c (db (\<sigma> m))) (instance_id (\<sigma> n)) (instance_id (\<sigma> m))) (view (world (\<sigma> n)))"
proof -
  let ?i = "instance_id (\<sigma> n)"
  have inv: "cluster_inv first M En c \<sigma>" "first \<le> ?i"
    using replica_run [OF run] n by (auto simp: exec_inv_def)
  have "logged (En m) (c (db (\<sigma> m))) i = logged (En n) (c (db (\<sigma> n))) i" if "first \<le> i" "i < ?i" for i
    using logs_agree_inv [OF inv(1) n that(2) m order_less_le_trans [OF that(2) le] that(1)] by (auto dest: recorded_logged)
  then have "log_values (En m) (c (db (\<sigma> m))) first ?i = log_values (En n) (c (db (\<sigma> n))) first ?i"
    by (rule log_values_cong [OF inv(2)])
  then show ?thesis
    using replayed [OF run n] replayed [OF run m] by (simp add: log_values_append [OF inv(2) le])
qed

end

end
