(* ===== verification/Solo.thy ===== *)
theory Solo
  imports Execution
begin

text \<open>
  Progress. In a group whose only member is the node itself, a proposal is chosen before
  \<^verbatim>\<open>OnPropose\<close> returns: every message the node sends to itself is delivered by a nested
  call, from the prepare down to the chosen value, which the machine executes.
\<close>

section \<open>The node while it proposes\<close>

text \<open>What stays fixed from one nested delivery to the next, relative to the state \<open>s0\<close> in
  which the proposal of \<open>v\<close> began.\<close>

definition solo :: "('w \<Rightarrow> 'v) \<Rightarrow> ('d, 'w) env \<Rightarrow> PaxosValue \<Rightarrow> ('d, 'w, 'z) node_scheme \<Rightarrow> ('d, 'w, 'z) node_scheme \<Rightarrow> bool" where
  "solo view E v s0 s \<longleftrightarrow>
     view (world s) = view (world s0) \<and>
     map fst (ms_members (membership s)) = [cfg_node_id E] \<and>
     \<not> is_receiving_checkpoint (learner s) \<and> \<not> has_learned (learner s) \<and>
     instance_id s = instance_id s0 \<and> acc_instance_id (acceptor s) = instance_id s0 \<and>
     lrn_instance_id (learner s) = instance_id s0 \<and> pro_instance_id (proposer s) = instance_id s0 \<and>
     is_proposing s \<and> propose_value s = v \<and> pro_value (proposer s) = v \<and> context_ptr s = context_ptr s0 \<and>
     0 < proposal_id (proposer s) \<and>
     machines s = machines s0 \<and> latest_checkpoint_instance_id s = latest_checkpoint_instance_id s0 \<and>
     aborted s = aborted s0 \<and> queue s = queue s0 \<and> callback_loop s = callback_loop s0"

text \<open>A machine of the user that executes the value, and a proposal whose callback is waiting.\<close>

definition executes :: "('d, 'w) env \<Rightarrow> PaxosValue \<Rightarrow> ('d, 'w, 'z) node_scheme \<Rightarrow> bool" where
  "executes E v s \<longleftrightarrow>
     map_of (machines s) (pv_machine_id v) = Some User_machine \<and>
     (\<forall>ctx w. fst (sm_execute E (pv_machine_id v) (cfg_group_id E) (instance_id s) (pv_user_data v) ctx w)) \<and>
     latest_checkpoint_instance_id s < instance_id s \<and>
     \<not> last_finished (queue s) \<and> cb_queue (queue s) \<noteq> []"

text \<open>An idle node, alone in its group, whose proposer is not behind its acceptor.\<close>

definition alone :: "('d, 'w) env \<Rightarrow> ('d, 'w, 'z) node_scheme \<Rightarrow> bool" where
  "alone E s \<longleftrightarrow>
     map fst (ms_members (membership s)) = [cfg_node_id E] \<and> node_ok s \<and>
     \<not> is_receiving_checkpoint (learner s) \<and> \<not> has_learned (learner s) \<and> \<not> is_proposing s \<and> context_ptr s = Null \<and>
     GetProposalId (accepted_ballot (acceptor s)) = 0 \<and>
     (let p = proposer s;
          n = (if skip_prepare p \<and> \<not> was_rejected_by_someone p then proposal_id p
               else proposal_id (start_prepare (was_rejected_by_someone p) p))
      in 0 < proposal_id p \<and> 0 < n \<and> promised_ballot (acceptor s) \<le> BallotNumber n (cfg_node_id E))"

text \<open>The end: the machine has executed the value and the callback is told so, and the node is at the
  next instance, alone and idle again.\<close>

definition committed ::
    "('w \<Rightarrow> 'v) \<Rightarrow> (bytes \<Rightarrow> 'v \<Rightarrow> 'v) \<Rightarrow> ('d, 'w) env \<Rightarrow> PaxosValue \<Rightarrow> ('d, 'w, 'z) node_scheme \<Rightarrow>
      ('d, 'w, 'z) node_scheme \<Rightarrow> bool" where
  "committed view effect E v s0 s \<longleftrightarrow>
     instance_id s = instance_id s0 + 1 \<and> max_chosen_id s = instance_id s0 \<and>
     view (world s) = effect (pv_user_data v) (view (world s0)) \<and> alone E s \<and> \<not> has_learned (learner s) \<and>
     0 < proposal_id (proposer s) \<and> aborted s = aborted s0 \<and>
     cb_queue (queue s) = tl (cb_queue (queue s0)) \<and>
     funcs (callback_loop s) = funcs (callback_loop s0) @
       [Func (hd (cb_queue (queue s0)), instance_id s0, Status_OK, context_ptr s0)]"

section \<open>Execution\<close>

lemma MakeCheckpoint_aborted:
  fixes s :: "('w, 'z) mach_scheme"
  assumes "latest_checkpoint_instance_id s < i"
  shows "aborted (snd (MakeCheckpoint E i s)) = aborted s"
proof -
  have "aborted (snd (make_checkpoints E i ms t)) = aborted t" for ms and t :: "('w, 'z) mach_scheme"
    using make_checkpoints_step [of t E i ms] by blast
  with assms show ?thesis by (auto simp: MakeCheckpoint_def Let_def case_prod_beta)
qed

lemma make_checkpoints_membership: "membership (snd (make_checkpoints E i ms s)) = membership s"
  by (induction E i ms s rule: make_checkpoints.induct)
    (auto simp: Let_def case_prod_beta in_world_def machine_MakeCheckpoint_def split: machine.split)

lemma MakeCheckpoint_membership: "membership (snd (MakeCheckpoint E i s)) = membership s"
  by (simp add: MakeCheckpoint_def Let_def case_prod_beta in_world_def make_checkpoints_membership abort_def)

lemma Execute_user:
  fixes s :: "('d, 'w, 'z) node_scheme"
  assumes "executes E v s0" "machines s = machines s0"
    "latest_checkpoint_instance_id s = latest_checkpoint_instance_id s0"
  obtains s' where "MachineManager_Execute E (instance_id s0) v ctx s = (True, s')" "aborted s' = aborted s"
    "membership s' = membership s"
proof -
  let ?x = "in_world (sm_execute E (pv_machine_id v) (cfg_group_id E) (instance_id s0) (pv_user_data v) ctx) s"
  have x: "fst ?x" using assms(1) by (simp add: executes_def in_world_def case_prod_beta)
  have a: "aborted (snd (MakeCheckpoint E (instance_id s0) (snd ?x))) = aborted s"
    using MakeCheckpoint_aborted [of "snd ?x" "instance_id s0" E] assms by (simp add: executes_def)
  have m: "membership (snd (MakeCheckpoint E (instance_id s0) (snd ?x))) = membership s"
    by (simp add: MakeCheckpoint_membership in_world_def case_prod_beta)
  show thesis
    by (rule that [of "snd (MakeCheckpoint E (instance_id s0) (snd ?x))"])
      (use assms x a m in \<open>simp_all add: MachineManager_Execute_def executes_def machine_Execute_def case_prod_beta\<close>)
qed

lemma Status_copy_OK [simp]: "Status_copy Status_OK = Status_OK"
  by (simp add: Status_copy_def Status_OK_def)

section \<open>From the chosen value up to the prepare\<close>

lemma propose_cb_front:
  fixes s :: "('d, 'w, 'z) node_scheme"
  assumes "\<not> last_finished (queue s)" "cb_queue (queue s) = cb # cbs"
  shows "aborted (propose_cb i st c s) = aborted s" "cb_queue (queue (propose_cb i st c s)) = cbs"
    "funcs (callback_loop (propose_cb i st c s)) = funcs (callback_loop s) @ [Func (cb, i, Status_copy st, c)]"
  using assms by (cases "propose_queue (queue s)";
      simp add: propose_cb_def ProposeQueue_ProposeComplete_def RunLoop_QueueInLoop_def)+

lemma propose_cb_keeps [simp]:
  "world (propose_cb i st c s) = world s" "membership (propose_cb i st c s) = membership s"
  by (simp_all add: propose_cb_def abort_def split: option.split prod.split)

text \<open>For a machine that keeps the contract of a replicated one, and a value for it.\<close>

context replicated_machine
begin

lemma CheckLearn_commits:
  fixes s :: "('d, 'w, 'z) node_scheme"
  assumes ex: "executes E v s0" "good E" "pv_machine_id v = mid"
    and solo: "solo view E v s0 (s\<lparr>learner := (learner s)\<lparr>has_learned := False\<rparr>\<rparr>)"
    and l: "has_learned (learner s)" "learned_value (learner s) = v"
    and p: "\<not> was_rejected_by_someone (proposer s)"
      "promised_ballot (acceptor s) = BallotNumber (proposal_id (proposer s)) (cfg_node_id E)"
  shows "committed view effect E v s0 (CheckLearn E s)"
proof -
  let ?s1 = "io_Remove (propose_timer s) s"
  obtain s2 where x: "MachineManager_Execute E (instance_id s0) v (context_ptr s0) ?s1 = (True, s2)"
      "aborted s2 = aborted s" "membership s2 = membership s"
    using Execute_user [OF ex(1), of ?s1 "context_ptr s0"] solo by (auto simp: solo_def)
  have m: "MachineExecute E v True ?s1 = (True, s2)"
    using x(1) solo by (simp add: MachineExecute_def solo_def)
  note f = MachineExecute_frame [of E v True ?s1, unfolded m, simplified]
  have "map_of (machines ?s1) mid = Some User_machine" using ex solo by (simp add: executes_def solo_def)
  from MachineExecute_view [OF ex(2) this, of v True] m ex(3) solo
  have view: "view (world s2) = effect (pv_user_data v) (view (world s0))"
    by (simp add: run_value_def solo_def io_Remove_def)
  obtain cb cbs where q: "cb_queue (queue s0) = cb # cbs" "\<not> last_finished (queue s0)"
    using ex(1) by (cases "cb_queue (queue s0)") (auto simp: executes_def)
  let ?s3 = "propose_cb (instance_id s2) Status_OK (context_ptr s2) s2"
  have cb: "aborted ?s3 = aborted s2" "cb_queue (queue ?s3) = cbs"
      "funcs (callback_loop ?s3) = funcs (callback_loop s0) @ [Func (cb, instance_id s0, Status_OK, context_ptr s0)]"
    using propose_cb_front [of s2 cb cbs] f q solo by (simp_all add: solo_def)
  show ?thesis
    using l m cb f q x(2,3) solo view p
    by (simp add: CheckLearn_def Let_def learn_status_def solo_def committed_def alone_def node_ok_def
        Instance_NextInstance_def Learner_NextInstance_def SetMaxChosenInstanceId_def Acceptor_NextInstance_def
        Acceptor_SetInstanceId_def Proposer_NextInstance_def start_prepare_def)
      (simp add: Ballot_default_def)
qed

lemma NewChosen_commits:
  fixes s :: "('d, 'w, 'z) node_scheme"
  assumes ex: "executes E v s0" "good E" "pv_machine_id v = mid" and solo: "solo view E v s0 s"
    and msg: "pm_type msg = NEW_CHOSEN_VALUE" "pm_instance_id msg = instance_id s0"
      "BallotNumber (pm_proposal_id msg) (pm_node_id msg) = accepted_ballot (acceptor s)"
    and v: "accepted_value (acceptor s) = v"
    and p: "\<not> was_rejected_by_someone (proposer s)"
      "promised_ballot (acceptor s) = BallotNumber (proposal_id (proposer s)) (cfg_node_id E)"
  shows "committed view effect E v s0 (OnPaxosMessage E msg s)"
proof -
  let ?s1 = "s\<lparr>learner := FinishLearnValue v (learner s)\<rparr>"
  let ?s2 = "Learner_BroadcastMessageToFollower E (accepted_ballot (acceptor s)) ?s1"
  have "OnPaxosMessage E msg s = CheckLearn E ?s2"
    using solo msg v by (subst OnPaxosMessage.simps) (simp add: solo_def OnNewChosenValue_def Let_def ballot_eq_def)
  moreover have "learner (?s2) = FinishLearnValue v (learner s)" "proposer ?s2 = proposer s" "acceptor ?s2 = acceptor s"
    by (simp_all add: Learner_BroadcastMessageToFollower_def)
  moreover have "solo view E v s0 (?s2\<lparr>learner := (learner ?s2)\<lparr>has_learned := False\<rparr>\<rparr>)"
    using solo by (simp add: solo_def Learner_BroadcastMessageToFollower_def FinishLearnValue_def)
  ultimately show ?thesis using CheckLearn_commits [OF ex] p by (simp add: FinishLearnValue_def)
qed

text \<open>A reply that refuses nothing leaves the proposer as it is.\<close>

lemma committed_reply:
  assumes "committed view effect E v s0 s" and "pm_rejected_id msg = 0"
  shows "CheckLearn E (s\<lparr>proposer := Proposer_SetMaxProposalId msg (proposer s)\<rparr>) = s"
  using assms by (auto simp: committed_def Proposer_SetMaxProposalId_def CheckLearn_def Let_def)

lemma committed_idle: "committed view effect E v s0 s \<Longrightarrow> CheckLearn E s = s"
  by (simp add: committed_def CheckLearn_def)

lemma solo_passes: "solo view E v s0 s \<Longrightarrow> promisors_or_acceptors c = {n} \<Longrightarrow> IsPassedOnThisRound s c"
  by (cases "ms_members (membership s)") (auto simp: solo_def IsPassedOnThisRound_def GetMajoritySize_def)

lemmas solo_simps = solo_def RemoveRetryTimer_def AddRetryTimer_def case_prod_beta Let_def

lemma AcceptReply_commits:
  fixes s :: "('d, 'w, 'z) node_scheme"
  assumes ex: "executes E v s0" "good E" "pv_machine_id v = mid" and solo: "solo view E v s0 s"
    and p: "accepting (proposer s)" "promisors_or_acceptors (counter (proposer s)) = {}"
    and msg: "pm_type msg = ACCEPT_REPLY" "pm_instance_id msg = instance_id s0" "pm_rejected_id msg = 0"
    and a: "accepted_ballot (acceptor s) = BallotNumber (proposal_id (proposer s)) (cfg_node_id E)"
      "accepted_value (acceptor s) = v" "\<not> was_rejected_by_someone (proposer s)"
      "promised_ballot (acceptor s) = BallotNumber (proposal_id (proposer s)) (cfg_node_id E)"
  shows "committed view effect E v s0 (OnPaxosMessage E msg s)"
proof -
  let ?p = "count_accept_reply msg (proposer s)"
  let ?s1 = "RemoveRetryTimer (s\<lparr>proposer := ?p\<lparr>accepting := False\<rparr>\<rparr>)"
  let ?s2 = "Proposer_NewChosenValue E (OnPaxosMessage E) ?s1"
  have "promisors_or_acceptors (counter ?p) = {pm_node_id msg}"
    using msg(3) p(2) by (simp add: count_accept_reply_def AddReceivedNode_def AddPromisorOrAcceptor_def)
  note pass = solo_passes [OF solo this]
  have "solo view E v s0 (BroadcastMessage c ?s1)" for c
    using solo by (simp add: solo_simps count_accept_reply_def)
  then have "committed view effect E v s0 ?s2"
    unfolding Proposer_NewChosenValue_def Let_def
    by (intro NewChosen_commits [OF ex]) (use solo a in \<open>simp_all add: solo_simps count_accept_reply_def\<close>)
  moreover have "OnPaxosMessage E msg s =
      CheckLearn E (?s2\<lparr>proposer := Proposer_SetMaxProposalId msg (proposer ?s2)\<rparr>)"
    using solo msg p(1) pass
    by (subst OnPaxosMessage.simps) (simp add: solo_def Let_def OnAccpetReply_def)
  ultimately show ?thesis using committed_reply msg(3) by metis
qed

lemma WriteToDB_solo:
  "solo view E v s0 (snd (Acceptor_WriteToDB E s)) \<longleftrightarrow> solo view E v s0 s"
  "proposer (snd (Acceptor_WriteToDB E s)) = proposer s"
  "accepted_ballot (acceptor (snd (Acceptor_WriteToDB E s))) = accepted_ballot (acceptor s)"
  "accepted_value (acceptor (snd (Acceptor_WriteToDB E s))) = accepted_value (acceptor s)"
  "promised_ballot (acceptor (snd (Acceptor_WriteToDB E s))) = promised_ballot (acceptor s)"
  by (simp_all add: Acceptor_WriteToDB_def solo_simps)

lemma Accept_commits:
  fixes s :: "('d, 'w, 'z) node_scheme"
  assumes ex: "executes E v s0" "good E" "pv_machine_id v = mid" and solo: "solo view E v s0 s"
    and b: "ballot_ge (BallotNumber (proposal_id (proposer s)) (cfg_node_id E)) (promised_ballot (acceptor s))"
      "\<not> was_rejected_by_someone (proposer s)"
  shows "committed view effect E v s0 (Accept E (OnPaxosMessage E) s)"
proof -
  let ?b = "BallotNumber (proposal_id (proposer s)) (cfg_node_id E)"
  let ?p = "(proposer s)\<lparr>preparing := False, accepting := True\<rparr>"
  let ?msg = "PaxosMessage_default\<lparr>pm_type := ACCEPT, pm_node_id := cfg_node_id E,
    pm_instance_id := instance_id s0, pm_proposal_id := proposal_id (proposer s), pm_value := v\<rparr>"
  define s1 where "s1 = BroadcastMessage (Content_paxos (cfg_group_id E) ?msg)
    (AddRetryTimer E 200000 (s\<lparr>proposer := ?p\<lparr>counter := StartNewRound (counter ?p)\<rparr>\<rparr>))"
  have acc: "Accept E (OnPaxosMessage E) s = OnPaxosMessage E ?msg s1"
    using solo by (simp add: Accept_def s1_def solo_def Let_def)
  have s1: "solo view E v s0 s1" "acceptor s1 = acceptor s" "accepting (proposer s1)"
      "promisors_or_acceptors (counter (proposer s1)) = {}" "proposal_id (proposer s1) = proposal_id (proposer s)"
      "\<not> was_rejected_by_someone (proposer s1)"
    using solo b(2) by (simp_all add: s1_def solo_simps StartNewRound_def RunAfter_view [OF ex(2)])
  let ?s2 = "snd (Acceptor_WriteToDB E (s1\<lparr>acceptor := (acceptor s)\<lparr>promised_ballot := ?b, accepted_ballot := ?b,
    accepted_value := v\<rparr>\<rparr>))"
  let ?reply = "PaxosMessage_default\<lparr>pm_type := ACCEPT_REPLY, pm_node_id := cfg_node_id E,
    pm_instance_id := instance_id s0, pm_proposal_id := proposal_id (proposer s)\<rparr>"
  have s2: "solo view E v s0 ?s2" unfolding WriteToDB_solo(1) using s1(1) solo by (simp add: solo_simps)
  have "committed view effect E v s0 (OnPaxosMessage E ?reply ?s2)"
    by (rule AcceptReply_commits [OF ex s2]) (use s1 in \<open>simp_all add: WriteToDB_solo PaxosMessage_default_def\<close>)
  moreover have "OnPaxosMessage E ?msg s1 = CheckLearn E (OnPaxosMessage E ?reply ?s2)"
    using s1(1,2) b(1) solo
    by (subst OnPaxosMessage.simps) (simp add: solo_simps Acceptor_OnAccpet_def reply_to_def)
  ultimately show ?thesis unfolding acc using committed_idle by metis
qed

lemma PrepareReply_commits:
  fixes s :: "('d, 'w, 'z) node_scheme"
  assumes ex: "executes E v s0" "good E" "pv_machine_id v = mid" and solo: "solo view E v s0 s"
    and p: "preparing (proposer s)" "promisors_or_acceptors (counter (proposer s)) = {}"
    and msg: "pm_type msg = PREPARE_REPLY" "pm_instance_id msg = instance_id s0" "pm_rejected_id msg = 0"
      "pm_pre_accepted_id msg = 0" "pm_pre_accepted_node_id msg = 0"
    and b: "promised_ballot (acceptor s) = BallotNumber (proposal_id (proposer s)) (cfg_node_id E)"
      "max_ballot (proposer s) = Ballot_default" "\<not> was_rejected_by_someone (proposer s)"
  shows "committed view effect E v s0 (OnPaxosMessage E msg s)"
proof -
  let ?p = "count_prepare_reply msg (proposer s)"
  let ?s1 = "RemoveRetryTimer (s\<lparr>proposer := ?p\<lparr>preparing := False, skip_prepare := True\<rparr>\<rparr>)"
  let ?s2 = "Accept E (OnPaxosMessage E) ?s1"
  have p': "?p = (proposer s)\<lparr>counter := AddPromisorOrAcceptor (pm_node_id msg)
      (AddReceivedNode (pm_node_id msg) (counter (proposer s)))\<rparr>"
    using msg b(2) by (simp add: count_prepare_reply_def Let_def ballot_gt_def Ballot_default_def)
  have "promisors_or_acceptors (counter ?p) = {pm_node_id msg}"
    using p(2) by (simp add: p' AddReceivedNode_def AddPromisorOrAcceptor_def)
  note pass = solo_passes [OF solo this]
  have s1: "solo view E v s0 ?s1" using solo by (simp add: solo_simps p')
  have "committed view effect E v s0 ?s2"
    by (rule Accept_commits [OF ex s1]) (simp_all add: p' RemoveRetryTimer_def b(1,3) ballot_ge_def ballot_gt_def ballot_eq_def)
  moreover have "OnPaxosMessage E msg s =
      CheckLearn E (?s2\<lparr>proposer := Proposer_SetMaxProposalId msg (proposer ?s2)\<rparr>)"
    using solo msg p(1) pass by (subst OnPaxosMessage.simps) (simp add: solo_def Let_def OnPrepareReply_def)
  ultimately show ?thesis using committed_reply msg(3) by metis
qed

lemma Prepare_commits:
  fixes s :: "('d, 'w, 'z) node_scheme"
  assumes ex: "executes E v s0" "good E" "pv_machine_id v = mid" and solo: "solo view E v s0 s"
    and p: "0 < proposal_id (start_prepare new (proposer s))"
      "ballot_ge (BallotNumber (proposal_id (start_prepare new (proposer s))) (cfg_node_id E)) (promised_ballot (acceptor s))"
    and a: "GetProposalId (accepted_ballot (acceptor s)) = 0"
  shows "committed view effect E v s0 (Prepare E (OnPaxosMessage E) new s)"
proof -
  define q where "q = start_prepare new (proposer s)"
  have q: "preparing q" "max_ballot q = Ballot_default" "pro_value q = pro_value (proposer s)"
      "pro_instance_id q = pro_instance_id (proposer s)" "0 < proposal_id q" "\<not> was_rejected_by_someone q"
    using p(1) by (simp_all add: q_def start_prepare_def Let_def)
  let ?b = "BallotNumber (proposal_id q) (cfg_node_id E)"
  let ?msg = "PaxosMessage_default\<lparr>pm_type := PREPARE, pm_node_id := cfg_node_id E,
    pm_instance_id := instance_id s0, pm_proposal_id := proposal_id q\<rparr>"
  define s1 where "s1 = BroadcastMessage (Content_paxos (cfg_group_id E) ?msg)
    (AddRetryTimer E 200000 (s\<lparr>proposer := q\<lparr>counter := StartNewRound (counter q)\<rparr>\<rparr>))"
  have pre: "Prepare E (OnPaxosMessage E) new s = OnPaxosMessage E ?msg s1"
    using solo by (simp add: Prepare_def s1_def solo_def Let_def q_def [symmetric] q(4))
  have s1: "solo view E v s0 s1" "acceptor s1 = acceptor s" "preparing (proposer s1)"
      "promisors_or_acceptors (counter (proposer s1)) = {}" "proposal_id (proposer s1) = proposal_id q"
      "max_ballot (proposer s1) = Ballot_default" "\<not> was_rejected_by_someone (proposer s1)"
    using solo q by (simp_all add: s1_def solo_simps StartNewRound_def RunAfter_view [OF ex(2)])
  let ?s2 = "snd (Acceptor_WriteToDB E (s1\<lparr>acceptor := (acceptor s)\<lparr>promised_ballot := ?b\<rparr>\<rparr>))"
  let ?reply = "PaxosMessage_default\<lparr>pm_type := PREPARE_REPLY, pm_node_id := cfg_node_id E,
    pm_instance_id := instance_id s0, pm_proposal_id := proposal_id q\<rparr>"
  have s2: "solo view E v s0 ?s2" unfolding WriteToDB_solo(1) using s1(1) solo by (simp add: solo_def)
  have "committed view effect E v s0 (OnPaxosMessage E ?reply ?s2)"
    by (rule PrepareReply_commits [OF ex s2])
      (use s1 in \<open>simp_all add: WriteToDB_solo PaxosMessage_default_def\<close>)
  moreover have "OnPaxosMessage E ?msg s1 = CheckLearn E (OnPaxosMessage E ?reply ?s2)"
    using s1(1,2) p(2) a solo
    by (subst OnPaxosMessage.simps) (simp add: solo_def Acceptor_OnPrepare_def reply_to_def Let_def q_def [symmetric])
  ultimately show ?thesis unfolding pre using committed_idle by metis
qed

section \<open>A proposal\<close>

lemma OnPropose_alone:
  fixes s :: "('d, 'w, 'z) node_scheme" and ctx :: ctx_ptr
  assumes "alone E s" and "executes E \<lparr>pv_value_id = 0, pv_machine_id = mid, pv_user_data = d\<rparr> s" and good: "good E"
  defines "s' \<equiv> Instance_OnPropose E mid d ctx s"
  shows "\<exists>i. committed view effect E \<lparr>pv_value_id = i, pv_machine_id = mid, pv_user_data = d\<rparr> (s\<lparr>context_ptr := ctx\<rparr>) s'"
proof -
  obtain i s1 where i: "GetPaxosValueId E (s\<lparr>is_proposing := True, context_ptr := ctx\<rparr>) = (i, s1)" by fastforce
  let ?v = "\<lparr>pv_value_id = i, pv_machine_id = mid, pv_user_data = d\<rparr>"
  define s2 where "s2 = (snd (io_RunAfter E (cfg_propose_timeout E) ProposeTimer (s1\<lparr>propose_value := ?v\<rparr>)))
    \<lparr>propose_timer := fst (io_RunAfter E (cfg_propose_timeout E) ProposeTimer (s1\<lparr>propose_value := ?v\<rparr>))\<rparr>"
  define s3 where "s3 = s2\<lparr>proposer := (proposer s2)\<lparr>pro_value := ?v\<rparr>\<rparr>"
  let ?s0 = "s\<lparr>context_ptr := ctx\<rparr>"
  have f: "proposer s1 = proposer s" "acceptor s1 = acceptor s" "learner s1 = learner s"
      "instance_id s1 = instance_id s" "is_proposing s1" "context_ptr s1 = ctx" "membership s1 = membership s"
      "machines s1 = machines s" "latest_checkpoint_instance_id s1 = latest_checkpoint_instance_id s"
      "aborted s1 = aborted s" "queue s1 = queue s" "callback_loop s1 = callback_loop s"
      "view (world s1) = view (world s)"
    using i by (auto simp: GetPaxosValueId_def Let_def in_world_def case_prod_beta NowMillis_view [OF good] random_view [OF good])
  have solo: "solo view E ?v ?s0 s3" and ex: "executes E ?v ?s0" "good E" "pv_machine_id ?v = mid"
    using assms(1,2) good f
    by (simp_all add: solo_def s3_def s2_def alone_def node_ok_def Let_def executes_def RunAfter_view [OF good])
  have p3: "proposer s3 = (proposer s)\<lparr>pro_value := ?v\<rparr>" "acceptor s3 = acceptor s"
    using f by (simp_all add: s3_def s2_def)
  have same: "proposal_id (start_prepare b (p\<lparr>pro_value := x\<rparr>)) = proposal_id (start_prepare b p)" for b p x
    by (simp add: start_prepare_def Let_def)
  have "IsValidNodeId (cfg_node_id E) s"
    using assms(1) by (cases "ms_members (membership s)") (auto simp: alone_def IsValidNodeId_def)
  then have run: "s' = NewPropose E (OnPaxosMessage E) ?v s2"
    using assms(1) by (simp add: s'_def Instance_OnPropose_def i alone_def s2_def case_prod_beta Let_def)
  have "committed view effect E ?v ?s0 s'"
  proof (cases "skip_prepare (proposer s) \<and> \<not> was_rejected_by_someone (proposer s)")
    case True
    then have "s' = Accept E (OnPaxosMessage E) s3"
      using f by (simp add: run NewPropose_def s3_def s2_def Let_def)
    moreover have "ballot_ge (BallotNumber (proposal_id (proposer s3)) (cfg_node_id E)) (promised_ballot (acceptor s3))"
      "\<not> was_rejected_by_someone (proposer s3)"
      using assms(1) True by (simp_all add: alone_def Let_def p3)
    ultimately show ?thesis using Accept_commits [OF ex solo] by simp
  next
    case False
    let ?new = "was_rejected_by_someone (proposer s)"
    have "s' = Prepare E (OnPaxosMessage E) ?new s3"
      using False f by (auto simp: run NewPropose_def s3_def s2_def Let_def)
    moreover have "0 < proposal_id (start_prepare ?new (proposer s3))"
      "ballot_ge (BallotNumber (proposal_id (start_prepare ?new (proposer s3))) (cfg_node_id E)) (promised_ballot (acceptor s3))"
      "GetProposalId (accepted_ballot (acceptor s3)) = 0"
      using assms(1) False by (auto simp: alone_def Let_def p3 same)
    ultimately show ?thesis using Prepare_commits [OF ex solo] by simp
  qed
  then show ?thesis by blast
qed

end

text \<open>
  C16. Progress of a group of one: when the node is alone in its group and idle, a proposal for
  a machine of the user that executes it is chosen and executed before \<^verbatim>\<open>OnPropose\<close> returns. For any
  machine that keeps the contract of a replicated one, its state, seen through \<open>view\<close>, has changed
  by the effect of the proposal, once. The node is then at the next instance, with the acceptor
  and the other roles moved on: it is alone and idle again, so that the next proposal finds the same
  conditions. The callback of the proposal is queued with the status OK and the instance, and no
  assertion has failed.
\<close>

theorem OnPropose_commits:
  fixes s :: "('d, 'w, 'z) node_scheme" and ctx :: ctx_ptr
  assumes "replicated_machine good view m effect" and "good E"
    and "alone E s" and "executes E \<lparr>pv_value_id = 0, pv_machine_id = m, pv_user_data = d\<rparr> s"
    and "\<not> aborted s"
  defines "s' \<equiv> Instance_OnPropose E m d ctx s"
  shows "instance_id s' = instance_id s + 1 \<and> max_chosen_id s' = instance_id s \<and>
    view (world s') = effect d (view (world s)) \<and> alone E s' \<and> \<not> aborted s' \<and>
    \<not> is_proposing s' \<and> context_ptr s' = Null \<and>
    cb_queue (queue s') = tl (cb_queue (queue s)) \<and>
    funcs (callback_loop s') = funcs (callback_loop s) @
      [Func (hd (cb_queue (queue s)), instance_id s, Status_OK, ctx)]"
  using replicated_machine.OnPropose_alone [OF assms(1,3,4,2), of ctx] assms(5)
  by (auto simp: s'_def committed_def alone_def)

end
