(* ===== verification/Networks.thy ===== *)
theory Networks
  imports Node
begin

text \<open>
  \<^verbatim>\<open>Network\<close>, \<^verbatim>\<open>src/network/network.cc\<close>: the framing of contents on a byte
  stream and the routing of outgoing messages. Connections and event loops belong to the
  Voyager library: a client is what the code asks of it, whether it is connected, and what it
  is told to do is recorded in order.
\<close>

section \<open>Framing\<close>

definition kNetHeaderSize :: u32 where
  "kNetHeaderSize = 4"

definition SerializeToString :: "('d, 'w) env \<Rightarrow> Content \<Rightarrow> bool \<times> bytes" where
  "SerializeToString E content =
     (let sz = kNetHeaderSize + ucast (content_size E content)
      in case ser_content E content of
           (True, b) \<Rightarrow> (True, encode32 E sz @ b)
         | (False, _) \<Rightarrow> (False, []))"

lemma frame_length: "\<not> 0x80000000 \<le> sz - 4 \<Longrightarrow> 4 \<le> sz" for sz :: u32
  by (simp add: word_le_nat_alt unat_sub_if' split: if_splits)

text \<open>
  \<^verbatim>\<open>OnMessage\<close> on the bytes the connection has buffered: the contents it hands to the
  callback, the bytes it leaves in the buffer, and whether it shuts the connection down. The
  length handed to the parser is a signed \<^verbatim>\<open>int\<close>: a size field below the header size,
  or one of more than two gigabytes, makes it negative, which is not defined: \<^const>\<open>None\<close>.
\<close>

function OnMessage :: "('d, 'w) env \<Rightarrow> bytes \<Rightarrow> (Content list \<times> bytes \<times> bool) option" where
  "OnMessage E buf =
     (if length buf \<ge> unat kNetHeaderSize then
        (let sz = decode32 E buf
         in if length buf \<ge> unat sz then
              (if sz - kNetHeaderSize \<ge> 0x80000000 then None
               else (case parse_content E (take (unat (sz - kNetHeaderSize)) (drop (unat kNetHeaderSize) buf)) of
                  (True, content) \<Rightarrow>
                    map_option (\<lambda>(cs, rest, down). (content # cs, rest, down)) (OnMessage E (drop (unat sz) buf))
                | (False, _) \<Rightarrow> Some ([], buf, True)))
            else Some ([], buf, False))
      else Some ([], buf, False))"
  by pat_completeness auto
termination
proof (relation "measure (\<lambda>(E, buf). length buf)")
  fix E :: "('d, 'w) env" and buf sz
  assume "unat kNetHeaderSize \<le> length buf" "\<not> 0x80000000 \<le> sz - kNetHeaderSize"
  then show "((E, drop (unat sz) buf), E, buf) \<in> measure (\<lambda>(E, buf). length buf)"
    using frame_length [of sz] by (auto simp: kNetHeaderSize_def word_le_nat_alt)
qed simp

declare OnMessage.simps [simp del]

section \<open>Routing\<close>

datatype net_action = Send u64 bytes | Connect MemberMessage bytes

text \<open>\<^verbatim>\<open>connection_map_\<close>: for each node with a client, whether the client has a
  connection (\<^verbatim>\<open>GetTcpConnectionPtr\<close> is not null).\<close>

record network =
  my_id :: u64
  connection_map :: "(u64 \<times> bool) list"
  actions :: "net_action list"

definition SendMessageInLoop :: "MemberMessage \<Rightarrow> bytes \<Rightarrow> network \<Rightarrow> network" where
  "SendMessageInLoop member s n =
     n\<lparr>actions := actions n @ [Connect member s],
       connection_map := (if map_of (connection_map n) (mb_id member) = None
          then AList.update (mb_id member) False (connection_map n) else connection_map n)\<rparr>"

text \<open>The two closures run in the network loop, on the membership and cluster of that
  moment. What is sent for a content that does not serialise is the empty string. A node whose connection is still being set up
  gets nothing.\<close>

definition send_known :: "u64 \<Rightarrow> bool \<Rightarrow> bytes \<Rightarrow> network \<Rightarrow> network" where
  "send_known node_id up s n = (if up then n\<lparr>actions := actions n @ [Send node_id s]\<rparr> else n)"

definition Network_SendMessage ::
    "('d, 'w) env \<Rightarrow> Membership \<Rightarrow> 'w \<Rightarrow> u64 \<Rightarrow> Content \<Rightarrow> network \<Rightarrow> network" where
  "Network_SendMessage E members w node_id content n =
     (let s = snd (SerializeToString E content)
      in case map_of (connection_map n) node_id of
        Some up \<Rightarrow> send_known node_id up s n
      | None \<Rightarrow>
         (if has_cluster E then
            (case map_of (newest_membership E (cfg_group_id E) w) node_id of
               Some m \<Rightarrow> SendMessageInLoop ((member_message m)\<lparr>mb_context := []\<rparr>) s n
             | None \<Rightarrow> n)
          else
            (case map_of (ms_members members) node_id of
               Some m \<Rightarrow> SendMessageInLoop m s n
             | None \<Rightarrow> n)))"

definition multicast_one :: "bytes \<Rightarrow> u64 \<times> MemberMessage \<Rightarrow> network \<Rightarrow> network" where
  "multicast_one s i n =
     (if fst i \<noteq> my_id n then
        (case map_of (connection_map n) (fst i) of
           Some up \<Rightarrow> send_known (fst i) up s n
         | None \<Rightarrow> SendMessageInLoop (snd i) s n)
      else n)"

definition Network_Multicast :: "('d, 'w) env \<Rightarrow> Membership \<Rightarrow> Content \<Rightarrow> network \<Rightarrow> network" where
  "Network_Multicast E m content n =
     fold (multicast_one (snd (SerializeToString E content))) (ms_members m) n"

text \<open>The callbacks of a client: the connection is there, with the message it was opened for;
  the connection was closed or could not be made.\<close>

definition on_connected :: "u64 \<Rightarrow> bytes \<Rightarrow> network \<Rightarrow> network" where
  "on_connected node_id s n =
     n\<lparr>actions := actions n @ [Send node_id s],
       connection_map := map (\<lambda>(i, up). (i, if i = node_id then True else up)) (connection_map n)\<rparr>"

definition on_closed :: "u64 \<Rightarrow> network \<Rightarrow> network" where
  "on_closed node_id n = n\<lparr>connection_map := AList.delete node_id (connection_map n)\<rparr>"

lemmas [op_defs] = kNetHeaderSize_def SerializeToString_def SendMessageInLoop_def send_known_def
  Network_SendMessage_def multicast_one_def Network_Multicast_def on_connected_def on_closed_def

section \<open>Frames survive the stream\<close>

text \<open>Every four bytes are the encoding of some number: there are as many of them.\<close>

lemma encode32_onto:
  assumes "coding_ok E" and "length a = 4"
  obtains n where "a = encode32 E n"
proof -
  let ?S = "{xs :: bytes. length xs = 4}"
  have inj: "inj (encode32 E)" by (rule inj_on_inverseI [of _ "decode32 E"]) (simp add: coding_okD(3) [OF assms(1)])
  have card: "card ?S = card (UNIV :: u8 set) ^ 4" "finite ?S"
    using card_lists_length_eq [of "UNIV :: u8 set" 4] finite_lists_length_eq [of "UNIV :: u8 set" 4] by simp_all
  have "card (range (encode32 E)) = card ?S"
    using inj by (simp add: card_image card(1) card_word)
  moreover have "range (encode32 E) \<subseteq> ?S" using coding_okD(5) [OF assms(1)] by auto
  ultimately have "range (encode32 E) = ?S" using card(2) by (simp add: card_subset_eq)
  with assms(2) that show thesis by blast
qed

lemma decode32_prefix:
  assumes "coding_ok E" and "4 \<le> length a"
  shows "decode32 E (a @ b) = decode32 E a"
proof -
  obtain n where n: "take 4 a = encode32 E n" using encode32_onto [OF assms(1), of "take 4 a"] assms(2) by auto
  have "a = encode32 E n @ drop 4 a" by (metis append_take_drop_id n)
  then show ?thesis by (metis append.assoc coding_okD(1) [OF assms(1)])
qed

text \<open>One turn of the loop, when a whole frame is there.\<close>

lemma OnMessage_frame:
  assumes "4 \<le> length a" "decode32 E a = sz" "unat sz \<le> length a"
  shows "OnMessage E a =
    (if 0x80000000 \<le> sz - 4 then None
     else (case parse_content E (take (unat (sz - 4)) (drop 4 a)) of
        (True, c) \<Rightarrow> map_option (\<lambda>(cs, r, d). (c # cs, r, d)) (OnMessage E (drop (unat sz) a))
      | (False, _) \<Rightarrow> Some ([], a, True)))"
  using assms by (subst OnMessage.simps) (simp add: kNetHeaderSize_def Let_def)

lemma OnMessage_wait:
  "\<not> (4 \<le> length a \<and> unat (decode32 E a) \<le> length a) \<Longrightarrow> OnMessage E a = Some ([], a, False)"
  by (subst OnMessage.simps) (auto simp: kNetHeaderSize_def Let_def)

lemma frame_bytes:
  assumes "unat (sz :: u32) \<le> length a" "4 \<le> sz"
  shows "take (unat (sz - 4)) (drop 4 (a @ b)) = take (unat (sz - 4)) (drop 4 a)"
    and "drop (unat sz) (a @ b) = drop (unat sz) a @ b"
    and "length (drop (unat sz) a) < length a"
proof -
  have "unat (sz - 4) = unat sz - 4" "4 \<le> unat sz" using assms(2) by (simp_all add: unat_sub word_le_nat_alt)
  with assms(1) show "take (unat (sz - 4)) (drop 4 (a @ b)) = take (unat (sz - 4)) (drop 4 a)"
    "drop (unat sz) (a @ b) = drop (unat sz) a @ b" "length (drop (unat sz) a) < length a"
    by auto
qed

text \<open>What is delivered does not depend on how the stream is cut: whatever the loop does with
  a buffer, it does the same with any longer one, and goes on from the rest it left.\<close>

lemma OnMessage_append:
  assumes "coding_ok E"
  shows "OnMessage E (a @ b) =
    (case OnMessage E a of
       None \<Rightarrow> None
     | Some (cs, r, d) \<Rightarrow> if d then Some (cs, r @ b, True)
        else map_option (\<lambda>(xs, r, d). (cs @ xs, r, d)) (OnMessage E (r @ b)))"
proof (induction "length a" arbitrary: a rule: less_induct)
  case less
  show ?case
  proof (cases "4 \<le> length a \<and> unat (decode32 E a) \<le> length a")
    case False
    then show ?thesis by (simp add: OnMessage_wait case_prod_beta option.map_id)
  next
    case True
    let ?sz = "decode32 E a"
    have d: "decode32 E (a @ b) = ?sz" using decode32_prefix [OF assms] True by simp
    note a = OnMessage_frame [of a E ?sz] and ab = OnMessage_frame [of "a @ b" E ?sz]
    show ?thesis
    proof (cases "0x80000000 \<le> ?sz - 4")
      case True
      with \<open>4 \<le> length a \<and> _\<close> a ab d show ?thesis by simp
    next
      case False
      then have four: "4 \<le> ?sz" by (rule frame_length)
      note f = frame_bytes [OF conjunct2 [OF True] four]
      obtain ok c where p: "parse_content E (take (unat (?sz - 4)) (drop 4 a)) = (ok, c)" by fastforce
      have a': "OnMessage E a = (if ok then map_option (\<lambda>(cs, r, d). (c # cs, r, d)) (OnMessage E (drop (unat ?sz) a))
          else Some ([], a, True))"
        using a True False p by simp
      have ab': "OnMessage E (a @ b) = (if ok
          then map_option (\<lambda>(cs, r, d). (c # cs, r, d)) (OnMessage E (drop (unat ?sz) a @ b))
          else Some ([], a @ b, True))"
        using ab [unfolded f(1,2)] True d p False by simp
      show ?thesis
        unfolding a' ab' less [OF f(3)]
        by (cases "OnMessage E (drop (unat ?sz) a)") (auto simp: option.map_comp o_def case_prod_beta intro!: option.map_cong0)
    qed
  qed
qed

lemma OnMessage_rest: "OnMessage E a = Some (cs, r, False) \<Longrightarrow> OnMessage E r = Some ([], r, False)"
proof (induction "length a" arbitrary: a cs rule: less_induct)
  case less
  show ?case
  proof (cases "4 \<le> length a \<and> unat (decode32 E a) \<le> length a")
    case False
    with less.prems show ?thesis by (simp add: OnMessage_wait)
  next
    case True
    with less.prems have four: "4 \<le> decode32 E a"
      by (auto simp: OnMessage_frame [of a E] intro: frame_length split: if_splits)
    from True less.prems obtain cs' where
      "OnMessage E (drop (unat (decode32 E a)) a) = Some (cs', r, False)"
      by (auto simp: OnMessage_frame [of a E] split: if_splits prod.splits bool.splits)
    with less.hyps [OF frame_bytes(3) [OF conjunct2 [OF True] four]] show ?thesis by simp
  qed
qed

section \<open>A connection\<close>

text \<open>The bytes of a connection in the pieces they arrive in, each appended to what is left in
  the buffer.\<close>

fun feed :: "('d, 'w) env \<Rightarrow> bytes list \<Rightarrow> bytes \<Rightarrow> (Content list \<times> bytes \<times> bool) option" where
  "feed E [] buf = Some ([], buf, False)"
| "feed E (piece # pieces) buf =
     (case OnMessage E (buf @ piece) of
        None \<Rightarrow> None
      | Some (cs, rest, down) \<Rightarrow>
         (if down then Some (cs, rest, True)
          else map_option (\<lambda>(xs, r, d). (cs @ xs, r, d)) (feed E pieces rest)))"

lemma feed_whole:
  assumes "coding_ok E" and "OnMessage E (buf @ concat pieces) = Some (cs, r, False)"
    and "OnMessage E buf = Some ([], buf, False)"
  shows "feed E pieces buf = Some (cs, r, False)"
  using assms(2,3)
proof (induction pieces arbitrary: buf cs)
  case Nil
  then show ?case by simp
next
  case (Cons p ps)
  have whole: "OnMessage E ((buf @ p) @ concat ps) = Some (cs, r, False)" using Cons.prems(1) by simp
  note whole = whole [unfolded OnMessage_append [OF assms(1), of "buf @ p"]]
  then obtain cs1 r1 where p: "OnMessage E (buf @ p) = Some (cs1, r1, False)"
    by (auto split: option.splits if_splits)
  with whole obtain cs2 where c: "OnMessage E (r1 @ concat ps) = Some (cs2, r, False)" "cs = cs1 @ cs2"
    by auto
  from Cons.IH [OF c(1) OnMessage_rest [OF p]] show ?case by (simp add: p c(2))
qed

lemma OnMessage_frames:
  assumes cod: "coding_ok E" and codec: "content_codec_ok E"
    and cs: "\<forall>c \<in> set cs. fst (SerializeToString E c) \<and> unat (content_size E c) < 2 ^ 31"
  shows "OnMessage E (concat (map (\<lambda>c. snd (SerializeToString E c)) cs)) = Some (cs, [], False)"
  using cs
proof (induction cs)
  case Nil
  then show ?case by (subst OnMessage.simps) (simp add: kNetHeaderSize_def)
next
  case (Cons c cs)
  define sz :: u32 where "sz = 4 + ucast (content_size E c)"
  obtain b where b: "ser_content E c = (True, b)"
    using Cons.prems by (auto simp: SerializeToString_def split: prod.splits bool.splits)
  have p: "parse_content E b = (True, c)" "length b = unat (content_size E c)"
    using codec b by (auto simp: content_codec_ok_def)
  have lt: "unat (content_size E c) < 2 ^ 31" using Cons.prems by simp
  then have narrow: "unat (ucast (content_size E c) :: u32) = unat (content_size E c)"
    by (simp add: unsigned_ucast_eq take_bit_nat_eq_self)
  with lt have sz: "unat sz = 4 + length b"
    unfolding sz_def by (subst unat_add_lem [THEN iffD1]) (simp_all add: p(2))
  have sz4: "unat (sz - 4) = length b" using narrow by (simp add: sz_def p(2))
  with lt have four: "\<not> 0x80000000 \<le> sz - 4" by (simp add: word_le_nat_alt p(2))
  let ?rest = "concat (map (\<lambda>c. snd (SerializeToString E c)) cs)"
  have f: "concat (map (\<lambda>c. snd (SerializeToString E c)) (c # cs)) = encode32 E sz @ b @ ?rest"
    by (simp add: SerializeToString_def b kNetHeaderSize_def sz_def)
  have len: "length (encode32 E sz) = 4" and dec: "decode32 E (encode32 E sz @ b @ ?rest) = sz"
    using coding_okD(5,1) [OF cod] by simp_all
  have "OnMessage E (encode32 E sz @ b @ ?rest) = Some (c # cs, [], False)"
    using Cons four
    by (subst OnMessage_frame [OF _ dec]) (simp_all add: len sz sz4 p(1))
  then show ?case by (simp only: f)
qed

text \<open>
  C26. What one node sends another receives: the frames of any sequence of contents, put on
  one connection and cut into pieces in any way, are handed to the callback as exactly these
  contents in this order, nothing is left in the buffer and the connection stays up, provided
  the contents serialise and are below the two gigabytes of a protobuf message.
\<close>

theorem frames_roundtrip:
  assumes "coding_ok E" and "content_codec_ok E"
    and "\<forall>c \<in> set cs. fst (SerializeToString E c) \<and> unat (content_size E c) < 2 ^ 31"
    and "concat pieces = concat (map (\<lambda>c. snd (SerializeToString E c)) cs)"
  shows "feed E pieces [] = Some (cs, [], False)"
proof (rule feed_whole [OF assms(1)])
  show "OnMessage E ([] @ concat pieces) = Some (cs, [], False)"
    using OnMessage_frames [OF assms(1-3)] by (simp add: assms(4))
  show "OnMessage E [] = Some ([], [], False)"
    by (subst OnMessage.simps) (simp add: kNetHeaderSize_def)
qed

section \<open>Who gets a multicast\<close>

lemma multicast_one_frame:
  "my_id (multicast_one s i n) = my_id n"
  "fst i \<noteq> k \<Longrightarrow> mb_id (snd i) = fst i \<Longrightarrow>
     map_of (connection_map (multicast_one s i n)) k = map_of (connection_map n) k"
  by (auto simp: multicast_one_def send_known_def SendMessageInLoop_def update_conv' split: option.split)

text \<open>
  C31. What a multicast does for each member of the membership, in their order: nothing for the node
  itself; a member with a live connection gets the message on it, once; a member without a client
  gets a new connection that carries it; a member whose connection is still being made gets
  nothing, the message is lost for it.
\<close>

theorem Multicast_addresses:
  fixes E :: "('d, 'w) env" and content
  defines "s \<equiv> snd (SerializeToString E content)"
  assumes "distinct (map fst (ms_members m))" and "\<forall>(i, mb) \<in> set (ms_members m). mb_id mb = i"
  shows "actions (Network_Multicast E m content n) = actions n @
    concat (map (\<lambda>(i, mb). if i = my_id n then []
      else (case map_of (connection_map n) i of
          Some True \<Rightarrow> [Send i s] | Some False \<Rightarrow> [] | None \<Rightarrow> [Connect mb s])) (ms_members m))"
proof -
  define want where "want n = (\<lambda>(i, mb). if i = my_id n then []
      else (case map_of (connection_map n) i of
          Some True \<Rightarrow> [Send i s] | Some False \<Rightarrow> [] | None \<Rightarrow> [Connect mb s]))" for n :: network
  have "actions (fold (multicast_one s) ms n) = actions n @ concat (map (want n) ms)"
    if "distinct (map fst ms)" "\<forall>(i, mb) \<in> set ms. mb_id mb = i" for ms
    using that
  proof (induction ms arbitrary: n)
    case (Cons x ms)
    let ?n = "multicast_one s x n"
    have one: "actions ?n = actions n @ want n x"
      by (cases x) (auto simp: want_def multicast_one_def send_known_def SendMessageInLoop_def split: option.split bool.split)
    have "want ?n y = want n y" if "y \<in> set ms" for y
    proof -
      have "fst x \<noteq> fst y" using that Cons.prems(1) by (auto simp: image_iff)
      moreover have "mb_id (snd x) = fst x" using Cons.prems(2) by auto
      ultimately show ?thesis using multicast_one_frame(2) [of x "fst y" s n]
        by (cases y) (simp add: want_def multicast_one_frame(1))
    qed
    then have same: "map (want ?n) ms = map (want n) ms" by (rule map_cong [OF refl])
    show ?case using Cons.IH [of ?n] Cons.prems one by (simp add: same)
  qed simp
  from this [OF assms(2,3)] show ?thesis by (simp add: Network_Multicast_def want_def s_def)
qed

end
