(* ===== verification/Sending.thy ===== *)
theory Sending
  imports Learners
begin

text \<open>
  Sending a checkpoint: \<^verbatim>\<open>src/log/checkpoint_sender.cc\<close>. The sender runs in the learn
  loop; its confirmations are handled by the io loop (\<^const>\<open>OnComfirmReceive\<close>) under a
  mutex that the sender takes in \<^verbatim>\<open>CheckReceive\<close> only. The interleaving is explicit: for
  each call of \<^verbatim>\<open>CheckReceive\<close>, the confirmations handled since the last one and what
  happens in each of its waits.
\<close>

section \<open>CheckpointSender\<close>

definition kBufferSize :: nat where
  "kBufferSize = 65535"

text \<open>One \<^verbatim>\<open>wait_for\<close> on the condition: it is woken after some confirmations (none, when
  woken spuriously), or its ten seconds pass.\<close>

datatype wait = Woken "CheckpointMessage list" | TimedOut "CheckpointMessage list"

type_synonym wait_schedule = "(CheckpointMessage list \<times> wait list) list"

definition confirm :: "CheckpointMessage list \<Rightarrow> CheckpointSender \<Rightarrow> CheckpointSender" where
  "confirm msgs c = fold OnComfirmReceive msgs c"

text \<open>The loop of \<^verbatim>\<open>CheckReceive\<close>, whose comparison is on signed integers. After the
  events given nothing more happens, and the next wait times out.\<close>

fun wait_loop :: "wait list \<Rightarrow> CheckpointSender \<Rightarrow> CheckpointSender" where
  "wait_loop ws c =
     (if snd_flag c \<and> ack_sequence_id c + 16 <s snd_sequence_id c then
        (case ws of
           [] \<Rightarrow> c
         | Woken msgs # ws' \<Rightarrow> wait_loop ws' (confirm msgs c)
         | TimedOut msgs # _ \<Rightarrow> confirm msgs c)
      else c)"

declare wait_loop.simps [simp del]

definition CheckReceive :: "CheckpointMessage list \<times> wait list \<Rightarrow> CheckpointSender \<Rightarrow> bool \<times> CheckpointSender" where
  "CheckReceive ev c = (let c' = wait_loop (snd ev) (confirm (fst ev) c) in (snd_flag c', c'))"

definition next_event :: "wait_schedule \<Rightarrow> CheckpointMessage list \<times> wait list" where
  "next_event sched = (case sched of [] \<Rightarrow> ([], []) | ev # _ \<Rightarrow> ev)"

text \<open>Sending to the receiver, with the current sequence number; \<^verbatim>\<open>sequence_id_++\<close> is
  the second operation.\<close>

definition send_to_receiver ::
    "('d, 'w) env \<Rightarrow> CheckpointMessage \<Rightarrow> ('d, 'w, 'z) node_scheme \<Rightarrow> ('d, 'w, 'z) node_scheme" where
  "send_to_receiver E msg s =
     Messager_SendMessage E (receiver_node_id (sender s))
       (Content_checkpoint (cfg_group_id E) (msg\<lparr>cm_sequence_id := snd_sequence_id (sender s)\<rparr>)) s"

definition next_sequence :: "('d, 'w, 'z) node_scheme \<Rightarrow> ('d, 'w, 'z) node_scheme" where
  "next_sequence s = s\<lparr>sender := (sender s)\<lparr>snd_sequence_id := snd_sequence_id (sender s) + 1\<rparr>\<rparr>"

definition BeginToSend ::
    "('d, 'w) env \<Rightarrow> u64 \<Rightarrow> ('d, 'w, 'z) node_scheme \<Rightarrow> ('d, 'w, 'z) node_scheme" where
  "BeginToSend E i s =
     next_sequence (send_to_receiver E
       (CheckpointMessage_default\<lparr>cm_type := CHECKPOINT_BEGIN, cm_node_id := cfg_node_id E,
          cm_instance_id := i\<rparr>) s)"

definition EndToSend ::
    "('d, 'w) env \<Rightarrow> u64 \<Rightarrow> ('d, 'w, 'z) node_scheme \<Rightarrow> ('d, 'w, 'z) node_scheme" where
  "EndToSend E i s =
     send_to_receiver E
       (CheckpointMessage_default\<lparr>cm_type := CHECKPOINT_END, cm_node_id := cfg_node_id E,
          cm_instance_id := i\<rparr>) s"

text \<open>The loop of \<^verbatim>\<open>SendFile\<close>: the result, the events left and the node.\<close>

partial_function (option) send_file_loop ::
    "('d, 'w) env \<Rightarrow> string \<Rightarrow> nat \<Rightarrow> CheckpointMessage \<Rightarrow> u64 \<Rightarrow> wait_schedule \<Rightarrow> ('d, 'w, 'z) node_scheme \<Rightarrow>
      (bool \<times> wait_schedule \<times> ('d, 'w, 'z) node_scheme) option" where
  "send_file_loop E fname f msg offset sched s =
     (case in_world (SequentialFile_Read E fname f kBufferSize) s of
        ((st, fragment), s1) \<Rightarrow>
          (if \<not> Status_ok st then Some (False, sched, s1)
           else if fragment = [] then Some (True, sched, s1)
           else
             (let offset' = offset + word_of_nat (length fragment);
                  s2 = next_sequence (send_to_receiver E (msg\<lparr>cm_offset := offset', cm_data := fragment\<rparr>) s1);
                  (res, c) = CheckReceive (next_event sched) (sender s2);
                  s3 = s2\<lparr>sender := c\<rparr>
              in if res then send_file_loop E fname f msg offset' (tl sched) s3
                 else Some (False, tl sched, s3))))"

definition file_message :: "('d, 'w) env \<Rightarrow> u64 \<Rightarrow> u32 \<Rightarrow> string \<Rightarrow> CheckpointMessage" where
  "file_message E i machine_id file =
     CheckpointMessage_default\<lparr>cm_type := CHECKPOINT_FILE, cm_node_id := cfg_node_id E,
       cm_instance_id := i, cm_machine_id := machine_id, cm_file := file\<rparr>"

definition SendFile ::
    "('d, 'w) env \<Rightarrow> u64 \<Rightarrow> u32 \<Rightarrow> string \<Rightarrow> string \<Rightarrow> wait_schedule \<Rightarrow> ('d, 'w, 'z) node_scheme \<Rightarrow>
      (bool \<times> wait_schedule \<times> ('d, 'w, 'z) node_scheme) option" where
  "SendFile E i machine_id dir file sched s =
     (case in_world (NewSequentialFile E (dir @ file)) s of
        ((st, None), s1) \<Rightarrow> Some (False, sched, s1)
      | ((st, Some f), s1) \<Rightarrow>
         map_option (\<lambda>(res, sched', s2). (res, sched', snd (in_world (sys_fclose E f) s2)))
           (send_file_loop E (dir @ file) f (file_message E i machine_id file) 0 sched s1))"

text \<open>The files of one machine, up to the first that fails.\<close>

fun send_files ::
    "('d, 'w) env \<Rightarrow> u64 \<Rightarrow> u32 \<Rightarrow> string \<Rightarrow> string list \<Rightarrow> bool \<Rightarrow> wait_schedule \<Rightarrow> ('d, 'w, 'z) node_scheme \<Rightarrow>
      (bool \<times> wait_schedule \<times> ('d, 'w, 'z) node_scheme) option" where
  "send_files E i machine_id dir [] res sched s = Some (res, sched, s)"
| "send_files E i machine_id dir (file # files) res sched s =
     (case SendFile E i machine_id dir file sched s of
        None \<Rightarrow> None
      | Some (False, sched', s') \<Rightarrow> Some (False, sched', s')
      | Some (True, sched', s') \<Rightarrow> send_files E i machine_id dir files True sched' s')"

text \<open>The loop over the machines. The result of the files of one machine is overwritten by the
  next machine; \<open>dir\<close> keeps its value from one machine to the next, \<open>files\<close> is
  cleared.\<close>

fun send_machines ::
    "('d, 'w) env \<Rightarrow> u64 \<Rightarrow> u32 list \<Rightarrow> string \<Rightarrow> bool \<Rightarrow> wait_schedule \<Rightarrow> ('d, 'w, 'z) node_scheme \<Rightarrow>
      (bool \<times> wait_schedule \<times> ('d, 'w, 'z) node_scheme) option" where
  "send_machines E i [] dir res sched s = Some (res, sched, s)"
| "send_machines E i (machine_id # ids) dir res sched s =
     (case GetCheckpoint E i machine_id dir [] s of
        ((False, _, _), s1) \<Rightarrow> Some (False, sched, s1)
      | ((True, dir1, files), s1) \<Rightarrow>
         (if dir1 = [] \<or> files = [] then send_machines E i ids dir1 True sched s1
          else
            (let dir2 = (if last dir1 \<noteq> CHR ''/'' then dir1 @ ''/'' else dir1)
             in case send_files E i machine_id dir2 files True sched s1 of
                  None \<Rightarrow> None
                | Some (res', sched', s2) \<Rightarrow> send_machines E i ids dir2 res' sched' s2)))"

definition SendCheckpointFiles ::
    "('d, 'w) env \<Rightarrow> u64 \<Rightarrow> wait_schedule \<Rightarrow> ('d, 'w, 'z) node_scheme \<Rightarrow>
      (bool \<times> wait_schedule \<times> ('d, 'w, 'z) node_scheme) option" where
  "SendCheckpointFiles E i sched s = send_machines E i (map fst (machines s)) [] True sched s"

definition Sender_SendCheckpoint ::
    "('d, 'w) env \<Rightarrow> u64 \<Rightarrow> wait_schedule \<Rightarrow> ('d, 'w, 'z) node_scheme \<Rightarrow>
      (bool \<times> wait_schedule \<times> ('d, 'w, 'z) node_scheme) option" where
  "Sender_SendCheckpoint E node_id sched s =
     (let s1 = s\<lparr>sender := \<lparr>receiver_node_id = node_id, snd_sequence_id = 0, ack_sequence_id = 0, snd_flag = True\<rparr>\<rparr>;
          (res, s2) = TryLockCheckpoint s1
      in if res then
           (let i = latest_checkpoint_instance_id s2
            in case SendCheckpointFiles E i sched (BeginToSend E i s2) of
                 None \<Rightarrow> None
               | Some (res', sched', s3) \<Rightarrow>
                   Some (res', sched', UnLockCheckpoint (if res' then EndToSend E i s3 else s3)))
         else Some (False, sched, s2))"

definition CheckpointManager_SendCheckpoint ::
    "('d, 'w) env \<Rightarrow> u64 \<Rightarrow> wait_schedule \<Rightarrow> ('d, 'w, 'z) node_scheme \<Rightarrow>
      (bool \<times> wait_schedule \<times> ('d, 'w, 'z) node_scheme) option" where
  "CheckpointManager_SendCheckpoint E node_id sched s = Sender_SendCheckpoint E node_id sched s"

text \<open>\<^verbatim>\<open>Learner::SendCheckpoint\<close>, and the closure that \<^const>\<open>OnAskForCheckpoint\<close> puts on
  the learn loop.\<close>

definition Learner_SendCheckpoint ::
    "('d, 'w) env \<Rightarrow> u64 \<Rightarrow> wait_schedule \<Rightarrow> ('d, 'w, 'z) node_scheme \<Rightarrow>
      (wait_schedule \<times> ('d, 'w, 'z) node_scheme) option" where
  "Learner_SendCheckpoint E node_id sched s =
     map_option snd (CheckpointManager_SendCheckpoint E node_id sched s)"

definition run_SendCheckpointTask ::
    "('d, 'w) env \<Rightarrow> u64 \<Rightarrow> wait_schedule \<Rightarrow> ('d, 'w, 'z) node_scheme \<Rightarrow>
      (wait_schedule \<times> ('d, 'w, 'z) node_scheme) option" where
  "run_SendCheckpointTask E node_id sched s =
     map_option (\<lambda>(sched', s'). (sched', s'\<lparr>is_sending_checkpoint := False\<rparr>))
       (Learner_SendCheckpoint E node_id sched (s\<lparr>is_sending_checkpoint := True\<rparr>))"

text \<open>What the learn loop does with its next closure.\<close>

definition run_learn_task ::
    "('d, 'w) env \<Rightarrow> learn_task \<Rightarrow> wait_schedule \<Rightarrow> ('d, 'w, 'z) node_scheme \<Rightarrow>
      (wait_schedule \<times> ('d, 'w, 'z) node_scheme) option" where
  "run_learn_task E t sched s =
     (case t of
        SendTask node_id content \<Rightarrow> Some (sched, Messager_SendMessage E node_id content s)
      | ASyncSendTask node_id from to \<Rightarrow> Some (sched, ASyncSend E node_id from to s)
      | SendCheckpointTask node_id \<Rightarrow> run_SendCheckpointTask E node_id sched s)"

lemmas [op_defs] = run_learn_task_def CheckReceive_def next_event_def send_to_receiver_def next_sequence_def
  BeginToSend_def EndToSend_def file_message_def SendFile_def SendCheckpointFiles_def
  Sender_SendCheckpoint_def CheckpointManager_SendCheckpoint_def Learner_SendCheckpoint_def
  run_SendCheckpointTask_def

end
