(* ===== verification/Transmission.thy ===== *)
theory Transmission
  imports Sending
begin

text \<open>
  The two ends of a checkpoint transfer together. A sequence of messages stands for the data
  it carries for each file; the sender produces a sequence that stands for its checkpoint, and
  the receiver writes what a sequence stands for.
\<close>

section \<open>What a sequence of messages stands for\<close>

definition file_data :: "u32 \<times> string \<Rightarrow> CheckpointMessage list \<Rightarrow> bytes" where
  "file_data k msgs = concat (map cm_data (filter (\<lambda>m. (cm_machine_id m, cm_file m) = k) msgs))"

lemma file_data_simps [simp]:
  "file_data k [] = []"
  "file_data k (m # ms) = (if (cm_machine_id m, cm_file m) = k then cm_data m else []) @ file_data k ms"
  "file_data k (xs @ ys) = file_data k xs @ file_data k ys"
  by (simp_all add: file_data_def)

lemma file_data_other: "\<forall>m \<in> set msgs. (cm_machine_id m, cm_file m) \<noteq> k \<Longrightarrow> file_data k msgs = []"
  by (simp add: file_data_def filter_empty_conv)

text \<open>Consecutive sequence numbers.\<close>

fun numbered :: "u32 \<Rightarrow> CheckpointMessage list \<Rightarrow> bool" where
  "numbered q [] \<longleftrightarrow> True"
| "numbered q (m # ms) \<longleftrightarrow> cm_sequence_id m = q \<and> numbered (q + 1) ms"

lemma numbered_append [simp]:
  "numbered q (xs @ ys) \<longleftrightarrow> numbered q xs \<and> numbered (q + word_of_nat (length xs)) ys"
  by (induction xs arbitrary: q) (simp_all add: add.assoc)

text \<open>Messages of one machine and one file of a checkpoint, none of them empty.\<close>

definition of_file :: "('d, 'w) env \<Rightarrow> u64 \<Rightarrow> u32 \<Rightarrow> string \<Rightarrow> CheckpointMessage \<Rightarrow> bool" where
  "of_file E i m f msg \<longleftrightarrow> cm_type msg = CHECKPOINT_FILE \<and> cm_node_id msg = cfg_node_id E \<and>
     cm_instance_id msg = i \<and> cm_machine_id msg = m \<and> cm_file msg = f \<and> cm_data msg \<noteq> []"

section \<open>What the sender sends\<close>

text \<open>From \<open>s\<close> to \<open>s'\<close> the sender has sent exactly \<open>msgs\<close>, and is still
  willing to send.\<close>

definition sent ::
    "('d, 'w) env \<Rightarrow> ('w \<Rightarrow> string \<rightharpoonup> bytes) \<Rightarrow> CheckpointMessage list \<Rightarrow>
      ('d, 'w, 'z) node_scheme \<Rightarrow> ('d, 'w, 'z) node_scheme \<Rightarrow> bool" where
  "sent E file msgs s s' \<longleftrightarrow>
     net s' = net s @ map (\<lambda>m. Unicast (receiver_node_id (sender s)) (Content_checkpoint (cfg_group_id E) m)) msgs \<and>
     numbered (snd_sequence_id (sender s)) msgs \<and>
     snd_sequence_id (sender s') = snd_sequence_id (sender s) + word_of_nat (length msgs) \<and>
     receiver_node_id (sender s') = receiver_node_id (sender s) \<and> (snd_flag (sender s) \<longrightarrow> snd_flag (sender s')) \<and>
     machines s' = machines s \<and> file (world s') = file (world s) \<and>
     transfer_step s s'"

lemma sent_refl: "sent E file [] s s"
  by (simp add: sent_def)

lemma sent_trans: "sent E file xs s t \<Longrightarrow> sent E file ys t u \<Longrightarrow> sent E file (xs @ ys) s u"
  by (auto simp: sent_def add.assoc intro: transfer_step_trans)

text \<open>Confirmations that report success.\<close>

fun wait_msgs :: "wait \<Rightarrow> CheckpointMessage list" where
  "wait_msgs (Woken msgs) = msgs"
| "wait_msgs (TimedOut msgs) = msgs"

definition confirmed :: "wait_schedule \<Rightarrow> bool" where
  "confirmed sched \<longleftrightarrow>
     (\<forall>(msgs, ws) \<in> set sched. (\<forall>m \<in> set msgs. cm_flag m) \<and> (\<forall>x \<in> set ws. \<forall>m \<in> set (wait_msgs x). cm_flag m))"

lemma confirm_frame:
  "receiver_node_id (confirm msgs c) = receiver_node_id c \<and>
   snd_sequence_id (confirm msgs c) = snd_sequence_id c \<and>
   (snd_flag c \<longrightarrow> (\<forall>m \<in> set msgs. cm_flag m) \<longrightarrow> snd_flag (confirm msgs c))"
  unfolding confirm_def by (induction msgs arbitrary: c) (auto simp: OnComfirmReceive_def)

lemma wait_loop_frame:
  "receiver_node_id (wait_loop ws c) = receiver_node_id c \<and>
   snd_sequence_id (wait_loop ws c) = snd_sequence_id c \<and>
   (snd_flag c \<longrightarrow> (\<forall>x \<in> set ws. \<forall>m \<in> set (wait_msgs x). cm_flag m) \<longrightarrow> snd_flag (wait_loop ws c))"
proof (induction ws c rule: wait_loop.induct)
  case (1 ws c)
  then show ?case
    using confirm_frame [of _ c]
    by (subst (1 2 3) wait_loop.simps) (auto split: list.split wait.split)
qed

lemma CheckReceive_confirmed:
  assumes "confirmed sched" "snd_flag c"
  obtains c' where "CheckReceive (next_event sched) c = (True, c')" "snd_flag c'"
    "receiver_node_id c' = receiver_node_id c" "snd_sequence_id c' = snd_sequence_id c"
proof -
  obtain msgs ws where ev: "next_event sched = (msgs, ws)" by fastforce
  then have good: "\<forall>m \<in> set msgs. cm_flag m" "\<forall>x \<in> set ws. \<forall>m \<in> set (wait_msgs x). cm_flag m"
    using assms(1) by (auto simp: next_event_def confirmed_def split: list.splits)
  then show thesis
    using that confirm_frame [of msgs c] wait_loop_frame [of ws "confirm msgs c"] assms(2)
    by (simp add: CheckReceive_def ev Let_def)
qed

lemma confirmed_tl: "confirmed sched \<Longrightarrow> confirmed (tl sched)"
  by (cases sched) (auto simp: confirmed_def)

text \<open>One fragment.\<close>

lemma in_world_sent: "file (snd (f (world s))) = file (world s) \<Longrightarrow> sent E file [] s (snd (in_world f s))"
  by (simp add: sent_def in_world_def case_prod_beta transfer_step_def)

lemma fragment_sent:
  assumes "receiver_node_id (sender s) \<notin> {0, cfg_node_id E}"
  shows "sent E file [msg\<lparr>cm_sequence_id := snd_sequence_id (sender s)\<rparr>] s (next_sequence (send_to_receiver E msg s))"
  using assms
  by (simp add: sent_def next_sequence_def send_to_receiver_def Messager_SendMessage_def transfer_step_def)

lemma sender_update_sent:
  "receiver_node_id c = receiver_node_id (sender s) \<Longrightarrow> snd_sequence_id c = snd_sequence_id (sender s) \<Longrightarrow>
   snd_flag c \<Longrightarrow> sent E file [] s (s\<lparr>sender := c\<rparr>)"
  by (simp add: sent_def transfer_step_def)

lemma send_file_loop_sent:
  fixes s :: "('d, 'w, 'z) node_scheme"
  assumes io: "stdio_ok E file left name" and msg: "of_file E i m fn (msg\<lparr>cm_data := [0]\<rparr>)"
  shows "confirmed sched \<Longrightarrow> snd_flag (sender s) \<Longrightarrow>
    receiver_node_id (sender s) \<notin> {0, cfg_node_id E} \<Longrightarrow>
    \<exists>sched' s' msgs. send_file_loop E fname f msg off sched s = Some (True, sched', s') \<and>
      confirmed sched' \<and> sent E file msgs s s' \<and> (\<forall>x \<in> set msgs. of_file E i m fn x) \<and>
      concat (map cm_data msgs) = left (world s) f"
proof (induction "length (left (world s) f)" arbitrary: off sched s rule: less_induct)
  case less
  have pos: "0 < kBufferSize" by (simp add: kBufferSize_def)
  obtain w where r: "SequentialFile_Read E fname f kBufferSize (world s) =
      ((Status_OK, take kBufferSize (left (world s) f)), w)"
    and l: "left w f = drop kBufferSize (left (world s) f)" "file w = file (world s)"
    by (rule stdio_read [OF io pos])
  define frag where "frag = take kBufferSize (left (world s) f)"
  define s1 where "s1 = s\<lparr>world := w\<rparr>"
  have read: "in_world (SequentialFile_Read E fname f kBufferSize) s = ((Status_OK, frag), s1)"
    by (simp add: in_world_def r s1_def frag_def)
  have S1: "sent E file [] s s1" by (simp add: sent_def transfer_step_def s1_def l(2))
  have ok: "Status_ok Status_OK" by (simp add: Status_ok_def Status_OK_def)
  show ?case
  proof (cases "left (world s) f = []")
    case True
    then have "send_file_loop E fname f msg off sched s = Some (True, sched, s1)"
      by (subst send_file_loop.simps) (simp add: read ok frag_def)
    with S1 less.prems(1) True show ?thesis by (metis concat.simps(1) empty_iff list.simps(8) list.set(1))
  next
    case False
    then have ne: "frag \<noteq> []" by (simp add: frag_def kBufferSize_def)
    let ?off = "off + word_of_nat (length frag)"
    let ?m = "msg\<lparr>cm_offset := ?off, cm_data := frag\<rparr>"
    define s2 where "s2 = next_sequence (send_to_receiver E ?m s1)"
    have S2: "sent E file [?m\<lparr>cm_sequence_id := snd_sequence_id (sender s1)\<rparr>] s1 s2"
      unfolding s2_def by (rule fragment_sent) (use less.prems(3) in \<open>simp add: s1_def\<close>)
    have flag: "snd_flag (sender s2)" using less.prems(2) S2 by (simp add: sent_def s1_def)
    obtain c where c: "CheckReceive (next_event sched) (sender s2) = (True, c)" "snd_flag c"
        "receiver_node_id c = receiver_node_id (sender s2)" "snd_sequence_id c = snd_sequence_id (sender s2)"
      by (rule CheckReceive_confirmed [OF less.prems(1) flag])
    define s3 where "s3 = s2\<lparr>sender := c\<rparr>"
    have S3: "sent E file [] s2 s3" unfolding s3_def by (rule sender_update_sent [OF c(3,4,2)])
    have to3: "sent E file [?m\<lparr>cm_sequence_id := snd_sequence_id (sender s1)\<rparr>] s s3"
      using sent_trans [OF S1 sent_trans [OF S2 S3]] by simp
    have rest: "left (world s3) f = drop kBufferSize (left (world s) f)"
      by (simp add: s3_def s2_def s1_def next_sequence_def send_to_receiver_def l(1))
    have step: "send_file_loop E fname f msg off sched s = send_file_loop E fname f msg ?off (tl sched) s3"
      using ne by (subst send_file_loop.simps) (simp add: read ok Let_def c(1) [unfolded s2_def] s3_def s2_def)
    have "length (left (world s3) f) < length (left (world s) f)"
      using False by (simp add: rest kBufferSize_def)
    moreover have "snd_flag (sender s3)" "receiver_node_id (sender s3) \<notin> {0, cfg_node_id E}"
      using less.prems(2,3) to3 by (simp_all add: sent_def)
    ultimately obtain sched' s' msgs where IH:
        "send_file_loop E fname f msg ?off (tl sched) s3 = Some (True, sched', s')" "confirmed sched'"
        "sent E file msgs s3 s'" "\<forall>x \<in> set msgs. of_file E i m fn x"
        "concat (map cm_data msgs) = left (world s3) f"
      using less.hyps confirmed_tl [OF less.prems(1)] by blast
    let ?msgs = "?m\<lparr>cm_sequence_id := snd_sequence_id (sender s1)\<rparr> # msgs"
    have "sent E file ?msgs s s'" using sent_trans [OF to3 IH(3)] by simp
    moreover have "\<forall>x \<in> set ?msgs. of_file E i m fn x" using IH(4) msg ne by (simp add: of_file_def)
    moreover have "concat (map cm_data ?msgs) = left (world s) f" by (simp add: IH(5) rest frag_def)
    ultimately show ?thesis using step IH(1,2) by metis
  qed
qed

lemma SendFile_sent:
  fixes s :: "('d, 'w, 'z) node_scheme"
  assumes io: "stdio_ok E file left name" and c: "file (world s) (dir @ fn) = Some c"
    and "confirmed sched" "snd_flag (sender s)" "receiver_node_id (sender s) \<notin> {0, cfg_node_id E}"
  shows "\<exists>sched' s' msgs. SendFile E i m dir fn sched s = Some (True, sched', s') \<and>
    confirmed sched' \<and> sent E file msgs s s' \<and> (\<forall>x \<in> set msgs. of_file E i m fn x) \<and>
    concat (map cm_data msgs) = c"
proof -
  obtain f w where o: "NewSequentialFile E (dir @ fn) (world s) = ((Status_OK, Some f), w)" "left w f = c"
      "file w = file (world s)"
    by (rule stdio_open [OF io c])
  let ?s = "s\<lparr>world := w\<rparr>"
  have S1: "sent E file [] s ?s" by (simp add: sent_def transfer_step_def o(3))
  have msg: "of_file E i m fn ((file_message E i m fn)\<lparr>cm_data := [0]\<rparr>)" by (simp add: of_file_def file_message_def)
  obtain sched' s' msgs where l: "send_file_loop E (dir @ fn) f (file_message E i m fn) 0 sched ?s = Some (True, sched', s')"
      "confirmed sched'" "sent E file msgs ?s s'" "\<forall>x \<in> set msgs. of_file E i m fn x" "concat (map cm_data msgs) = c"
    using send_file_loop_sent [OF io msg, of sched ?s "dir @ fn" f 0] assms(3-5) o(2) by auto
  let ?s' = "snd (in_world (sys_fclose E f) s')"
  have "sent E file [] s' ?s'" by (rule in_world_sent) (rule stdio_close [OF io])
  from sent_trans [OF S1 sent_trans [OF l(3) this]] have "sent E file msgs s ?s'" by simp
  moreover have "SendFile E i m dir fn sched s = Some (True, sched', ?s')"
    using l(1) by (simp add: SendFile_def in_world_def o(1))
  ultimately show ?thesis using l(2,4,5) by blast
qed

text \<open>The messages of one machine's files, and of the whole checkpoint: \<open>cp m\<close> lists
  the files of the machine \<open>m\<close>, \<open>data m f\<close> is the contents of its file \<open>f\<close>.\<close>

definition carries ::
    "('d, 'w) env \<Rightarrow> u64 \<Rightarrow> u32 list \<Rightarrow> (u32 \<Rightarrow> string list) \<Rightarrow> (u32 \<Rightarrow> string \<Rightarrow> bytes) \<Rightarrow> CheckpointMessage list \<Rightarrow> bool"
where
  "carries E i ids cp data msgs \<longleftrightarrow>
     (\<forall>x \<in> set msgs. \<exists>m \<in> set ids. \<exists>f \<in> set (cp m). of_file E i m f x) \<and>
     (\<forall>m \<in> set ids. \<forall>f \<in> set (cp m). file_data (m, f) msgs = data m f)"

lemma file_data_of_file: "\<forall>x \<in> set msgs. of_file E i m f x \<Longrightarrow>
    file_data k msgs = (if k = (m, f) then concat (map cm_data msgs) else [])"
  by (induction msgs) (auto simp: of_file_def)

lemma send_files_sent:
  fixes s :: "('d, 'w, 'z) node_scheme"
  assumes io: "stdio_ok E file left name"
  shows "confirmed sched \<Longrightarrow> snd_flag (sender s) \<Longrightarrow> receiver_node_id (sender s) \<notin> {0, cfg_node_id E} \<Longrightarrow>
    \<forall>f \<in> set files. file (world s) (dir @ f) = Some (data m f) \<Longrightarrow> distinct files \<Longrightarrow>
    \<exists>sched' s' msgs. send_files E i m dir files True sched s = Some (True, sched', s') \<and>
      confirmed sched' \<and> sent E file msgs s s' \<and> carries E i [m] (\<lambda>_. files) data msgs"
proof (induction files arbitrary: sched s)
  case Nil
  then show ?case using sent_refl [of E "file" s] by (force simp: carries_def)
next
  case (Cons fn files)
  obtain sched1 s1 xs where one: "SendFile E i m dir fn sched s = Some (True, sched1, s1)"
      "confirmed sched1" "sent E file xs s s1" "\<forall>x \<in> set xs. of_file E i m fn x"
      "concat (map cm_data xs) = data m fn"
    using SendFile_sent [OF io, of s dir fn "data m fn" sched i m] Cons.prems by auto
  have s1: "snd_flag (sender s1)" "receiver_node_id (sender s1) \<notin> {0, cfg_node_id E}"
      "file (world s1) = file (world s)"
    using one(3) Cons.prems(2,3) by (simp_all add: sent_def)
  obtain sched2 s2 ys where rest: "send_files E i m dir files True sched1 s1 = Some (True, sched2, s2)"
      "confirmed sched2" "sent E file ys s1 s2" "carries E i [m] (\<lambda>_. files) data ys"
    using Cons.IH [OF one(2) s1(1,2)] Cons.prems(4,5) s1(3) by auto
  have "file_data (m, fn) ys = []"
    using rest(4) Cons.prems(5) by (intro file_data_other) (auto simp: carries_def of_file_def)
  then have "carries E i [m] (\<lambda>_. fn # files) data (xs @ ys)"
    using rest(4) one(4,5) file_data_of_file [OF one(4)] Cons.prems(5) by (auto simp: carries_def)
  moreover have "sent E file (xs @ ys) s s2" by (rule sent_trans [OF one(3) rest(3)])
  ultimately show ?case using one(1) rest(1,2) by auto
qed

text \<open>Every machine lists its files of the checkpoint \<open>i\<close>, whatever has been read
  in the meantime.\<close>

definition listing ::
    "('d, 'w) env \<Rightarrow> ('w \<Rightarrow> string \<rightharpoonup> bytes) \<Rightarrow> u64 \<Rightarrow> (u32 \<Rightarrow> string list) \<Rightarrow> ('d, 'w, 'z) node_scheme \<Rightarrow> bool"
where
  "listing E file i cp s \<longleftrightarrow>
     (\<forall>m \<in> fst ` set (machines s). \<forall>dir (s' :: ('d, 'w, 'z) node_scheme).
        machines s' = machines s \<and> file (world s') = file (world s) \<longrightarrow>
        (\<exists>w'. GetCheckpoint E i m dir [] s' = ((True, GetCheckpointPath_machine E i m, cp m), s'\<lparr>world := w'\<rparr>) \<and>
           file w' = file (world s')))"

lemma machine_path_slash: "last (GetCheckpointPath_machine E i m) \<noteq> CHR ''/''"
proof -
  have "is_digit (last (to_string (unat m)))" "to_string (unat m) \<noteq> []"
    using to_string_digits by (metis last_in_set)+
  then show ?thesis by (auto simp: GetCheckpointPath_machine_def is_digit_def)
qed

lemma machine_path_nonempty [simp]: "GetCheckpointPath_machine E i m \<noteq> []"
  by (simp add: GetCheckpointPath_machine_def)

lemma carries_append:
  assumes "carries E i [m] (\<lambda>_. cp m) data xs" "carries E i ids cp data ys" "m \<notin> set ids"
  shows "carries E i (m # ids) cp data (xs @ ys)"
proof -
  have "file_data (m', f) xs = []" if "m' \<in> set ids" for m' f
    using assms(1,3) that by (intro file_data_other) (auto simp: carries_def of_file_def)
  moreover have "file_data (m, f) ys = []" for f
    using assms(2,3) by (intro file_data_other) (auto simp: carries_def of_file_def)
  ultimately show ?thesis using assms by (auto simp: carries_def)
qed

lemma send_machines_sent:
  fixes s s0 :: "('d, 'w, 'z) node_scheme"
  assumes io: "stdio_ok E file left name" and lst: "listing E file i cp s0"
    and cp: "\<forall>m \<in> fst ` set (machines s0). distinct (cp m) \<and>
      (\<forall>f \<in> set (cp m). file (world s0) (GetCheckpointPath_machine E i m @ ''/'' @ f) = Some (data m f))"
  shows "confirmed sched \<Longrightarrow> snd_flag (sender s) \<Longrightarrow> receiver_node_id (sender s) \<notin> {0, cfg_node_id E} \<Longrightarrow>
    machines s = machines s0 \<Longrightarrow> file (world s) = file (world s0) \<Longrightarrow>
    set ids \<subseteq> fst ` set (machines s0) \<Longrightarrow> distinct ids \<Longrightarrow>
    \<exists>sched' s' msgs. send_machines E i ids dir True sched s = Some (True, sched', s') \<and>
      confirmed sched' \<and> sent E file msgs s s' \<and> carries E i ids cp data msgs"
proof (induction ids arbitrary: dir sched s)
  case Nil
  then show ?case using sent_refl [of E "file" s] by (force simp: carries_def)
next
  case (Cons m ids)
  note path = machine_path_slash [of E i m]
  have m: "m \<in> fst ` set (machines s0)" using Cons.prems(6) by simp
  have cpm: "distinct (cp m)" "\<forall>f \<in> set (cp m). file (world s0) (GetCheckpointPath_machine E i m @ ''/'' @ f) = Some (data m f)"
    using cp m by blast+
  obtain w where g: "GetCheckpoint E i m dir [] s = ((True, GetCheckpointPath_machine E i m, cp m), s\<lparr>world := w\<rparr>)"
      "file w = file (world s)"
    using lst m Cons.prems(4,5) unfolding listing_def by blast
  let ?s1 = "s\<lparr>world := w\<rparr>"
  have S1: "sent E file [] s ?s1" by (simp add: sent_def transfer_step_def g(2))
  let ?dir = "GetCheckpointPath_machine E i m @ ''/''"
  have ex: "\<exists>dir1 sched1 s1 xs. send_machines E i (m # ids) dir True sched s = send_machines E i ids dir1 True sched1 s1 \<and>
      confirmed sched1 \<and> sent E file xs s s1 \<and> carries E i [m] (\<lambda>_. cp m) data xs"
  proof (cases "cp m = []")
    case True
    then have "send_machines E i (m # ids) dir True sched s = send_machines E i ids (GetCheckpointPath_machine E i m) True sched ?s1"
      by (simp add: g(1))
    moreover have "carries E i [m] (\<lambda>_. cp m) data []" using True by (simp add: carries_def)
    ultimately show ?thesis using S1 Cons.prems(1) by blast
  next
    case False
    obtain sched1 s1 xs where f: "send_files E i m ?dir (cp m) True sched ?s1 = Some (True, sched1, s1)"
        "confirmed sched1" "sent E file xs ?s1 s1" "carries E i [m] (\<lambda>_. cp m) data xs"
      using send_files_sent [OF io, of sched ?s1 "cp m" ?dir data m i] Cons.prems(1-5) cpm g(2) by auto
    have "send_machines E i (m # ids) dir True sched s = send_machines E i ids ?dir True sched1 s1"
      using False path f(1) by (simp add: g(1))
    then show ?thesis using f(2,4) sent_trans [OF S1 f(3)] by fastforce
  qed
  then obtain dir1 sched1 s1 xs where one:
      "send_machines E i (m # ids) dir True sched s = send_machines E i ids dir1 True sched1 s1"
      "confirmed sched1" "sent E file xs s s1" "carries E i [m] (\<lambda>_. cp m) data xs"
    by blast
  have s1: "snd_flag (sender s1)" "receiver_node_id (sender s1) \<notin> {0, cfg_node_id E}"
      "machines s1 = machines s0" "file (world s1) = file (world s0)"
    using one(3) Cons.prems(2-5) by (simp_all add: sent_def)
  obtain sched' s' ys where rest: "send_machines E i ids dir1 True sched1 s1 = Some (True, sched', s')"
      "confirmed sched'" "sent E file ys s1 s'" "carries E i ids cp data ys"
    using Cons.IH [OF one(2) s1, of dir1] Cons.prems(6,7) by auto
  have "carries E i (m # ids) cp data (xs @ ys)"
    using carries_append [OF one(4) rest(4)] Cons.prems(7) by simp
  with one(1) rest(1,2) sent_trans [OF one(3) rest(3)] show ?case by auto
qed

text \<open>The whole transmission.\<close>

definition transmission ::
    "('d, 'w) env \<Rightarrow> u64 \<Rightarrow> u32 list \<Rightarrow> (u32 \<Rightarrow> string list) \<Rightarrow> (u32 \<Rightarrow> string \<Rightarrow> bytes) \<Rightarrow> CheckpointMessage list \<Rightarrow> bool"
where
  "transmission E i ids cp data msgs \<longleftrightarrow>
     (\<exists>b fs e. msgs = b # fs @ [e] \<and> numbered 0 msgs \<and> carries E i ids cp data fs \<and>
        cm_type b = CHECKPOINT_BEGIN \<and> cm_type e = CHECKPOINT_END \<and>
        (\<forall>x \<in> {b, e}. cm_node_id x = cfg_node_id E \<and> cm_instance_id x = i))"

lemma SendCheckpoint_sent:
  fixes s :: "('d, 'w, 'z) node_scheme"
  defines "i \<equiv> latest_checkpoint_instance_id s"
  assumes io: "stdio_ok E file left name" and lst: "listing E file i cp s"
    and cp: "\<forall>m \<in> fst ` set (machines s). distinct (cp m) \<and>
      (\<forall>f \<in> set (cp m). file (world s) (GetCheckpointPath_machine E i m @ ''/'' @ f) = Some (data m f))"
    and ids: "distinct (map fst (machines s))" and sched: "confirmed sched"
    and n: "n \<notin> {0, cfg_node_id E}" and free: "\<not> checkpoint_locked s"
  shows "\<exists>sched' s' msgs. Sender_SendCheckpoint E n sched s = Some (True, sched', s') \<and>
    net s' = net s @ map (\<lambda>m. Unicast n (Content_checkpoint (cfg_group_id E) m)) msgs \<and>
    transmission E i (map fst (machines s)) cp data msgs \<and> \<not> checkpoint_locked s' \<and> transfer_step s s'"
proof -
  define s1 where "s1 = s\<lparr>sender := \<lparr>receiver_node_id = n, snd_sequence_id = 0,
    ack_sequence_id = 0, snd_flag = True\<rparr>, checkpoint_locked := True\<rparr>"
  define b where "b = CheckpointMessage_default\<lparr>cm_type := CHECKPOINT_BEGIN, cm_node_id := cfg_node_id E,
    cm_instance_id := i, cm_sequence_id := 0\<rparr>"
  define s2 where "s2 = BeginToSend E i s1"
  have S2: "sent E file [b] s1 s2"
    using fragment_sent [of s1 E "file" "CheckpointMessage_default\<lparr>cm_type := CHECKPOINT_BEGIN,
      cm_node_id := cfg_node_id E, cm_instance_id := i\<rparr>"] n
    by (simp add: s2_def BeginToSend_def s1_def b_def)
  then have s2: "snd_flag (sender s2)" "receiver_node_id (sender s2) = n" "machines s2 = machines s"
      "file (world s2) = file (world s)" "snd_sequence_id (sender s2) = 1"
    by (simp_all add: sent_def s1_def)
  obtain sched' s3 fs where f: "SendCheckpointFiles E i sched s2 = Some (True, sched', s3)"
      "sent E file fs s2 s3" "carries E i (map fst (machines s)) cp data fs"
    using send_machines_sent [OF io lst cp sched s2(1), of "map fst (machines s)" "[]"] n ids s2
    unfolding SendCheckpointFiles_def by auto
  define e where "e = CheckpointMessage_default\<lparr>cm_type := CHECKPOINT_END, cm_node_id := cfg_node_id E,
    cm_instance_id := i, cm_sequence_id := snd_sequence_id (sender s3)\<rparr>"
  let ?s' = "UnLockCheckpoint (EndToSend E i s3)"
  note S3 = sent_trans [OF S2 f(2)]
  have S3r: "receiver_node_id (sender s3) = n" using S3 by (simp add: sent_def s1_def)
  have "Sender_SendCheckpoint E n sched s = Some (True, sched', ?s')"
    using free f(1) by (simp add: Sender_SendCheckpoint_def TryLockCheckpoint_def Let_def s2_def s1_def i_def)
  moreover have "net ?s' = net s @ map (\<lambda>m. Unicast n (Content_checkpoint (cfg_group_id E) m)) (b # fs @ [e])"
    using S3 S3r n
    by (simp add: sent_def s1_def UnLockCheckpoint_def EndToSend_def send_to_receiver_def Messager_SendMessage_def e_def)
  moreover have "numbered 0 (b # fs @ [e])"
    using S3 by (simp add: sent_def s1_def e_def add.commute)
  moreover have "transfer_step s s3"
    using S3 transfer_step_trans [of s s1 s3] by (simp add: sent_def s1_def transfer_step_def)
  then have "transfer_step s ?s'"
    by (simp add: transfer_step_def UnLockCheckpoint_def EndToSend_def send_to_receiver_def)
  ultimately show ?thesis
    using f(3) unfolding transmission_def by (intro exI [of _ sched'] exI [of _ ?s'] exI [of _ "b # fs @ [e]"])
      (simp add: b_def e_def UnLockCheckpoint_def)
qed

section \<open>What the receiver writes\<close>

definition temp_file :: "('d, 'w) env \<Rightarrow> u32 \<Rightarrow> string \<Rightarrow> string" where
  "temp_file E m f = cfg_temp_checkpoint_path E @ ''/m'' @ to_string (unat m) @ ''/'' @ f"

lemma digits_slash_inject:
  assumes "\<forall>c \<in> set xs. is_digit c" "\<forall>c \<in> set ys. is_digit c" "xs @ CHR ''/'' # us = ys @ CHR ''/'' # vs"
  shows "xs = ys \<and> us = vs"
proof -
  have tw: "takeWhile is_digit (zs @ CHR ''/'' # us) = zs" if "\<forall>c \<in> set zs. is_digit c" for zs us
    using that by (simp add: takeWhile_append2 is_digit_def)
  have "xs = ys" using assms tw [OF assms(1), of us] tw [OF assms(2), of vs] by simp
  with assms(3) show ?thesis by simp
qed

lemma temp_file_inject: "temp_file E m f = temp_file E m' f' \<longleftrightarrow> m = m' \<and> f = f'"
  using digits_slash_inject [of "to_string (unat m)" "to_string (unat m')" f f'] to_string_digits
  by (auto simp: temp_file_def word_unat_eq_iff)

definition confirmation :: "('d, 'w) env \<Rightarrow> CheckpointMessage \<Rightarrow> net_call" where
  "confirmation E msg =
     Unicast (cm_node_id msg) (Content_checkpoint (cfg_group_id E)
       (CheckpointMessage_default\<lparr>cm_type := CHECKPOINT_COMFIRM, cm_node_id := cfg_node_id E,
          cm_sequence_id := cm_sequence_id msg, cm_flag := True\<rparr>))"

text \<open>One file message in sequence: its data goes to the end of its file, and nowhere else.\<close>

lemma append_fragment_ok:
  assumes "append_ok E file name"
  obtains w' where "append_fragment E n d w = (Status_OK, w')"
    "file w' = (file w)(n \<mapsto> (case file w n of None \<Rightarrow> [] | Some c \<Rightarrow> c) @ d)"
proof -
  let ?c = "case file w n of None \<Rightarrow> [] | Some c \<Rightarrow> c"
  obtain f w1 where o: "sys_fopen E n Mode_a w = (Inr f, w1)" "name w1 f = n" "file w1 = (file w)(n \<mapsto> ?c)"
    using assms unfolding append_ok_def by blast
  then have "file w1 (name w1 f) = Some ?c" by simp
  then obtain w2 where w: "sys_fwrite E f d w1 = (None, w2)" "file w2 = (file w1)(name w1 f \<mapsto> ?c @ d)"
    using assms unfolding append_ok_def by blast
  have "file (snd (sys_fclose E f w2)) = file w2" using assms unfolding append_ok_def by blast
  with that [of "snd (sys_fclose E f w2)"] o w show thesis
    by (simp add: append_fragment_def NewAppendableFile_def open_file_def WritableFile_Append_def sys_status_def)
qed

lemma ReceiveFiles_ok:
  fixes s :: "('d, 'w, 'z) node_scheme"
  assumes io: "append_ok E file name" and "cm_node_id msg = sender_node_id (receiver s)"
    and "cm_sequence_id msg = rcv_sequence_id (receiver s) + 1"
  obtains s' where "ReceiveFiles E msg s = (True, s')" "net s' = net s"
    "sender_node_id (receiver s') = sender_node_id (receiver s)"
    "rcv_sequence_id (receiver s') = rcv_sequence_id (receiver s) + 1"
    "let p = temp_file E (cm_machine_id msg) (cm_file msg) in file (world s') =
       (file (world s))(p \<mapsto> (case file (world s) p of None \<Rightarrow> [] | Some c \<Rightarrow> c) @ cm_data msg)"
proof -
  let ?dir = "GetTempCheckpointPath_machine E (cm_instance_id msg) (cm_machine_id msg)"
  let ?known = "cm_machine_id msg \<in> set (rcv_dirs (receiver s))"
  let ?p = "temp_file E (cm_machine_id msg) (cm_file msg)"
  define s1 where "s1 = (if ?known then s else snd (in_world (CreateDir E ?dir) s))"
  have s1: "?known \<or> FileExists E ?dir (world s1)" "file (world s1) = file (world s)" "net s1 = net s"
    using io by (auto simp: s1_def in_world_def CreateDir_def case_prod_beta FileExists_def append_ok_def)
  obtain w where a: "append_fragment E ?p (cm_data msg) (world s1) = (Status_OK, w)"
      "file w = (file (world s1))(?p \<mapsto> (case file (world s1) ?p of None \<Rightarrow> [] | Some c \<Rightarrow> c) @ cm_data msg)"
    by (rule append_fragment_ok [OF io])
  have p: "?p = ?dir @ ''/'' @ cm_file msg" by (simp add: temp_file_def GetTempCheckpointPath_machine_def)
  have ok: "Status_ok Status_OK" by (simp add: Status_ok_def Status_OK_def)
  let ?r = "(receiver s)\<lparr>rcv_dirs := List.insert (cm_machine_id msg) (rcv_dirs (receiver s)),
    rcv_sequence_id := rcv_sequence_id (receiver s) + 1\<rparr>"
  have "ReceiveFiles E msg s = (True, s1\<lparr>receiver := ?r, world := w\<rparr>)"
    using assms(2,3) s1(1) a(1) ok
    by (simp add: ReceiveFiles_def Let_def s1_def [symmetric] in_world_def p)
  then show thesis
    by (rule that) (simp_all add: s1 a(2))
qed

definition receive_all ::
    "('d, 'w) env \<Rightarrow> CheckpointMessage list \<Rightarrow> ('d, 'w, 'z) node_scheme \<Rightarrow> ('d, 'w, 'z) node_scheme" where
  "receive_all E msgs s = fold (\<lambda>m s. snd (CheckpointManager_ReceiveCheckpoint E m s)) msgs s"

text \<open>Receiving file messages in sequence appends to each file the data they stand for, and
  each is confirmed.\<close>

lemma receive_files_ok:
  fixes s :: "('d, 'w, 'z) node_scheme"
  assumes io: "append_ok E file name" and n: "n \<notin> {0, cfg_node_id E}"
  shows "\<forall>x \<in> set msgs. cm_type x = CHECKPOINT_FILE \<and> cm_node_id x = n \<Longrightarrow>
    numbered (rcv_sequence_id (receiver s) + 1) msgs \<Longrightarrow> sender_node_id (receiver s) = n \<Longrightarrow>
    let s' = receive_all E msgs s in
      sender_node_id (receiver s') = n \<and>
      rcv_sequence_id (receiver s') = rcv_sequence_id (receiver s) + word_of_nat (length msgs) \<and>
      net s' = net s @ map (confirmation E) msgs \<and>
      (\<forall>m f. file (world s') (temp_file E m f) =
         (if \<exists>x \<in> set msgs. cm_machine_id x = m \<and> cm_file x = f
          then Some ((case file (world s) (temp_file E m f) of None \<Rightarrow> [] | Some c \<Rightarrow> c) @ file_data (m, f) msgs)
          else file (world s) (temp_file E m f)))"
proof (induction msgs arbitrary: s)
  case Nil
  then show ?case by (simp add: receive_all_def)
next
  case (Cons x msgs)
  let ?p = "temp_file E (cm_machine_id x) (cm_file x)"
  have x: "cm_type x = CHECKPOINT_FILE" "cm_node_id x = sender_node_id (receiver s)"
      "cm_sequence_id x = rcv_sequence_id (receiver s) + 1"
    using Cons.prems by simp_all
  obtain s1 where r: "ReceiveFiles E x s = (True, s1)" "net s1 = net s"
      "sender_node_id (receiver s1) = sender_node_id (receiver s)"
      "rcv_sequence_id (receiver s1) = rcv_sequence_id (receiver s) + 1"
      "let p = ?p in file (world s1) =
         (file (world s))(p \<mapsto> (case file (world s) p of None \<Rightarrow> [] | Some c \<Rightarrow> c) @ cm_data x)"
    by (rule ReceiveFiles_ok [OF io x(2,3)])
  let ?s2 = "s1\<lparr>net := net s1 @ [confirmation E x]\<rparr>"
  have one: "CheckpointManager_ReceiveCheckpoint E x s = (True, ?s2)"
    using n x(2) Cons.prems(3)
    by (simp add: CheckpointManager_ReceiveCheckpoint_def x(1) Receiver_ReceiveCheckpoint_def r(1)
        ComfirmReceive_def Messager_SendMessage_def confirmation_def)
  have tail: "receive_all E (x # msgs) s = receive_all E msgs ?s2" by (simp add: receive_all_def one)
  have IH: "let s' = receive_all E msgs ?s2 in
      sender_node_id (receiver s') = n \<and>
      rcv_sequence_id (receiver s') = rcv_sequence_id (receiver ?s2) + word_of_nat (length msgs) \<and>
      net s' = net ?s2 @ map (confirmation E) msgs \<and>
      (\<forall>m f. file (world s') (temp_file E m f) =
         (if \<exists>x \<in> set msgs. cm_machine_id x = m \<and> cm_file x = f
          then Some ((case file (world ?s2) (temp_file E m f) of None \<Rightarrow> [] | Some c \<Rightarrow> c) @ file_data (m, f) msgs)
          else file (world ?s2) (temp_file E m f)))"
    by (rule Cons.IH) (use Cons.prems r(3,4) in \<open>simp_all add: add.commute\<close>)
  have here: "file (world s1) (temp_file E m f) =
      (if m = cm_machine_id x \<and> f = cm_file x
       then Some ((case file (world s) (temp_file E m f) of None \<Rightarrow> [] | Some c \<Rightarrow> c) @ cm_data x)
       else file (world s) (temp_file E m f))" for m f
    using r(5) by (simp add: Let_def temp_file_inject)
  show ?case
    unfolding tail using IH r(2-4) by (auto simp: Let_def here file_data_other split: option.split)
qed

text \<open>A begin message followed by the files of a transmission.\<close>

lemma receive_transmission:
  fixes r :: "('d, 'w, 'z) node_scheme"
  assumes io: "append_ok E file name" and tr: "transmission E1 i ids cp data msgs"
    and n: "cfg_node_id E1 \<notin> {0, cfg_node_id E}"
    and del: "DeleteTempCheckpoint E (world r) = (True, w)"
    and none: "\<forall>m f. file w (temp_file E m f) = None"
  defines "r' \<equiv> receive_all E (butlast msgs) r"
  shows "\<forall>m \<in> set ids. \<forall>f \<in> set (cp m). file (world r') (temp_file E m f) =
      (if data m f = [] then None else Some (data m f))"
    and "net r' = net r @ map (confirmation E) (butlast msgs)"
    and "CheckpointManager_ReceiveCheckpoint E (last msgs) r' =
      (case UpdateCheckpoint E i r' of (updated, r'') \<Rightarrow> (False, if updated then abort r'' else r''))"
proof -
  obtain b fs e where m: "msgs = b # fs @ [e]" "numbered 0 msgs" "carries E1 i ids cp data fs"
      "cm_type b = CHECKPOINT_BEGIN" "cm_type e = CHECKPOINT_END"
      "\<forall>x \<in> {b, e}. cm_node_id x = cfg_node_id E1 \<and> cm_instance_id x = i"
    using tr unfolding transmission_def by blast
  define r1 where "r1 = r\<lparr>receiver := \<lparr>sender_node_id = cfg_node_id E1, rcv_sequence_id = 0, rcv_dirs = []\<rparr>,
    world := w, net := net r @ [confirmation E b]\<rparr>"
  have b: "CheckpointManager_ReceiveCheckpoint E b r = (True, r1)"
    using n m(6) by (simp add: CheckpointManager_ReceiveCheckpoint_def m(4) BeginToReceive_def Let_def
        in_world_def del ComfirmReceive_def Messager_SendMessage_def confirmation_def r1_def)
  have fs: "\<forall>x \<in> set fs. cm_type x = CHECKPOINT_FILE \<and> cm_node_id x = cfg_node_id E1"
      "\<forall>x \<in> set fs. cm_data x \<noteq> []"
    using m(3) by (auto simp: carries_def of_file_def)
  have r': "r' = receive_all E fs r1" by (simp add: r'_def m(1) butlast_append receive_all_def b)
  have got: "sender_node_id (receiver r') = cfg_node_id E1"
      "rcv_sequence_id (receiver r') = word_of_nat (length fs)"
      "net r' = net r @ confirmation E b # map (confirmation E) fs"
      "file (world r') (temp_file E m f) = (if \<exists>x \<in> set fs. cm_machine_id x = m \<and> cm_file x = f
         then Some (file_data (m, f) fs) else None)" for m f
    using receive_files_ok [OF io n fs(1), of r1] m(2) none
    by (simp_all add: r' Let_def r1_def m(1))
  have "(\<exists>x \<in> set fs. cm_machine_id x = m \<and> cm_file x = f) \<longleftrightarrow> file_data (m, f) fs \<noteq> []" for m f
    using fs(2) by (induction fs) auto
  then have "file (world r') (temp_file E m f) =
      (if file_data (m, f) fs = [] then None else Some (file_data (m, f) fs))" for m f
    by (simp only: got(4) if_not_P not_not if_False if_True split: if_splits) simp
  then show "\<forall>m \<in> set ids. \<forall>f \<in> set (cp m). file (world r') (temp_file E m f) =
      (if data m f = [] then None else Some (data m f))"
    using m(3) by (simp add: carries_def)
  show "net r' = net r @ map (confirmation E) (butlast msgs)" by (simp add: got(3) m(1) butlast_append)
  have "cm_sequence_id e = rcv_sequence_id (receiver r') + 1" using m(1,2) got(2) by (simp add: add.commute)
  then show "CheckpointManager_ReceiveCheckpoint E (last msgs) r' =
      (case UpdateCheckpoint E i r' of (updated, r'') \<Rightarrow> (False, if updated then abort r'' else r''))"
    using m(5,6) got(1) by (simp add: m(1) CheckpointManager_ReceiveCheckpoint_def EndToReceive_def)
qed

text \<open>
  C18. A checkpoint crosses the network. When no file operation fails and every
  confirmation reports success, whatever the timing of the confirmations and even when the
  waits for them time out, \<^verbatim>\<open>SendCheckpoint\<close> returns true and sends a sequence of
  messages; a receiver that gets these messages in order, starting from an empty temporary
  directory, confirms every one but the last with success, and has then the contents of each
  non-empty file of the checkpoint in its temporary directory, while an empty file is missing. The
  last message is not confirmed: it makes the receiver call \<^verbatim>\<open>UpdateCheckpoint\<close> for the
  instance, and stop the process if that succeeds.
\<close>

theorem checkpoint_transfer:
  fixes s :: "('d, 'w, 'z) node_scheme" and r :: "('e, 'v, 'y) node_scheme"
  defines "i \<equiv> latest_checkpoint_instance_id s"
  assumes io: "stdio_ok E file left name" and lst: "listing E file i cp s"
    and cp: "\<forall>m \<in> fst ` set (machines s). distinct (cp m) \<and>
      (\<forall>f \<in> set (cp m). file (world s) (GetCheckpointPath_machine E i m @ ''/'' @ f) = Some (data m f))"
    and ids: "distinct (map fst (machines s))" and sched: "confirmed sched" and free: "\<not> checkpoint_locked s"
    and io': "append_ok E' file' name'" and nodes: "cfg_node_id E \<noteq> cfg_node_id E'" "cfg_node_id E \<noteq> 0" "cfg_node_id E' \<noteq> 0"
    and del: "DeleteTempCheckpoint E' (world r) = (True, w)"
    and none: "\<forall>m f. file' w (temp_file E' m f) = None"
  shows "\<exists>sched' s' msgs. Sender_SendCheckpoint E (cfg_node_id E') sched s = Some (True, sched', s') \<and>
    net s' = net s @ map (\<lambda>m. Unicast (cfg_node_id E') (Content_checkpoint (cfg_group_id E) m)) msgs \<and>
    (let r' = receive_all E' (butlast msgs) r in
       net r' = net r @ map (confirmation E') (butlast msgs) \<and>
       (\<forall>m \<in> fst ` set (machines s). \<forall>f \<in> set (cp m). file' (world r') (temp_file E' m f) =
          (if data m f = [] then None else Some (data m f))) \<and>
       CheckpointManager_ReceiveCheckpoint E' (last msgs) r' =
         (case UpdateCheckpoint E' i r' of (updated, r'') \<Rightarrow> (False, if updated then abort r'' else r'')))"
proof -
  have "cfg_node_id E' \<notin> {0, cfg_node_id E}" "cfg_node_id E \<notin> {0, cfg_node_id E'}" using nodes by auto
  then obtain sched' s' msgs where
      snt: "Sender_SendCheckpoint E (cfg_node_id E') sched s = Some (True, sched', s')"
      "net s' = net s @ map (\<lambda>m. Unicast (cfg_node_id E') (Content_checkpoint (cfg_group_id E) m)) msgs"
      "transmission E i (map fst (machines s)) cp data msgs"
    and n: "cfg_node_id E \<notin> {0, cfg_node_id E'}"
    using SendCheckpoint_sent [OF io lst [unfolded i_def] cp [unfolded i_def] ids sched _ free] unfolding i_def by blast
  from snt(1,2) receive_transmission [OF io' snt(3) n del none] show ?thesis
    by (intro exI [of _ sched'] exI [of _ s'] exI [of _ msgs]) (simp add: Let_def)
qed

section \<open>A failure that is hidden\<close>

text \<open>
  C39. A failure to send is hidden by the next machine: when the only file of the first of two
  machines cannot be opened and the second has no files, \<^verbatim>\<open>SendCheckpoint\<close> returns true
  and sends the end message right after the begin message, though no file was sent. The loop
  over the files is left by \<^verbatim>\<open>break\<close>, and the result is overwritten.
\<close>

theorem SendCheckpoint_hides_failure:
  fixes s :: "('d, 'w, 'z) node_scheme"
  defines "i \<equiv> latest_checkpoint_instance_id s"
  assumes ms: "machines s = [(a, A), (b, B)]" and free: "\<not> checkpoint_locked s" and n: "n \<notin> {0, cfg_node_id E}"
    and lst: "\<forall>dir (t :: ('d, 'w, 'z) node_scheme). machines t = machines s \<longrightarrow>
      GetCheckpoint E i a dir [] t = ((True, GetCheckpointPath_machine E i a, [f]), t) \<and>
      GetCheckpoint E i b dir [] t = ((True, GetCheckpointPath_machine E i b, []), t)"
    and fails: "sys_fopen E (GetCheckpointPath_machine E i a @ ''/'' @ f) Mode_r (world s) = (Inl err, w)"
  shows "\<exists>s'. Sender_SendCheckpoint E n sched s = Some (True, sched, s') \<and>
    net s' = net s @ map (\<lambda>(q, t). Unicast n (Content_checkpoint (cfg_group_id E)
      (CheckpointMessage_default\<lparr>cm_type := t, cm_node_id := cfg_node_id E, cm_instance_id := i, cm_sequence_id := q\<rparr>)))
      [(0, CHECKPOINT_BEGIN), (1, CHECKPOINT_END)]"
proof -
  define s1 where "s1 = s\<lparr>sender := \<lparr>receiver_node_id = n, snd_sequence_id = 0,
    ack_sequence_id = 0, snd_flag = True\<rparr>, checkpoint_locked := True\<rparr>"
  define s2 where "s2 = BeginToSend E i s1"
  have s2: "machines s2 = machines s" "world s2 = world s"
    by (simp_all add: s2_def s1_def BeginToSend_def next_sequence_def send_to_receiver_def)
  have s2w: "machines (s2\<lparr>world := w\<rparr>) = machines s" by (simp add: s2(1))
  note ga = lst [rule_format, OF s2(1)] and gb = lst [rule_format, OF s2w]
  have "SendFile E i a (GetCheckpointPath_machine E i a @ ''/'') f sched s2 = Some (False, sched, s2\<lparr>world := w\<rparr>)"
    using fails by (simp add: SendFile_def in_world_def NewSequentialFile_def open_file_def s2(2))
  then have files: "SendCheckpointFiles E i sched s2 = Some (True, sched, s2\<lparr>world := w\<rparr>)"
    using machine_path_slash [of E i a] by (simp add: SendCheckpointFiles_def s2(1) ms ga gb)
  have "Sender_SendCheckpoint E n sched s =
      Some (True, sched, UnLockCheckpoint (EndToSend E i (s2\<lparr>world := w\<rparr>)))"
    using free files by (simp add: Sender_SendCheckpoint_def TryLockCheckpoint_def Let_def s2_def s1_def i_def)
  then show ?thesis
    using n by (simp add: UnLockCheckpoint_def EndToSend_def BeginToSend_def next_sequence_def
        send_to_receiver_def Messager_SendMessage_def s2_def s1_def)
qed

end
