(* ===== verification/Samples.thy ===== *)
theory Samples
  imports Manager Logs "HOL-Library.Sublist"
begin

text \<open>
  A concrete environment: an in-memory database, files and clock, little-endian coding and a
  byte format for the stored records. It shows that what the development relies on of the code
  outside the repository can hold, and is what the witnesses of the theorems run on.
\<close>

section \<open>Bytes\<close>

fun le_digits :: "nat \<Rightarrow> nat \<Rightarrow> bytes" where
  "le_digits 0 n = []"
| "le_digits (Suc k) n = word_of_nat (n mod 256) # le_digits k (n div 256)"

fun le_value :: "bytes \<Rightarrow> nat" where
  "le_value [] = 0"
| "le_value (b # bs) = unat b + 256 * le_value bs"

lemma length_le_digits [simp]: "length (le_digits k n) = k"
  by (induction k arbitrary: n) auto

lemma le_digits_numeral:
  "le_digits (numeral k) n = word_of_nat (n mod 256) # le_digits (pred_numeral k) (n div 256)"
  using le_digits.simps(2) [of "pred_numeral k" n] by (simp only: numeral_eq_Suc [of k, symmetric])

lemma le_value_digits: "le_value (le_digits k n) = n mod 256 ^ k"
proof (induction k arbitrary: n)
  case 0
  then show ?case by simp
next
  case (Suc k)
  have "unat (word_of_nat (n mod 256) :: u8) = n mod 256" by (simp add: unat_of_nat)
  then have "le_value (le_digits (Suc k) n) = n mod 256 + 256 * (n div 256 mod 256 ^ k)"
    by (simp add: Suc)
  also have "\<dots> = n mod (256 * 256 ^ k)" by (simp add: mod_mult2_eq)
  finally show ?case by simp
qed

definition le_encode32 :: "u32 \<Rightarrow> bytes" where "le_encode32 n = le_digits 4 (unat n)"
definition le_encode64 :: "u64 \<Rightarrow> bytes" where "le_encode64 n = le_digits 8 (unat n)"
definition le_decode32 :: "bytes \<Rightarrow> u32" where "le_decode32 b = word_of_nat (le_value (take 4 b))"
definition le_decode64 :: "bytes \<Rightarrow> u64" where "le_decode64 b = word_of_nat (le_value (take 8 b))"

lemma le_code [simp]:
  "le_decode32 (le_encode32 n @ r) = n" "le_decode64 (le_encode64 m @ r) = m"
  "le_decode32 (le_encode32 n) = n" "le_decode64 (le_encode64 m) = m"
  "length (le_encode32 n) = 4" "length (le_encode64 m) = 8"
  using unsigned_less [of n, where ?'a = nat] unsigned_less [of m, where ?'a = nat]
  by (simp_all add: le_decode32_def le_encode32_def le_decode64_def le_encode64_def le_value_digits)

definition sample_ser :: "PaxosInstance \<Rightarrow> bytes" where
  "sample_ser m =
     le_encode64 (pi_instance_id m) @ le_encode64 (pi_promised_id m) @
     le_encode64 (pi_promised_node_id m) @ le_encode64 (pi_accepted_id m) @
     le_encode64 (pi_accepted_node_id m) @ le_encode64 (pv_value_id (pi_accepted_value m)) @
     le_encode32 (pv_machine_id (pi_accepted_value m)) @ pv_user_data (pi_accepted_value m)"

definition sample_parse :: "bytes \<Rightarrow> bool \<times> PaxosInstance" where
  "sample_parse b =
     (52 \<le> length b,
      \<lparr>pi_instance_id = le_decode64 b, pi_promised_id = le_decode64 (drop 8 b),
       pi_promised_node_id = le_decode64 (drop 16 b), pi_accepted_id = le_decode64 (drop 24 b),
       pi_accepted_node_id = le_decode64 (drop 32 b),
       pi_accepted_value = \<lparr>pv_value_id = le_decode64 (drop 40 b),
         pv_machine_id = le_decode32 (drop 48 b), pv_user_data = drop 52 b\<rparr>\<rparr>)"

lemma sample_parse_ser: "sample_parse (sample_ser m) = (True, m)"
  by (simp add: sample_parse_def sample_ser_def)

section \<open>Database\<close>

type_synonym sample_db = "(bytes \<times> bytes) list"

fun sort_insert :: "('a \<Rightarrow> 'a \<Rightarrow> int) \<Rightarrow> 'a \<Rightarrow> 'a list \<Rightarrow> 'a list" where
  "sort_insert cmp x [] = [x]"
| "sort_insert cmp x (y # ys) = (if cmp x y < 0 then x # y # ys else y # sort_insert cmp x ys)"

fun sample_keys :: "('a \<Rightarrow> 'a \<Rightarrow> int) \<Rightarrow> 'a list \<Rightarrow> 'a list" where
  "sample_keys cmp [] = []"
| "sample_keys cmp (x # xs) =
     (if x \<in> set xs then sample_keys cmp xs else sort_insert cmp x (sample_keys cmp xs))"

lemma set_sort_insert [simp]: "set (sort_insert cmp x ys) = insert x (set ys)"
  by (induction ys) auto

lemma set_sample_keys [simp]: "set (sample_keys cmp xs) = set xs"
  by (induction xs) auto

lemma strict_order_subset: "strict_order_on cmp K \<Longrightarrow> L \<subseteq> K \<Longrightarrow> strict_order_on cmp L"
  unfolding strict_order_on_def by (meson subsetD)

lemma strict_order_total:
  "strict_order_on cmp K \<Longrightarrow> a \<in> K \<Longrightarrow> b \<in> K \<Longrightarrow> a \<noteq> b \<Longrightarrow> cmp a b < 0 \<or> cmp b a < 0"
  unfolding strict_order_on_def by blast

lemma strict_order_trans:
  "strict_order_on cmp K \<Longrightarrow> a \<in> K \<Longrightarrow> b \<in> K \<Longrightarrow> c \<in> K \<Longrightarrow> cmp a b < 0 \<Longrightarrow> cmp b c < 0 \<Longrightarrow> cmp a c < 0"
  unfolding strict_order_on_def by blast

lemma sorted_sort_insert:
  assumes "sorted_wrt (\<lambda>a b. cmp a b < 0) ys" and "x \<notin> set ys"
    and "strict_order_on cmp (insert x (set ys))"
  shows "sorted_wrt (\<lambda>a b. cmp a b < 0) (sort_insert cmp x ys)"
  using assms
proof (induction ys)
  case Nil
  then show ?case by simp
next
  case (Cons y ys)
  note ord = Cons.prems(3)
  have "strict_order_on cmp (insert x (set ys))" by (rule strict_order_subset [OF ord]) auto
  then have IH: "sorted_wrt (\<lambda>a b. cmp a b < 0) (sort_insert cmp x ys)"
    using Cons.IH Cons.prems(1,2) by simp
  have "cmp x y < 0 \<or> cmp y x < 0" by (rule strict_order_total [OF ord]) (use Cons.prems(2) in auto)
  moreover have "cmp x z < 0" if "cmp x y < 0" "z \<in> set ys" for z
    using that Cons.prems(1) by (intro strict_order_trans [OF ord, of x y z]) auto
  ultimately show ?case using IH Cons.prems(1) by auto
qed

lemma sorted_sample_keys:
  assumes "strict_order_on cmp (set xs)"
  shows "sorted_wrt (\<lambda>a b. cmp a b < 0) (sample_keys cmp xs)"
  using assms
proof (induction xs)
  case (Cons x xs)
  have "strict_order_on cmp (set xs)" by (rule strict_order_subset [OF Cons.prems]) auto
  with Cons have "sorted_wrt (\<lambda>a b. cmp a b < 0) (sample_keys cmp xs)" by simp
  then show ?case
    using sorted_sort_insert [of cmp "sample_keys cmp xs" x] Cons.prems by simp
qed simp

definition apply_op :: "batch_op \<Rightarrow> sample_db \<Rightarrow> sample_db" where
  "apply_op op d = (case op of BPut k v \<Rightarrow> AList.update k v d | BDelete k \<Rightarrow> AList.delete k d)"

lemma map_of_apply_ops:
  "map_of (fold apply_op ops d) =
     fold (\<lambda>op m. case op of BPut k v \<Rightarrow> m(k \<mapsto> v) | BDelete k \<Rightarrow> m(k := None)) ops (map_of d)"
proof (induction ops arbitrary: d)
  case (Cons op ops)
  have "map_of (apply_op op d) =
      (case op of BPut k v \<Rightarrow> (map_of d)(k \<mapsto> v) | BDelete k \<Rightarrow> (map_of d)(k := None))"
    by (cases op) (simp_all add: apply_op_def update_conv' delete_conv')
  with Cons show ?case by simp
qed simp

section \<open>Files and clock\<close>

record sample_world =
  sw_files :: "(string \<times> bytes) list"
  sw_name :: string
  sw_left :: bytes
  sw_dir :: "(string \<times> bool) list"
  sw_clock :: u64

definition sample_world0 :: sample_world where
  "sample_world0 = \<lparr>sw_files = [], sw_name = [], sw_left = [], sw_dir = [], sw_clock = 1000\<rparr>"

definition sample_fopen :: "string \<Rightarrow> open_mode \<Rightarrow> sample_world \<Rightarrow> (string + nat) \<times> sample_world" where
  "sample_fopen n mode w =
     (case mode of
        Mode_r \<Rightarrow> (case map_of (sw_files w) n of
            None \<Rightarrow> (Inl ''No such file or directory'', w)
          | Some c \<Rightarrow> (Inr 0, w\<lparr>sw_left := c\<rparr>))
      | Mode_w \<Rightarrow> (Inr 0, w\<lparr>sw_files := AList.update n [] (sw_files w), sw_name := n\<rparr>)
      | Mode_a \<Rightarrow> (Inr 0, w\<lparr>sw_name := n,
          sw_files := (if map_of (sw_files w) n = None then AList.update n [] (sw_files w)
                       else sw_files w)\<rparr>))"

definition sample_fwrite :: "bytes \<Rightarrow> sample_world \<Rightarrow> sysresult \<times> sample_world" where
  "sample_fwrite d w =
     (None, case map_of (sw_files w) (sw_name w) of
        None \<Rightarrow> w
      | Some c \<Rightarrow> w\<lparr>sw_files := AList.update (sw_name w) (c @ d) (sw_files w)\<rparr>)"

text \<open>The one content the sample codec knows.\<close>

definition sample_content :: Content where
  "sample_content = Content_paxos 0 (PaxosMessage_default\<lparr>pm_type := NEW_CHOSEN_VALUE, pm_node_id := 2\<rparr>)"

text \<open>Node 1 of group 0, with the default options apart from the storage path.\<close>

definition sample_env :: "(sample_db, sample_world) env" where
  "sample_env =
     \<lparr>cfg_node_id = 1, cfg_group_id = 0, cfg_propose_timeout = 1000,
      cfg_keep_checkpoint_count = 3, cfg_log_sync = True, cfg_sync_interval = 5,
      cfg_keep_log_count = 100000, cfg_log_storage_path = ''db/g0'',
      cfg_log_path = ''db/g0/log'', cfg_checkpoint_path = ''db/g0/checkpoint'',
      cfg_temp_checkpoint_path = ''db/g0/checkpoint/tempcheckpoint'',
      cfg_use_master = True, cfg_lease_timeout = 10000,
      ldb_open = (\<lambda>_ _ w. ((LOk, []), w)),
      ldb_put = (\<lambda>_ k v d. (LOk, AList.update k v d)),
      ldb_delete = (\<lambda>_ k d. (LOk, AList.delete k d)),
      ldb_write = (\<lambda>_ ops d. (LOk, fold apply_op ops d)),
      ldb_get = (\<lambda>k d. case map_of d k of None \<Rightarrow> (LNotFound, []) | Some v \<Rightarrow> (LOk, v)),
      ldb_keys = (\<lambda>cmp d. sample_keys cmp (map fst d)),
      encode32 = le_encode32, encode64 = le_encode64,
      decode32 = le_decode32, decode64 = le_decode64,
      crc32c = (\<lambda>b. word_of_nat (sum_list (map unat b))),
      ser_instance = sample_ser, parse_instance = sample_parse,
      ser_change = (\<lambda>_. []), parse_change = (\<lambda>_. (False, \<lparr>mc_member = [], mc_type = []\<rparr>)),
      ser_master = (\<lambda>m. le_encode64 (mst_version m) @ le_encode64 (mst_node_id m) @
        le_encode64 (mst_lease_time m)),
      parse_master = (\<lambda>b. (24 \<le> length b, \<lparr>mst_version = le_decode64 b,
        mst_node_id = le_decode64 (drop 8 b), mst_lease_time = le_decode64 (drop 16 b)\<rparr>)),
      ser_membership = (\<lambda>_. []),
      array_master = (\<lambda>b n. (n = 24, \<lparr>mst_version = le_decode64 b,
        mst_node_id = le_decode64 (drop 8 b), mst_lease_time = le_decode64 (drop 16 b)\<rparr>)),
      array_membership = (\<lambda>_ _. (False, Membership_default)),
      ser_content = (\<lambda>c. if c = sample_content then (True, [42]) else (False, [])),
      parse_content = (\<lambda>b. (b = [42], sample_content)), content_size = (\<lambda>_. 1),
      gettimeofday = (\<lambda>w. ((sw_clock w, 0), w\<lparr>sw_clock := sw_clock w + 1\<rparr>)),
      read_u64 = (\<lambda>_ _. 0),
      new_timer = (\<lambda>live w. (Suc (foldr max live 0), w)),
      uniform_int = (\<lambda>lo hi w. (lo, w)),
      sm_execute = (\<lambda>_ _ _ _ _ w. (True, w)), sm_recover = (\<lambda>_ _ _ _ w. (True, w)),
      sm_make_checkpoint = (\<lambda>_ _ _ _ w. (True, w)), sm_get_checkpoint = (\<lambda>_ _ _ _ w. ((True, []), w)),
      has_cluster = False, newest_membership = (\<lambda>_ _. []), followers = (\<lambda>_ _. []),
      membership_cb = None, master_cb = None,
      sys_mkdir = (\<lambda>_ w. (None, w)), sys_rmdir = (\<lambda>_ w. (None, w)),
      sys_unlink = (\<lambda>n w. (None, w\<lparr>sw_files := AList.delete n (sw_files w)\<rparr>)),
      sys_rename = (\<lambda>_ _ w. (None, w)), sys_access = (\<lambda>_ _. True),
      sys_readdir = (\<lambda>_ w. Inr (sw_dir w)),
      sys_fopen = sample_fopen,
      sys_fread = (\<lambda>_ k w. ((take k (sw_left w), None), w\<lparr>sw_left := drop k (sw_left w)\<rparr>)),
      sys_fwrite = (\<lambda>_ d w. sample_fwrite d w),
      sys_fsync = (\<lambda>_ w. (None, w)), sys_fclose = (\<lambda>_ w. (None, w)),
      sys_fseek = (\<lambda>_ n w. (None, w\<lparr>sw_left := drop (unat n) (sw_left w)\<rparr>)),
      sys_fflush = (\<lambda>_ w. (None, w)),
      sys_stat = (\<lambda>n w. case map_of (sw_files w) n of None \<Rightarrow> Inl ''No such file or directory''
        | Some c \<Rightarrow> Inr (word_of_nat (length c))),
      sys_open = (\<lambda>n w. (Inr 3, w)), sys_close = (\<lambda>_ w. w),
      sys_pread = (\<lambda>_ _ _ _. Inr []), sys_mmap = (\<lambda>_ _ w. (Inr 7, w)), sys_munmap = (\<lambda>_ _ w. w),
      region_read = (\<lambda>_ _ _ _. [])\<rparr>"

section \<open>It is as relied on\<close>

lemma sample_coding: "coding_ok sample_env"
  by (simp add: coding_ok_def sample_env_def)

lemma sample_leveldb: "leveldb_ok sample_env map_of"
proof -
  have "set (sample_keys cmp (map fst d)) = dom (map_of d)" for cmp and d :: sample_db
    by (simp add: dom_map_of_conv_image_fst)
  moreover have "sorted_wrt (\<lambda>a b. cmp a b < 0) (sample_keys cmp (map fst d))"
    if "strict_order_on cmp (dom (map_of d))" for cmp and d :: sample_db
    using sorted_sample_keys [of cmp "map fst d"] that by (simp add: dom_map_of_conv_image_fst)
  ultimately show ?thesis
    by (simp add: leveldb_ok_def sample_env_def update_conv' delete_conv' map_of_apply_ops)
qed

lemma sample_storage: "storage_ok sample_env map_of"
  by (simp add: storage_ok_def sample_leveldb sample_coding)

lemma sample_codec: "instance_codec_ok sample_env"
  by (simp add: instance_codec_ok_def sample_env_def sample_parse_ser)

lemma sample_content_codec: "content_codec_ok sample_env"
  by (simp add: content_codec_ok_def sample_env_def)

lemma sample_stdio:
  "stdio_ok sample_env (\<lambda>w. map_of (sw_files w)) (\<lambda>w _. sw_left w) (\<lambda>w _. sw_name w)"
  by (auto simp: stdio_ok_def sample_env_def sample_fopen_def sample_fwrite_def update_conv')

lemma sample_append: "append_ok sample_env (\<lambda>w. map_of (sw_files w)) (\<lambda>w _. sw_name w)"
  by (auto simp: append_ok_def sample_env_def sample_fopen_def sample_fwrite_def update_conv'
      fun_upd_idem split: option.split)

lemma sample_alloc: "alloc_ok sample_env"
proof -
  have "x \<in> set xs \<Longrightarrow> x \<le> foldr max xs 0" for x :: nat and xs
    by (induction xs) auto
  then show ?thesis by (force simp: alloc_ok_def sample_env_def)
qed

end
