(* ===== verification/Logging.thy ===== *)
theory Logging
  imports Decimals
begin

text \<open>
  Logging, \<^verbatim>\<open>src/util/logging.cc\<close>: the level and the handler every message passes, and the
  default handler, which prints a line with a time stamp to \<^verbatim>\<open>stderr\<close> and stops the process
  after a fatal message.
\<close>

section \<open>Levels\<close>

datatype LogLevel = LOGLEVEL_DEBUG | LOGLEVEL_INFO | LOGLEVEL_WARN | LOGLEVEL_ERROR | LOGLEVEL_FATAL

text \<open>The levels are ordered as the enumeration numbers them.\<close>

primrec level_no :: "LogLevel \<Rightarrow> nat" where
  "level_no LOGLEVEL_DEBUG = 0"
| "level_no LOGLEVEL_INFO = 1"
| "level_no LOGLEVEL_WARN = 2"
| "level_no LOGLEVEL_ERROR = 3"
| "level_no LOGLEVEL_FATAL = 4"

lemma level_no_inject [simp]: "level_no a = level_no b \<longleftrightarrow> a = b"
  by (cases a; cases b) simp_all

instantiation LogLevel :: linorder
begin

definition less_eq_LogLevel :: "LogLevel \<Rightarrow> LogLevel \<Rightarrow> bool" where
  "less_eq_LogLevel a b \<longleftrightarrow> level_no a \<le> level_no b"

definition less_LogLevel :: "LogLevel \<Rightarrow> LogLevel \<Rightarrow> bool" where
  "less_LogLevel a b \<longleftrightarrow> level_no a < level_no b"

instance
  by standard (auto simp: less_eq_LogLevel_def less_LogLevel_def)

end

definition loglevel_names :: "string list" where
  "loglevel_names = [''DEBUG'', ''INFO'', ''WARN'', ''ERROR'', ''FATAL'']"

section \<open>State\<close>

text \<open>
  A message is what the macros pass: level, file, line, and the text its format and arguments
  stand for. \<open>stderr_lines\<close> is what was printed, \<open>clock\<close> the readings of \<^verbatim>\<open>gettimeofday\<close> and
  \<^verbatim>\<open>localtime_r\<close> to come.
\<close>

record log_message =
  lm_level :: LogLevel
  lm_file :: string
  lm_line :: int
  lm_text :: string

record local_time =
  tm_year :: int
  tm_mon :: int
  tm_mday :: int
  tm_hour :: int
  tm_min :: int
  tm_sec :: int
  tv_usec :: int

record process =
  stderr_lines :: "string list"
  stopped :: bool
  clock :: "nat \<Rightarrow> local_time"

section \<open>The default handler\<close>

text \<open>
  \<^verbatim>\<open>snprintf\<close> into a buffer of \<open>n\<close> characters: all but the last hold the text, cut where
  needed, and the result is the length the text has without the cut.
\<close>

definition snprintf :: "nat \<Rightarrow> string \<Rightarrow> string \<times> nat" where
  "snprintf n t = (take (n - 1) t, length t)"

definition log_header :: "local_time \<Rightarrow> log_message \<Rightarrow> string" where
  "log_header t m =
     ''['' @ print_int 4 (tm_year t + 1900) @ ''/'' @ print_int 2 (tm_mon t + 1) @ ''/'' @
     print_int 2 (tm_mday t) @ ''-'' @ print_int 2 (tm_hour t) @ '':'' @ print_int 2 (tm_min t) @ '':'' @
     print_int 2 (tm_sec t) @ ''.'' @ print_int 6 (tv_usec t) @ '']['' @
     loglevel_names ! level_no (lm_level m) @ '' '' @ lm_file m @ '':'' @ print_int 0 (lm_line m) @ ''] ''"

text \<open>One pass of the loop with a buffer of \<open>bufsize\<close> characters: the contents of the buffer and
  the position \<open>p\<close>.\<close>

definition format_pass :: "nat \<Rightarrow> local_time \<Rightarrow> log_message \<Rightarrow> string \<times> nat" where
  "format_pass bufsize t m =
     (let (base, p) = snprintf bufsize (log_header t m)
      in if p < bufsize
         then (let (rest, n) = snprintf (bufsize - p) (lm_text m) in (base @ rest, p + n))
         else (base, p))"

text \<open>The two passes: a buffer of 500 characters, then, if the line did not fit, one of 30000.
  The clock is read in each.\<close>

definition read_clock :: "process \<Rightarrow> local_time \<times> process" where
  "read_clock w = (clock w 0, w\<lparr>clock := \<lambda>i. clock w (Suc i)\<rparr>)"

definition print_line :: "string \<Rightarrow> process \<Rightarrow> process" where
  "print_line s w = w\<lparr>stderr_lines := stderr_lines w @ [c_str s]\<rparr>"

definition DefaultLogHandler :: "log_message \<Rightarrow> process \<Rightarrow> process" where
  "DefaultLogHandler m w =
     (let (t, w1) = read_clock w;
          (base, p) = format_pass 500 t m;
          w2 = (if p \<ge> 500
                then (let (t', w') = read_clock w1 in print_line (fst (format_pass 30000 t' m)) w')
                else print_line base w1)
      in if lm_level m = LOGLEVEL_FATAL then w2\<lparr>stopped := True\<rparr> else w2)"

section \<open>Log\<close>

text \<open>The handler is a function on the world of the process, \<^const>\<open>None\<close> the null pointer.\<close>

record logger =
  log_handler :: "(log_message \<Rightarrow> process \<Rightarrow> process) option"
  log_level :: LogLevel

definition logger_initial :: logger where
  "logger_initial = \<lparr>log_handler = Some DefaultLogHandler, log_level = LOGLEVEL_DEBUG\<rparr>"

definition Log :: "logger \<Rightarrow> log_message \<Rightarrow> process \<Rightarrow> process" where
  "Log g m w =
     (case log_handler g of
        Some handler \<Rightarrow> (if lm_level m \<ge> log_level g then handler m w else w)
      | None \<Rightarrow> w)"

definition SetLogHandler ::
    "(log_message \<Rightarrow> process \<Rightarrow> process) option \<Rightarrow> logger \<Rightarrow> (log_message \<Rightarrow> process \<Rightarrow> process) option \<times> logger" where
  "SetLogHandler new_handler g = (log_handler g, g\<lparr>log_handler := new_handler\<rparr>)"

definition SetLogLevel :: "LogLevel \<Rightarrow> logger \<Rightarrow> LogLevel \<times> logger" where
  "SetLogLevel new_level g = (log_level g, g\<lparr>log_level := new_level\<rparr>)"

section \<open>What is printed\<close>

lemma format_pass_eq: "0 < n \<Longrightarrow> fst (format_pass n t m) = take (n - 1) (log_header t m @ lm_text m)"
  by (auto simp: format_pass_def snprintf_def Let_def)

lemma format_pass_fits:
  "snd (format_pass n t m) < n \<longleftrightarrow> length (log_header t m) + length (lm_text m) < n"
  by (auto simp: format_pass_def snprintf_def Let_def)

lemma take_small: "length xs < n \<Longrightarrow> take (n - 1) xs = xs"
  by simp

text \<open>A fatal message passes every level.\<close>

lemma fatal_is_top [simp]: "a \<le> LOGLEVEL_FATAL"
  by (cases a) (simp_all add: less_eq_LogLevel_def)

lemma SetLogLevel_restores: "SetLogLevel (fst (SetLogLevel l g)) (snd (SetLogLevel l g)) = (l, g)"
  by (simp add: SetLogLevel_def)

text \<open>
  With the default handler a message at or above the level is printed as one line, time stamp,
  level, place and text, cut at 29999 characters; nothing shorter is cut, whichever of the two
  buffers was used. A message below the level changes nothing, and a fatal one always stops the
  process.
\<close>

theorem Log_prints:
  assumes "log_handler g = Some DefaultLogHandler"
  shows "if log_level g \<le> lm_level m
    then \<exists>t \<in> {clock w 0, clock w 1}.
           stderr_lines (Log g m w) = stderr_lines w @ [c_str (take 29999 (log_header t m @ lm_text m))] \<and>
           (stopped (Log g m w) \<longleftrightarrow> stopped w \<or> lm_level m = LOGLEVEL_FATAL)
    else Log g m w = w \<and> lm_level m \<noteq> LOGLEVEL_FATAL"
proof (cases "log_level g \<le> lm_level m")
  case True
  let ?t = "clock w 0"
  have log: "Log g m w = DefaultLogHandler m w" using assms True by (simp add: Log_def)
  show ?thesis
  proof (cases "snd (format_pass 500 ?t m) < 500")
    case fits: True
    then have "take 29999 (log_header ?t m @ lm_text m) = fst (format_pass 500 ?t m)"
      by (simp add: format_pass_fits format_pass_eq)
    with fits True show ?thesis
      by (auto simp: log DefaultLogHandler_def read_clock_def print_line_def Let_def case_prod_beta)
  next
    case False
    with True show ?thesis
      by (auto simp: log DefaultLogHandler_def read_clock_def print_line_def Let_def case_prod_beta format_pass_eq)
  qed
next
  case False
  then show ?thesis using assms by (auto simp: Log_def)
qed

end
