(* ===== verification/LoopThreads.thy ===== *)
theory LoopThreads
  imports Prelude
begin

text \<open>
  \<^verbatim>\<open>RunLoopThread\<close>, \<^verbatim>\<open>src/util/runloop_thread.cc\<close>: a thread that runs a loop, started and
  joined by its owner. Both threads work on \<^verbatim>\<open>loop_\<close> and, through it, on \<^verbatim>\<open>exit_\<close> of the loop
  (\<^verbatim>\<open>RunLoop::Loop\<close> and \<^verbatim>\<open>RunLoop::Exit\<close>). A step is one access to what they share; the steps
  of the two threads interleave.
\<close>

section \<open>State\<close>

text \<open>Where the owner is: not started, in the wait of \<^verbatim>\<open>Loop\<close>, running, in the destructor
  before and after the call of \<^verbatim>\<open>Exit\<close>, destroyed.\<close>

datatype owner_pc = Owner_new | Owner_waits | Owner_runs | Owner_exits | Owner_joins | Owner_gone

text \<open>Where the thread is: not created, before it publishes its loop, before
  \<^verbatim>\<open>RunLoop::Loop\<close>, in the loop, after it, ended.\<close>

datatype thread_pc = Thread_none | Thread_begins | Thread_published | Thread_loops | Thread_leaves | Thread_ended

record loop_thread =
  owner :: owner_pc
  thread :: thread_pc
  has_loop :: bool
  exit_set :: bool

definition RunLoopThread_new :: loop_thread where
  "RunLoopThread_new = \<lparr>owner = Owner_new, thread = Thread_none, has_loop = False, exit_set = False\<rparr>"

section \<open>The owner\<close>

text \<open>\<^verbatim>\<open>Loop\<close>: the assertion that there is no thread yet, the start, and the wait for
  \<^verbatim>\<open>loop_\<close>. \<^const>\<open>None\<close> is a thread that does not get on.\<close>

definition Loop_start :: "loop_thread \<Rightarrow> loop_thread option" where
  "Loop_start s =
     (if owner s = Owner_new \<and> thread s = Thread_none
      then Some (s\<lparr>owner := Owner_waits, thread := Thread_begins\<rparr>) else None)"

definition Loop_returns :: "loop_thread \<Rightarrow> loop_thread option" where
  "Loop_returns s = (if owner s = Owner_waits \<and> has_loop s then Some (s\<lparr>owner := Owner_runs\<rparr>) else None)"

text \<open>The destructor: the test of \<^verbatim>\<open>loop_\<close>, the call of \<^verbatim>\<open>Exit\<close>, the join.\<close>

definition Destroy_begin :: "loop_thread \<Rightarrow> loop_thread option" where
  "Destroy_begin s =
     (if owner s = Owner_new \<or> owner s = Owner_runs
      then Some (s\<lparr>owner := if has_loop s then Owner_exits else Owner_joins\<rparr>) else None)"

definition Destroy_exit :: "loop_thread \<Rightarrow> loop_thread option" where
  "Destroy_exit s = (if owner s = Owner_exits then Some (s\<lparr>owner := Owner_joins, exit_set := True\<rparr>) else None)"

definition Destroy_join :: "loop_thread \<Rightarrow> loop_thread option" where
  "Destroy_join s =
     (if owner s = Owner_joins \<and> (thread s = Thread_none \<or> thread s = Thread_ended)
      then Some (s\<lparr>owner := Owner_gone\<rparr>) else None)"

section \<open>The thread\<close>

text \<open>\<^verbatim>\<open>ThreadFunc\<close>: a new loop is published, \<^verbatim>\<open>RunLoop::Loop\<close> begins by clearing
  \<^verbatim>\<open>exit_\<close> and runs until it is set, then \<^verbatim>\<open>loop_\<close> is cleared.\<close>

definition Thread_publish :: "loop_thread \<Rightarrow> loop_thread option" where
  "Thread_publish s =
     (if thread s = Thread_begins then Some (s\<lparr>thread := Thread_published, has_loop := True, exit_set := False\<rparr>) else None)"

definition Thread_enter :: "loop_thread \<Rightarrow> loop_thread option" where
  "Thread_enter s = (if thread s = Thread_published then Some (s\<lparr>thread := Thread_loops, exit_set := False\<rparr>) else None)"

definition Thread_leave :: "loop_thread \<Rightarrow> loop_thread option" where
  "Thread_leave s = (if thread s = Thread_loops \<and> exit_set s then Some (s\<lparr>thread := Thread_leaves\<rparr>) else None)"

definition Thread_end :: "loop_thread \<Rightarrow> loop_thread option" where
  "Thread_end s = (if thread s = Thread_leaves then Some (s\<lparr>thread := Thread_ended, has_loop := False\<rparr>) else None)"

section \<open>Runs\<close>

inductive thread_step :: "loop_thread \<Rightarrow> loop_thread \<Rightarrow> bool" where
  loop_start: "Loop_start s = Some t \<Longrightarrow> thread_step s t"
| loop_returns: "Loop_returns s = Some t \<Longrightarrow> thread_step s t"
| destroy_begin: "Destroy_begin s = Some t \<Longrightarrow> thread_step s t"
| destroy_exit: "Destroy_exit s = Some t \<Longrightarrow> thread_step s t"
| destroy_join: "Destroy_join s = Some t \<Longrightarrow> thread_step s t"
| publish: "Thread_publish s = Some t \<Longrightarrow> thread_step s t"
| enter: "Thread_enter s = Some t \<Longrightarrow> thread_step s t"
| leave: "Thread_leave s = Some t \<Longrightarrow> thread_step s t"
| ended: "Thread_end s = Some t \<Longrightarrow> thread_step s t"

lemmas thread_defs = Loop_start_def Loop_returns_def Destroy_begin_def Destroy_exit_def Destroy_join_def
  Thread_publish_def Thread_enter_def Thread_leave_def Thread_end_def

inductive_simps thread_step_simps: "thread_step s t"

text \<open>
  The owner does not go ahead of the thread: until it has called \<^verbatim>\<open>Exit\<close>, the thread is on its
  way into its loop or in it, and has published the loop before the owner runs.
\<close>

definition thread_inv :: "loop_thread \<Rightarrow> bool" where
  "thread_inv s \<longleftrightarrow>
     (has_loop s \<longleftrightarrow> thread s \<in> {Thread_published, Thread_loops, Thread_leaves}) \<and>
     (owner s = Owner_new \<longrightarrow> thread s = Thread_none \<and> \<not> exit_set s) \<and>
     (owner s = Owner_waits \<longrightarrow> thread s \<in> {Thread_begins, Thread_published, Thread_loops} \<and> \<not> exit_set s) \<and>
     (owner s \<in> {Owner_runs, Owner_exits} \<longrightarrow> thread s \<in> {Thread_published, Thread_loops} \<and> \<not> exit_set s)"

lemma thread_inv_step: "thread_step s t \<Longrightarrow> thread_inv s \<Longrightarrow> thread_inv t"
  by (erule thread_step.cases; cases "owner s"; cases "thread s";
      clarsimp simp: thread_defs thread_inv_def split: if_splits)

lemma thread_inv_run: "thread_step\<^sup>*\<^sup>* RunLoopThread_new s \<Longrightarrow> thread_inv s"
proof (induction rule: rtranclp_induct)
  case base
  show ?case by (simp add: thread_inv_def RunLoopThread_new_def)
next
  case (step s t)
  then show ?case by (blast intro: thread_inv_step)
qed

text \<open>A shutdown that is under way in the loop: what is left to do gets done.\<close>

definition shutting_down :: "loop_thread \<Rightarrow> bool" where
  "shutting_down s \<longleftrightarrow>
     owner s = Owner_joins \<and> (thread s = Thread_loops \<and> exit_set s \<or> thread s \<in> {Thread_leaves, Thread_ended}) \<or>
     owner s = Owner_gone"

lemma shutting_down_step: "thread_step s t \<Longrightarrow> shutting_down s \<Longrightarrow> shutting_down t"
  by (erule thread_step.cases) (auto simp: thread_defs shutting_down_def split: if_splits)

definition can_join :: "loop_thread \<Rightarrow> bool" where
  "can_join s \<longleftrightarrow> (\<exists>t. thread_step\<^sup>*\<^sup>* s t \<and> owner t = Owner_gone)"

lemma can_join_back: "thread_step s t \<Longrightarrow> can_join t \<Longrightarrow> can_join s"
  unfolding can_join_def by (blast intro: converse_rtranclp_into_rtranclp)

lemma can_join_gone: "owner s = Owner_gone \<Longrightarrow> can_join s"
  unfolding can_join_def by blast

lemma can_join_ended: "owner s = Owner_joins \<Longrightarrow> thread s = Thread_ended \<Longrightarrow> can_join s"
  by (rule can_join_back [of _ "s\<lparr>owner := Owner_gone\<rparr>"])
    (simp_all add: destroy_join thread_defs can_join_gone)

lemma can_join_leaves: "owner s = Owner_joins \<Longrightarrow> thread s = Thread_leaves \<Longrightarrow> can_join s"
  by (rule can_join_back [of _ "s\<lparr>thread := Thread_ended, has_loop := False\<rparr>"])
    (simp_all add: ended thread_defs can_join_ended)

lemma can_join_loops: "owner s = Owner_joins \<Longrightarrow> thread s = Thread_loops \<Longrightarrow> exit_set s \<Longrightarrow> can_join s"
  by (rule can_join_back [of _ "s\<lparr>thread := Thread_leaves\<rparr>"])
    (simp_all add: leave thread_defs can_join_leaves)

lemma shutting_down_completes: "shutting_down s \<Longrightarrow> can_join s"
  by (auto simp: shutting_down_def intro: can_join_loops can_join_leaves can_join_ended can_join_gone)

text \<open>
  C30. Shutting a loop down. When the destructor calls \<^verbatim>\<open>Exit\<close>, the thread is in its loop or on its
  way into it. In its loop it sees the request: whatever happens next, the shutdown can complete.
  On its way into it the request is lost: \<^verbatim>\<open>RunLoop::Loop\<close> clears the flag, after which no
  thread can take a step, and the destructor waits for ever.
\<close>

theorem exit_before_loop_is_lost:
  assumes "thread_step\<^sup>*\<^sup>* RunLoopThread_new s" and "Destroy_exit s = Some s'"
  shows "if thread s = Thread_loops
    then \<forall>t. thread_step\<^sup>*\<^sup>* s' t \<longrightarrow> can_join t
    else \<exists>t. Thread_enter s' = Some t \<and> owner t = Owner_joins \<and> (\<forall>u. \<not> thread_step t u)"
proof -
  have exits: "owner s = Owner_exits" and s': "s' = s\<lparr>owner := Owner_joins, exit_set := True\<rparr>"
    using assms(2) by (auto simp: Destroy_exit_def split: if_splits)
  with thread_inv_run [OF assms(1)] have at: "thread s = Thread_published \<or> thread s = Thread_loops"
    by (auto simp: thread_inv_def)
  show ?thesis
  proof (cases "thread s = Thread_loops")
    case True
    have start: "shutting_down s'" using True by (simp add: s' shutting_down_def)
    have "shutting_down t" if "thread_step\<^sup>*\<^sup>* s' t" for t
      using that by (induction rule: rtranclp_induct) (auto intro: start shutting_down_step)
    with True shutting_down_completes show ?thesis by simp
  next
    case False
    with at have "Thread_enter s' = Some (s'\<lparr>thread := Thread_loops, exit_set := False\<rparr>)" by (simp add: Thread_enter_def s')
    moreover have "\<not> thread_step (s'\<lparr>thread := Thread_loops, exit_set := False\<rparr>) u" for u
      by (simp add: thread_step_simps thread_defs s')
    ultimately show ?thesis using False by (simp add: s')
  qed
qed

end
