(* ===== verification/Evidence.thy ===== *)
theory Evidence
  imports Durability Rounds Loops Agreement Startup Solo Networks Transmission Samples Logging LoopThreads
begin

text \<open>
  The theorems at concrete inputs: each one here applies a theorem of the development to a
  node on the sample environment, and shows that its hypotheses hold there together.
\<close>

section \<open>A sample node\<close>

definition sample_member :: "u64 \<Rightarrow> u64 \<times> MemberMessage" where
  "sample_member n = (n, \<lparr>mb_id = n, mb_host = ''127.0.0.1'', mb_port = 5000, mb_context = []\<rparr>)"

text \<open>Node 1 of the cluster 1, 2, 3, at instance 7, with a user machine 5.\<close>

definition sample_node_in :: "'w \<Rightarrow> (u32 \<times> machine) list \<Rightarrow> (sample_db, 'w) node" where
  "sample_node_in w ms =
     \<lparr>world = w, aborted = False, machines = ms,
      membership = \<lparr>ms_version = 0, ms_members = map sample_member [1, 2, 3]\<rparr>,
      master = MasterState_default, checkpoints = [], latest_checkpoint_instance_id = 0,
      oldest_checkpoint_instance_id = 0, make_checkpoint = False, make_checkpoint_result = [],
      checkpoint_locked = False, clean_loop = RunLoop_new 0, io_loop_set = True,
      db = [], min_chosen_id = 0, max_chosen_id = 6, gc_started = False, gc_timer = (0, 0),
      acceptor = Acceptor_new\<lparr>acc_instance_id := 7\<rparr>,
      learner = (Learner_new 1)\<lparr>lrn_instance_id := 7\<rparr>,
      proposer = (Proposer_new 1)\<lparr>pro_instance_id := 7, proposal_id := 1\<rparr>,
      instance_id = 7, is_proposing = False, context_ptr = Null,
      propose_value = PaxosValue_default, propose_timer = (0, 0), seq_num = 0,
      queue = ProposeQueue_new 100, io_loop = RunLoop_new 0, callback_loop = RunLoop_new 0,
      learn_loop = RunLoop_new 0, net = [], receiver = CheckpointReceiver_Reset,
      sender = \<lparr>receiver_node_id = 0, snd_sequence_id = 0, ack_sequence_id = 0, snd_flag = True\<rparr>,
      is_sending_checkpoint = False\<rparr>"

definition sample_node :: "(sample_db, sample_world) node" where
  "sample_node = sample_node_in sample_world0 [(1, Membership_machine), (2, Master_machine), (5, User_machine)]"

text \<open>A prepare and an accept of node 2 with the ballot (3, 2).\<close>

definition sample_prepare :: PaxosMessage where
  "sample_prepare = PaxosMessage_default\<lparr>pm_type := PREPARE, pm_node_id := 2, pm_instance_id := 7,
     pm_proposal_id := 3\<rparr>"

definition sample_accept :: PaxosMessage where
  "sample_accept = sample_prepare\<lparr>pm_type := ACCEPT,
     pm_value := \<lparr>pv_value_id = 9, pv_machine_id = 5, pv_user_data = [1, 2]\<rparr>\<rparr>"

lemma sample_node_ok: "node_ok sample_node"
  by (simp add: node_ok_def sample_node_def sample_node_in_def Acceptor_new_def Learner_new_def Proposer_new_def)

lemma sample_node_simps [simp]:
  "acceptor sample_node = Acceptor_new\<lparr>acc_instance_id := 7\<rparr>" "instance_id sample_node = 7"
  "db sample_node = []" "world sample_node = sample_world0"
  "ms_members (membership sample_node) = map sample_member [1, 2, 3]"
  by (simp_all add: sample_node_def sample_node_in_def)

lemma sample_messages [simp]:
  "pm_instance_id sample_prepare = 7" "pm_node_id sample_prepare = 2"
  "pm_proposal_id sample_prepare = 3" "pm_instance_id sample_accept = 7"
  "pm_node_id sample_accept = 2" "pm_proposal_id sample_accept = 3"
  by (simp_all add: sample_prepare_def sample_accept_def)

lemma sample_ids [simp]: "cfg_node_id sample_env = 1" "acc_instance_id Acceptor_new = 0"
  by (simp_all add: sample_env_def Acceptor_new_def)

lemma sample_empty_log [simp]: "log_of sample_env Map.empty = Map.empty"
  "log_below sample_env Map.empty i" "records_ok sample_env Map.empty" "keys_ok sample_env Map.empty"
  by (auto simp: log_of_def log_below_def records_ok_def keys_ok_def)

section \<open>Messages\<close>

theorem OnPaxosMessage_safe_witness:
  "node_ok sample_node \<and>
   (let s = sample_node; s' = OnPaxosMessage sample_env sample_accept s
    in node_ok s' \<and> promised_ballot (acceptor s) \<le> promised_ballot (acceptor s') \<and>
      (instance_id s' = instance_id s \<and>
         accepted_ballot (acceptor s) \<le> accepted_ballot (acceptor s') \<or>
       instance_id s' = instance_id s + 1 \<and> \<not> has_learned (learner s')))"
  using OnPaxosMessage_safe [OF sample_node_ok, of sample_env sample_accept] sample_node_ok
  unfolding Let_def by blast

theorem OnPrepare_answers_witness:
  "votes (acceptor (Acceptor_OnPrepare sample_env (OnPaxosMessage sample_env) sample_prepare sample_node)) =
     votes (Acceptor_new\<lparr>acc_instance_id := 7, promised_ballot := BallotNumber 3 2\<rparr>) \<and>
   length (net (Acceptor_OnPrepare sample_env (OnPaxosMessage sample_env) sample_prepare sample_node)) = 1"
proof -
  have d: "promised_ballot (acceptor sample_node) \<le> BallotNumber 3 2" by (simp add: Acceptor_new_def)
  show ?thesis
    using OnPrepare_answers [OF sample_storage, of sample_prepare sample_node "OnPaxosMessage sample_env"] d
    by (simp add: vote_prepare_def Let_def sample_node_def sample_node_in_def)
qed

theorem OnAccpet_answers_witness:
  "votes (acceptor (Acceptor_OnAccpet sample_env (OnPaxosMessage sample_env) sample_accept sample_node)) =
     votes (Acceptor_new\<lparr>acc_instance_id := 7, promised_ballot := BallotNumber 3 2,
       accepted_ballot := BallotNumber 3 2, accepted_value := pm_value sample_accept\<rparr>) \<and>
   length (net (Acceptor_OnAccpet sample_env (OnPaxosMessage sample_env) sample_accept sample_node)) = 1"
proof -
  have d: "promised_ballot (acceptor sample_node) \<le> BallotNumber 3 2" by (simp add: Acceptor_new_def)
  show ?thesis
    using OnAccpet_answers [OF sample_storage, of sample_accept sample_node "OnPaxosMessage sample_env"] d
    by (simp add: vote_accept_def Let_def sample_node_def sample_node_in_def)
qed

theorem vote_survives_restart_witness:
  "let s' = Acceptor_OnAccpet sample_env (OnPaxosMessage sample_env) sample_accept sample_node;
       t = sample_node\<lparr>db := db s', acceptor := Acceptor_new\<rparr>
   in fst (Acceptor_Recover sample_env 1 t) = (True, 7) \<and>
      votes (acceptor (snd (Acceptor_Recover sample_env 1 t))) = votes (acceptor s')"
proof -
  let ?s' = "Acceptor_OnAccpet sample_env (OnPaxosMessage sample_env) sample_accept sample_node"
  have i: "acc_instance_id (acceptor ?s') = 7"
    by (simp add: Acceptor_OnAccpet_def Let_def Unicast_sent Acceptor_new_def)
  show ?thesis
    using vote_survives_restart [OF sample_storage sample_codec, of sample_node sample_accept ?s'
        "OnPaxosMessage sample_env" "sample_node\<lparr>db := db ?s', acceptor := Acceptor_new\<rparr>" 1] i
    by (simp add: Let_def kMinChosenKey_def Acceptor_new_def)
qed

theorem OnPaxosMessage_durable_witness:
  "durable sample_env map_of sample_node \<and>
   durable sample_env map_of (OnPaxosMessage sample_env sample_accept sample_node)"
proof -
  have d: "durable sample_env map_of sample_node"
    by (simp add: durable_def sample_node_ok)
  then show ?thesis
    using OnPaxosMessage_durable [OF sample_storage sample_codec, of sample_node sample_accept] by simp
qed

theorem Instance_Recover_ready_witness:
  "let r = Instance_Recover sample_env (sample_node\<lparr>acceptor := Acceptor_new\<rparr>)
   in fst r \<and> node_ok (snd r) \<and>
      promised_ballot (acceptor (snd r)) < BallotNumber (proposal_id (proposer (snd r))) 1"
proof -
  let ?s = "sample_node\<lparr>acceptor := Acceptor_new\<rparr>"
  obtain ok s' where r: "Instance_Recover sample_env ?s = (ok, s')" by fastforce
  have e: "DB_GetMaxInstanceId sample_env [] = (1, None)"
    "DB_GetMinChosenInstanceId sample_env [] = (1, None)"
    by (simp_all add: DB_GetMaxInstanceId_def DB_GetMinChosenInstanceId_def DB_Get_def sample_env_def)
  have "ok" "promised_ballot (acceptor s') = Ballot_default"
    using r by (auto simp: Instance_Recover_def Acceptor_Recover_def Acceptor_ReadFromDB_def e Let_def
        LogManager_Recover_def Acceptor_SetInstanceId_def Acceptor_new_def sample_node_def sample_node_in_def split: if_splits)
  then show ?thesis
    using Instance_Recover_ready [OF sample_storage, of ?s s' 1] r
    by (simp add: Let_def Ballot_default_def)
qed

section \<open>Rounds\<close>

section \<open>Log and files\<close>

theorem DB_GetMaxInstanceId_Max_witness:
  "DB_GetMaxInstanceId sample_env [(le_encode64 4, [1]), (le_encode64 9, [2])] = (0, Some 9)"
proof -
  let ?d = "[(le_encode64 4, [1]), (le_encode64 9, [2])] :: sample_db"
  have enc: "encode64 sample_env = le_encode64" by (simp add: sample_env_def)
  have inj: "le_encode64 a = le_encode64 b \<longleftrightarrow> a = b" for a b
    using encode64_inj [OF sample_coding] by (simp add: enc)
  have "keys_ok sample_env (map_of ?d)" by (auto simp: keys_ok_def enc inj split: if_splits)
  moreover have "dom (log_of sample_env (map_of ?d)) = {4, 9}"
    by (auto simp: log_of_def enc inj split: if_splits)
  ultimately show ?thesis
    using DB_GetMaxInstanceId_Max [OF sample_storage, of ?d]
    by (simp add: Let_def kMinChosenKey_def insert_Diff_if max_def)
qed

theorem ReplayLog_executes_witness:
  "let s = sample_node\<lparr>db := [(le_encode64 3, sample_ser (acceptor_instance Acceptor_new))]\<rparr>
   in ReplayLog sample_env 3 4 s =
     (True, snd (MachineManager_Execute sample_env 3 PaxosValue_default Null s)) \<and>
     ReplayLog sample_env 3 5 s =
     (False, snd (MachineManager_Execute sample_env 3 PaxosValue_default Null s))"
proof -
  let ?s = "sample_node\<lparr>db := [(le_encode64 3, sample_ser (acceptor_instance Acceptor_new))]\<rparr>"
  have n: "unat (4 :: u64) - unat (3 :: u64) = Suc 0" "unat (5 :: u64) - unat (3 :: u64) = Suc (Suc 0)"
    by simp_all
  have enc: "encode64 sample_env = le_encode64" "parse_instance sample_env = sample_parse"
    by (simp_all add: sample_env_def)
  have inj: "le_encode64 a = le_encode64 b \<longleftrightarrow> a = b" for a b
    using encode64_inj [OF sample_coding] by (simp add: enc)
  show ?thesis
    using ReplayLog_executes [OF sample_storage, of 3 4 ?s] ReplayLog_executes [OF sample_storage, of 3 5 ?s]
    unfolding n
    by (simp add: Let_def execute_all_def log_of_def enc inj sample_parse_ser acceptor_instance_def
        Acceptor_new_def)
qed

theorem GCLoop_keeps_needed_witness:
  "log_of sample_env (map_of (db (LogCleaner_GCLoop sample_env sample_node))) 5 = None \<and>
   0 \<le> min_chosen_id (LogCleaner_GCLoop sample_env sample_node)"
  using GCLoop_keeps_needed [OF sample_storage, of 5 sample_node]
  by (simp add: kMinChosenKey_def sample_node_def sample_node_in_def)

theorem ReadFileToString_Write_witness:
  "\<exists>w1 w2. DoWriteStringToFile sample_env [1, 2, 3] ''f'' True sample_world0 = (Status_OK, w1) \<and>
     ReadFileToString sample_env ''f'' w1 = Some ((Status_OK, [1, 2, 3]), w2)"
  by (rule ReadFileToString_Write [OF sample_stdio])

theorem Checkpoint_roundtrip_witness:
  "\<exists>w1 w2. WriteCheckpoint sample_env 0 7 ''f'' [1, 2, 3] sample_world0 = (True, w1) \<and>
     ReadCheckpoint sample_env (\<lambda>b n. (True, take (nat n) b)) 0 7 ''f'' [] w1 = Some ((True, [1, 2, 3]), w2)"
  using Checkpoint_roundtrip [OF sample_coding sample_stdio, of "\<lambda>b. b" "\<lambda>b n. (True, take (nat n) b)"
      "[1, 2, 3]" 0 7 "''f''" sample_world0 0 7 "[]"] by (simp add: array_codec_ok_def kHeaderSize_def)

section \<open>Checkpoints\<close>

definition sample_mach :: "sample_world mach" where
  "sample_mach = (MachineManager_new (\<lambda>_. 0) 0 Membership_default sample_world0)
     \<lparr>world := sample_world0\<lparr>sw_dir := [(''checkpoint-5'', False), (''checkpoint-6'', False),
        (''checkpoint-7'', False), (''checkpoint-8'', False)]\<rparr>\<rparr>"

lemma sample_clean_start: "clean_start sample_env [5, 6, 7, 8] sample_mach"
  by (simp add: clean_start_def sample_mach_def MachineManager_new_def GetChildren_def sample_env_def
      stoull_def is_space_def is_digit_def digits_value_def)

theorem CleanCheckpoint_keeps_newest_witness:
  "set (checkpoints (CleanCheckpoint sample_env sample_mach)) = {6, 7, 8} \<and>
   oldest_checkpoint_instance_id (CleanCheckpoint sample_env sample_mach) = 6"
proof -
  have m: "Min {5, 6, 7, 8 :: u64} = 5" "{5, 6, 7, 8} - {5 :: u64} = {6, 7, 8}"
    "Min {6, 7, 8 :: u64} = 6" by (simp_all add: min_def)
  have k: "cfg_keep_checkpoint_count sample_env = 3" by (simp add: sample_env_def)
  show ?thesis
    using CleanCheckpoint_keeps_newest [OF sample_clean_start] by (simp add: k m Let_def)
qed

theorem CleanCheckpoint_last_not_newest_witness:
  "last (checkpoints (CleanCheckpoint sample_env sample_mach)) < (8 :: u64)"
proof -
  have "Max {5, 6, 7, 8 :: u64} = 8" by (simp add: max_def)
  moreover have "cfg_keep_checkpoint_count sample_env = 3" by (simp add: sample_env_def)
  ultimately show ?thesis
    using CleanCheckpoint_last_not_newest [OF sample_clean_start] by simp
qed

section \<open>Utilities\<close>

theorem Random_Next_mod_witness:
  "unat (Random_Next 42) = 705894 \<and> 0 < unat (Random_new 0) \<and> unat (Random_new 0) < 2147483647"
  using Random_Next_mod [of 42 0] by simp

theorem Status_reads_back_witness:
  "Status_ToString (\<lambda>_. []) (Status_new kTimeout ''late'' []) = ''Timeout: late''"
  using Status_reads_back [of "''late''" "[]" "\<lambda>_. []" kTimeout] by (simp add: code_word_def status_text_def)

section \<open>A group and its proposals\<close>

definition sample_options :: GroupOptions where
  "sample_options = GroupOptions_default\<lparr>log_storage_path := ''db'', opt_membership := [\<lparr>id_of = 1, host_of = ''127.0.0.1'', port_of = 5000, context_of = []\<rparr>],
     opt_machines := [7]\<rparr>"

definition sample_recovered :: "bool \<times> (sample_db, sample_world) group" where
  "sample_recovered = the (Group_Recover sample_env
     (Group_new sample_env sample_options 1 2 (\<lambda>_. 0) 0 CheckpointReceiver_Reset [] sample_world0))"

definition sample_group :: "(sample_db, sample_world) group" where
  "sample_group = Group_Start (snd sample_recovered)"

lemma sample_recovered_ok:
  "Group_Recover sample_env (Group_new sample_env sample_options 1 2 (\<lambda>_. 0) 0 CheckpointReceiver_Reset [] sample_world0) =
     Some (True, snd sample_recovered)"
proof -
  have "\<exists>s. Group_Recover sample_env (Group_new sample_env sample_options 1 2 (\<lambda>_. 0) 0 CheckpointReceiver_Reset [] sample_world0) =
     Some (True, s)"
    by (simp add: op_defs sample_env_def sample_options_def sample_world0_def in_world_def
        GroupOptions_default_def MachineManager_new_def AddMachine_def mach.defs logs.defs node.defs
        CreateDir_def FileExists_def MachineManager_Recover_def CleanCheckpoint_def GetChildren_def
        TryLockCheckpoint_def UnLockCheckpoint_def LogManager_Recover_def
        DB_GetMaxInstanceId_def DB_GetMinChosenInstanceId_def DB_Get_def)
  then show ?thesis by (auto simp: sample_recovered_def)
qed

lemma sample_started: "started sample_env sample_group"
proof -
  have "quiet sample_env = sample_env" by (simp add: quiet_def sample_env_def)
  with sample_recovered_ok show ?thesis unfolding started_def sample_group_def by metis
qed

text \<open>A proposal taken by the idle group: its closure is the only one on the io loop.\<close>

definition sample_proposal :: event where
  "sample_proposal = Taken (ProposeTask 7 [1] Null) (UserCallback 7)"

lemma sample_group_run:
  "\<exists>s. group_run sample_env [sample_proposal] sample_group s \<and>
     funcs (io_loop s) = [Func (ProposeTask 7 [1] Null)] \<and> funcs (callback_loop s) = []"
proof -
  have idle: "last_finished (queue sample_group)" "funcs (io_loop sample_group) = []"
    "funcs (callback_loop sample_group) = []"
  proof -
    have "proposal_state (snd sample_recovered) =
        proposal_state (Group_new sample_env sample_options 1 2 (\<lambda>_. 0) 0 CheckpointReceiver_Reset [] sample_world0)"
      by (rule Group_Recover_proposal [OF sample_recovered_ok])
    then show "last_finished (queue sample_group)" "funcs (io_loop sample_group) = []"
        "funcs (callback_loop sample_group) = []"
      by (simp_all add: sample_group_def Group_Start_def proposal_state_def Group_new_def Instance_new_def
          node.defs logs.defs ProposeQueue_new_def RunLoop_new_def)
  qed
  obtain b s where p: "Group_OnPropose 7 [1] Null (UserCallback 7) sample_group = (b, s)" by fastforce
  then have b: b "funcs (io_loop s) = [Func (ProposeTask 7 [1] Null)]" "funcs (callback_loop s) = []"
    using idle
    by (auto simp: Group_OnPropose_def queue_Put_def ProposeQueue_Put_def RunLoop_QueueInLoop_def)
  with group_step.propose [OF p] have "group_step sample_env [sample_proposal] sample_group s"
    by (simp add: sample_proposal_def)
  from group_run.more [OF group_run.none this] b(2,3) show ?thesis by auto
qed

theorem proposals_answered_in_order_witness:
  "\<exists>s. group_run sample_env [sample_proposal] sample_group s \<and>
     [UserCallback 7] = called_back (callback_loop s) @ cb_queue (queue s)"
  using sample_group_run proposals_answered_in_order [OF sample_started sample_alloc, of "[sample_proposal]"]
  by (fastforce simp: sample_proposal_def taken_def)

theorem proposal_assertions_hold_witness:
  "\<exists>s. group_run sample_env [sample_proposal] sample_group s \<and>
     funcs (io_loop s) = [Func (ProposeTask 7 [1] Null)] \<and> \<not> is_proposing s \<and>
     \<not> last_finished (queue s) \<and> hd (cb_queue (queue s)) = UserCallback 7"
proof -
  obtain s where run: "group_run sample_env [sample_proposal] sample_group s"
    and f: "funcs (io_loop s) = [Func (ProposeTask 7 [1] Null)]" "funcs (callback_loop s) = []"
    using sample_group_run by blast
  show ?thesis
    using run f proposal_assertions_hold [OF sample_started sample_alloc run]
    by (auto simp: Let_def called_back_def sample_proposal_def)
qed

theorem group_paths_distinct_witness:
  "cfg_log_path (the (Config_options 1 3 sample_options)) \<noteq> cfg_log_path (the (Config_options 1 4 sample_options))"
  using group_paths_distinct [of 1 3 sample_options "the (Config_options 1 3 sample_options)" 4
      "the (Config_options 1 4 sample_options)"]
  by (simp add: Config_options_def group_name_def sample_options_def GroupOptions_default_def)

theorem Config_new_machines_witness:
  "map_of (machines (Config_new sample_env sample_options (\<lambda>_. 0) 0 [] sample_world0)) 7 = Some User_machine"
  using Config_new_machines [of sample_options sample_env "\<lambda>_. 0" 0 "[]" sample_world0]
  by (simp add: sample_options_def)

section \<open>Timers\<close>

text \<open>A node whose garbage collection was started at time 0, at time 5000.\<close>

definition sample_collecting :: "(sample_db, sample_world) node" where
  "sample_collecting = sample_node\<lparr>clean_loop := snd (RunEvery True 1 0 3000 GCLoop (RunLoop_new 0))\<rparr>"

theorem clean_timers_return_witness:
  "\<exists>s. RunTimerProcs (\<lambda>s. timer_list (clean_loop s)) (\<lambda>L s. s\<lparr>clean_loop := (clean_loop s)\<lparr>timer_list := L\<rparr>\<rparr>)
       (run_clean_task sample_env) 5000 sample_collecting = Some s \<and>
     due 5000 (timer_list (clean_loop s)) = {} \<and> repeating 1 GCLoop (timer_list (clean_loop s)) \<and>
     due 5000 (timer_list (clean_loop sample_collecting)) = {(3000, 1)}"
proof -
  let ?L = "InsertInLoop (3000, 1) (Timer_new 1 3000 3000 GCLoop (TimerList_new 0))"
  have L: "timer_list (clean_loop sample_collecting) = ?L"
    by (simp add: sample_collecting_def RunEvery_def schedule_def RunInLoop_timer_def RunLoop_new_def)
  have "timers_ok ?L" by (rule timers_ok_schedule) (simp_all add: TimerList_new_def timers_ok_def)
  moreover have "no_wrap 5000 ?L" "repeating 1 GCLoop ?L" "due 5000 ?L = {(3000, 1)}"
    by (auto simp: no_wrap_def repeating_def live_cb_def due_def InsertInLoop_def Timer_new_def TimerList_new_def)
  ultimately show ?thesis
    using clean_timers_return [of sample_collecting 5000 sample_env, unfolded L] L by auto
qed

text \<open>Another thread starts a timer, and the loop inserts it.\<close>

theorem timer_containers_agree_witness:
  "timers_ok (timer_list (RunInLoop_timer True (InsertTimer (3, 1))
     ((snd (schedule False 1 3 0 ''a'' (RunLoop_new 0)))\<lparr>funcs := []\<rparr>)))"
proof -
  let ?l = "snd (schedule False 1 3 0 ''a'' (RunLoop_new 0))"
  have "loop_step (RunLoop_new 0) ?l" by (rule loop_step.start) (simp add: RunLoop_new_def TimerList_new_def)
  moreover have "loop_step ?l (RunInLoop_timer True (InsertTimer (3, 1)) (?l\<lparr>funcs := []\<rparr>))"
    by (rule loop_step.run) (simp add: schedule_def RunInLoop_timer_def RunLoop_QueueInLoop_def RunLoop_new_def)
  ultimately have "loop_step\<^sup>*\<^sup>* (RunLoop_new 0) (RunInLoop_timer True (InsertTimer (3, 1)) (?l\<lparr>funcs := []\<rparr>))" by simp
  from timer_containers_agree [OF this] show ?thesis by blast
qed

text \<open>The destructor of a thread whose loop is published but has not begun.\<close>

theorem exit_before_loop_is_lost_witness:
  "\<exists>s s' t. thread_step\<^sup>*\<^sup>* RunLoopThread_new s \<and> Destroy_exit s = Some s' \<and>
     Thread_enter s' = Some t \<and> owner t = Owner_joins \<and> (\<forall>u. \<not> thread_step t u)"
proof -
  define a where "a = RunLoopThread_new\<lparr>owner := Owner_waits, thread := Thread_begins\<rparr>"
  define b where "b = a\<lparr>thread := Thread_published, has_loop := True\<rparr>"
  define d where "d = b\<lparr>owner := Owner_runs\<rparr>"
  define s where "s = d\<lparr>owner := Owner_exits\<rparr>"
  note defs = a_def b_def d_def s_def RunLoopThread_new_def thread_defs
  have "thread_step RunLoopThread_new a" by (rule loop_start) (simp add: defs)
  moreover have "thread_step a b" by (rule publish) (simp add: defs)
  moreover have "thread_step b d" by (rule loop_returns) (simp add: defs)
  moreover have "thread_step d s" by (rule destroy_begin) (simp add: defs)
  ultimately have run: "thread_step\<^sup>*\<^sup>* RunLoopThread_new s" by (meson rtranclp.intros)
  have "Destroy_exit s = Some (s\<lparr>owner := Owner_joins, exit_set := True\<rparr>)" "thread s \<noteq> Thread_loops"
    by (simp_all add: defs)
  then show ?thesis using exit_before_loop_is_lost [OF run] run by fastforce
qed

section \<open>Logging\<close>

definition sample_process :: process where
  "sample_process =
     \<lparr>stderr_lines = [], stopped = False,
      clock = \<lambda>_. \<lparr>tm_year = 116, tm_mon = 0, tm_mday = 2, tm_hour = 3, tm_min = 4, tm_sec = 5, tv_usec = 6\<rparr>\<rparr>"

definition sample_log_message :: log_message where
  "sample_log_message = \<lparr>lm_level = LOGLEVEL_FATAL, lm_file = ''f.cc'', lm_line = 7, lm_text = ''out of memory''\<rparr>"

theorem Log_prints_witness:
  "stderr_lines (Log logger_initial sample_log_message sample_process) =
     [''[2016/01/02-03:04:05.000006][FATAL f.cc:7] out of memory''] \<and>
   stopped (Log logger_initial sample_log_message sample_process)"
proof -
  have header: "log_header (clock sample_process i) sample_log_message = ''[2016/01/02-03:04:05.000006][FATAL f.cc:7] ''" for i
  proof -
    have zeros: "replicate 5 (CHR ''0'') = ''00000''" by (simp add: numeral_eq_Suc)
    show ?thesis
      by (simp add: log_header_def sample_process_def sample_log_message_def loglevel_names_def print_int_def
          to_string_eval zeros)
  qed
  show ?thesis
    using Log_prints [of logger_initial sample_log_message sample_process] header
    by (simp add: logger_initial_def sample_log_message_def c_str_def)
      (simp add: sample_process_def)
qed

section \<open>The network\<close>

text \<open>Two messages whose frames arrive in three pieces.\<close>

lemma sample_frame: "SerializeToString sample_env sample_content = (True, [5, 0, 0, 0, 42])"
proof -
  have "le_encode32 5 = [5, 0, 0, 0]" by (simp add: le_encode32_def le_digits_numeral)
  then show ?thesis by (simp add: SerializeToString_def sample_env_def kNetHeaderSize_def)
qed

theorem frames_roundtrip_witness:
  "feed sample_env [[5, 0, 0], [0, 42, 5, 0, 0, 0], [42]] [] = Some ([sample_content, sample_content], [], False)"
proof -
  have "unat (content_size sample_env sample_content) < 2 ^ 31" by (simp add: sample_env_def)
  then show ?thesis
    using frames_roundtrip [OF sample_coding sample_content_codec, of "[sample_content, sample_content]"
        "[[5, 0, 0], [0, 42, 5, 0, 0, 0], [42]]"] by (simp add: sample_frame)
qed

text \<open>Node 1 multicasts with a connection to node 2 and none to node 3.\<close>

theorem Multicast_addresses_witness:
  "actions (Network_Multicast sample_env \<lparr>ms_version = 0, ms_members = map sample_member [1, 2, 3]\<rparr>
     sample_content \<lparr>my_id = 1, connection_map = [(2, True)], actions = []\<rparr>) =
   [Send 2 [5, 0, 0, 0, 42], Connect (snd (sample_member 3)) [5, 0, 0, 0, 42]]"
  using Multicast_addresses [of "\<lparr>ms_version = 0, ms_members = map sample_member [1, 2, 3]\<rparr>"
      sample_env sample_content "\<lparr>my_id = 1, connection_map = [(2, True)], actions = []\<rparr>"]
  by (simp add: sample_member_def sample_frame)

section \<open>Checkpoint transfer\<close>

text \<open>Node 1 with the checkpoint 6 of its two built-in machines, and node 2.\<close>

definition sample_checkpoint :: "u32 \<Rightarrow> string list" where
  "sample_checkpoint m = (if m = 1 then [kMembershipCheckpoint] else if m = 2 then [kMasterCheckpoint] else [])"

definition sample_sender :: "(sample_db, sample_world) node" where
  "sample_sender = sample_node\<lparr>latest_checkpoint_instance_id := 6,
     world := sample_world0\<lparr>sw_files :=
       [(GetCheckpointPath_machine sample_env 6 1 @ ''/'' @ kMembershipCheckpoint, [1, 2, 3]),
        (GetCheckpointPath_machine sample_env 6 2 @ ''/'' @ kMasterCheckpoint, [4])]\<rparr>\<rparr>"

definition sample_env2 :: "(sample_db, sample_world) env" where
  "sample_env2 = sample_env\<lparr>cfg_node_id := 2\<rparr>"

lemma sample_listing:
  fixes s :: "(sample_db, sample_world) node"
  assumes "machines s = machines sample_node"
  shows "listing sample_env (\<lambda>w. map_of (sw_files w)) 6 sample_checkpoint s"
  unfolding listing_def
proof (intro ballI allI impI, elim conjE)
  fix m dir and t :: "(sample_db, sample_world) node"
  assume "m \<in> fst ` set (machines s)" and t: "machines t = machines s"
  then have "m = 1 \<or> m = 2 \<or> m = 5" by (auto simp: assms sample_node_def sample_node_in_def)
  then show "\<exists>w'. GetCheckpoint sample_env 6 m dir [] t = ((True, GetCheckpointPath_machine sample_env 6 m, sample_checkpoint m), t\<lparr>world := w'\<rparr>) \<and>
      map_of (sw_files w') = map_of (sw_files (world t))"
    using t by (auto simp: assms sample_node_def sample_node_in_def GetCheckpoint_def sample_env_def FileExists_def in_world_def
        sample_checkpoint_def MembershipMachine_GetCheckpoint_def MasterMachine_GetCheckpoint_def
        intro!: exI [of _ "world t"])
qed

theorem checkpoint_transfer_witness:
  "\<exists>sched' s' msgs. Sender_SendCheckpoint sample_env 2 [] sample_sender = Some (True, sched', s') \<and>
    map_of (sw_files (world (receive_all sample_env2 (butlast msgs) sample_node)))
      (temp_file sample_env2 1 kMembershipCheckpoint) = Some [1, 2, 3]"
proof -
  let ?data = "\<lambda>m f. if m = 1 then [1, 2, 3] else [4] :: bytes"
  have id: "cfg_node_id sample_env2 = 2" by (simp add: sample_env2_def)
  have lat: "latest_checkpoint_instance_id sample_sender = 6" "machines sample_sender = machines sample_node"
    by (simp_all add: sample_sender_def)
  have keys: "fst ` set (machines sample_node) = {1, 2, 5}" "distinct (map fst (machines sample_node))"
    by (auto simp: sample_node_def sample_node_in_def)
  have paths: "GetCheckpointPath_machine sample_env 6 1 @ ''/'' @ kMembershipCheckpoint \<noteq>
      GetCheckpointPath_machine sample_env 6 2 @ ''/'' @ kMasterCheckpoint"
    by (simp add: GetCheckpointPath_machine_def kMembershipCheckpoint_def kMasterCheckpoint_def)
  have cp: "\<forall>m \<in> fst ` set (machines sample_sender). distinct (sample_checkpoint m) \<and>
      (\<forall>f \<in> set (sample_checkpoint m). map_of (sw_files (world sample_sender))
        (GetCheckpointPath_machine sample_env 6 m @ ''/'' @ f) = Some (?data m f))"
    using paths unfolding lat(2) keys(1) by (simp add: sample_checkpoint_def sample_sender_def)
  have app: "append_ok sample_env2 (\<lambda>w. map_of (sw_files w)) (\<lambda>w _. sw_name w)"
    using sample_append by (simp add: append_ok_def sample_env2_def)
  have del: "DeleteTempCheckpoint sample_env2 (world sample_node) = (True, sample_world0)"
    by (simp add: DeleteTempCheckpoint_def GetChildren_def sample_env2_def sample_env_def FileExists_def sample_world0_def)
  have "\<not> checkpoint_locked sample_sender" by (simp add: sample_sender_def sample_node_def sample_node_in_def)
  from checkpoint_transfer [OF sample_stdio, of sample_sender sample_checkpoint ?data "[]" sample_env2
      "\<lambda>w. map_of (sw_files w)" "\<lambda>w _. sw_name w" sample_node sample_world0, unfolded lat,
      OF sample_listing _ keys(2) _ this app _ _ _ del]
  show ?thesis using cp keys(1) lat(2)
    by (auto simp: id confirmed_def Let_def sample_world0_def sample_checkpoint_def)
qed

text \<open>Node 1 with the membership machine, whose checkpoint file is missing, and a user machine.\<close>

theorem SendCheckpoint_hides_failure_witness:
  "let s = sample_node\<lparr>machines := [(1, Membership_machine), (5, User_machine)], latest_checkpoint_instance_id := 6\<rparr>
   in \<exists>s'. Sender_SendCheckpoint sample_env 2 [] s = Some (True, [], s') \<and> length (net s') = 2"
proof -
  let ?s = "sample_node\<lparr>machines := [(1, Membership_machine), (5, User_machine)], latest_checkpoint_instance_id := 6\<rparr>"
  have i: "latest_checkpoint_instance_id ?s = 6" "machines ?s = [(1, Membership_machine), (5, User_machine)]" by simp_all
  have lst: "\<forall>dir (t :: (sample_db, sample_world) node). machines t = machines ?s \<longrightarrow>
      GetCheckpoint sample_env 6 1 dir [] t = ((True, GetCheckpointPath_machine sample_env 6 1, [kMembershipCheckpoint]), t) \<and>
      GetCheckpoint sample_env 6 5 dir [] t = ((True, GetCheckpointPath_machine sample_env 6 5, []), t)"
    by (simp add: GetCheckpoint_def sample_env_def FileExists_def in_world_def MembershipMachine_GetCheckpoint_def)
  have "sys_fopen sample_env (GetCheckpointPath_machine sample_env 6 1 @ ''/'' @ kMembershipCheckpoint) Mode_r (world ?s) =
      (Inl ''No such file or directory'', sample_world0)"
    by (simp add: sample_env_def sample_fopen_def sample_world0_def)
  with SendCheckpoint_hides_failure [OF i(2), of 2 sample_env kMembershipCheckpoint "''No such file or directory''"
      sample_world0 "[]", unfolded i(1), OF _ _ lst]
  show ?thesis by (auto simp: sample_node_def sample_node_in_def)
qed

section \<open>A node\<close>

text \<open>Node 1 with the one group 0, whose constants are those of the sample environment.\<close>

definition sample_node_options :: Options where
  "sample_node_options = (Options_default 1 5000)\<lparr>opt_groups := [sample_options]\<rparr>"

definition sample_start :: "(bool \<times> (sample_db, sample_world) NodeImpl) option" where
  "sample_start = StartWorking sample_env (\<lambda>_ xs. xs) (\<lambda>_. (1, 2, \<lambda>_. 0, 0, CheckpointReceiver_Reset)) []
     (NodeImpl_new sample_node_options sample_world0)"

lemma sample_config: "Config_options 1 0 sample_options = Some (config.truncate sample_env)"
proof -
  have "char_of (48 :: nat) = CHR ''0''" by code_simp
  then show ?thesis
    by (simp add: Config_options_def group_name_def sample_options_def GroupOptions_default_def
        config.defs sample_env_def to_string.simps)
qed

lemma sample_recover_groups:
  "recover_groups sample_env 1 (\<lambda>_. (1, 2, \<lambda>_. 0, 0, CheckpointReceiver_Reset)) [] 0 [sample_options]
     (NodeImpl_new sample_node_options sample_world0) =
   Some (True, (NodeImpl_new sample_node_options sample_world0)\<lparr>groups := [snd sample_recovered],
     group_configs := [config.truncate sample_env], node_world := world (snd sample_recovered)\<rparr>)"
proof -
  have "quiet sample_env = sample_env" by (simp add: quiet_def sample_env_def)
  then show ?thesis
    using sample_recovered_ok by (simp add: sample_config with_config_own NodeImpl_new_def Let_def)
qed

lemma sample_start_ok: "sample_start = Some (True, snd (the sample_start))"
proof -
  let ?n = "(NodeImpl_new sample_node_options sample_world0)\<lparr>groups := [snd sample_recovered],
    group_configs := [config.truncate sample_env], node_world := world (snd sample_recovered)\<rparr>"
  have ids: "id_of (opt_my (node_options (NodeImpl_new sample_node_options sample_world0))) = 1"
      "opt_groups (node_options (NodeImpl_new sample_node_options sample_world0)) = [sample_options]"
    by (simp_all add: NodeImpl_new_def sample_node_options_def Options_default_def)
  have "\<exists>n. sample_start = Some (True, n)"
    unfolding sample_start_def StartWorking_def ids sample_recover_groups
    by (simp add: NodeImpl_new_def sample_node_options_def Options_default_def thread_sizes_def Let_def
        ThreadPool_Start_def ThreadPool_new_def new_threads_def next_loops_def next_loop_def
        GetNextIOLoop_def GetNextCallbackLoop_def GetNextLearnLoop_def GetNextCleanLoop_def GetNextMasterLoop_def
        in_group_def)
  then show ?thesis by (metis option.sel snd_conv)
qed

text \<open>Seven io threads asked for three groups.\<close>

theorem thread_sizes_bounds_witness:
  "let o' = thread_sizes 3 (sample_node_options\<lparr>io_thread_size := 7\<rparr>)
   in 0 < unat (io_thread_size o') \<and> unat (io_thread_size o') \<le> 3"
  using thread_sizes_bounds [of 3 "sample_node_options\<lparr>io_thread_size := 7\<rparr>"] by (simp add: Let_def)

theorem StartWorking_round_robin_witness:
  "group_size (snd (the sample_start)) = 1 \<and> gl_io (group_loops (snd (the sample_start)) ! 0) = 0"
  using StartWorking_round_robin [OF sample_start_ok [unfolded sample_start_def], folded sample_start_def]
  by (simp add: sample_node_options_def)

text \<open>Addresses written as one decimal number, a notation that is read back.\<close>

definition sample_inet_ntoa :: "u32 \<Rightarrow> string" where
  "sample_inet_ntoa a = to_string (unat (ucast a :: u64))"

definition sample_inet_addr :: "string \<Rightarrow> u32" where
  "sample_inet_addr ip = ucast (the (stoull ip))"

theorem MakeId_roundtrip_witness:
  "ParseId sample_inet_ntoa (MakeId sample_inet_addr (sample_inet_ntoa 0x0100007f) 5000) =
     (sample_inet_ntoa 0x0100007f, 5000)"
proof -
  have "ucast (ucast a :: u64) = a" for a :: u32 by (rule bit_word_eqI) (simp add: bit_simps)
  then have "sample_inet_addr (sample_inet_ntoa a) = a" for a
    by (simp add: sample_inet_addr_def sample_inet_ntoa_def stoull_to_string)
  from MakeId_roundtrip [OF this] show ?thesis by blast
qed

theorem started_node_answers_witness:
  "let n = snd (the sample_start); s = groups n ! 0
   in taken (election s) = called_back (callback_loop s) @ cb_queue (queue s)"
proof -
  let ?n = "snd (the sample_start)"
  have g: "0 < group_size ?n"
    using StartWorking_parts(1) [OF sample_start_ok [unfolded sample_start_def], folded sample_start_def]
    by (simp add: group_size_def sample_node_options_def)
  have run: "group_run (with_config (group_configs ?n ! 0) sample_env) [] (groups ?n ! 0) (groups ?n ! 0)"
    by (rule group_run.none)
  show ?thesis
    using started_node_answers [OF sample_start_ok [unfolded sample_start_def], folded sample_start_def,
        OF _ sample_alloc g run]
    by (simp add: Let_def)
qed

section \<open>Progress\<close>

text \<open>Node 1 alone in its group, about to handle the proposal of the callback 7.\<close>

definition sample_solo_in :: "'w \<Rightarrow> (u32 \<times> machine) list \<Rightarrow> (sample_db, 'w) node" where
  "sample_solo_in w ms = (sample_node_in w ms)\<lparr>membership := \<lparr>ms_version = 0, ms_members = [sample_member 1]\<rparr>,
     queue := (ProposeQueue_new 100)\<lparr>last_finished := False, cb_queue := [UserCallback 7]\<rparr>\<rparr>"

definition sample_solo :: "(sample_db, sample_world) node" where
  "sample_solo = sample_solo_in sample_world0 [(1, Membership_machine), (2, Master_machine), (5, User_machine)]"

lemma sample_solo_in_parts:
  "acceptor (sample_solo_in w ms) = Acceptor_new\<lparr>acc_instance_id := 7\<rparr>"
  "learner (sample_solo_in w ms) = (Learner_new 1)\<lparr>lrn_instance_id := 7\<rparr>"
  "proposer (sample_solo_in w ms) = (Proposer_new 1)\<lparr>pro_instance_id := 7, proposal_id := 1\<rparr>"
  "instance_id (sample_solo_in w ms) = 7" "\<not> is_proposing (sample_solo_in w ms)" "context_ptr (sample_solo_in w ms) = Null"
  "\<not> aborted (sample_solo_in w ms)" "latest_checkpoint_instance_id (sample_solo_in w ms) = 0"
  "machines (sample_solo_in w ms) = ms" "world (sample_solo_in w ms) = w"
  "ms_members (membership (sample_solo_in w ms)) = [sample_member 1]" "funcs (callback_loop (sample_solo_in w ms)) = []"
  "queue (sample_solo_in w ms) = (ProposeQueue_new 100)\<lparr>last_finished := False, cb_queue := [UserCallback 7]\<rparr>"
  "db (sample_solo_in w ms) = []" "net (sample_solo_in w ms) = []" "funcs (learn_loop (sample_solo_in w ms)) = []"
  by (simp_all add: sample_solo_in_def sample_node_in_def RunLoop_new_def)

lemma sample_solo_in_alone:
  assumes "cfg_node_id E = 1"
  shows "alone E (sample_solo_in w ms)"
proof -
  note f = sample_solo_in_parts
  have ok: "node_ok (sample_solo_in w ms)"
    by (simp add: node_ok_def f Acceptor_new_def Learner_new_def Proposer_new_def)
  show ?thesis
    using ok by (simp add: alone_def f assms sample_member_def Learner_new_def Acceptor_new_def
        Proposer_new_def start_prepare_def Let_def) (simp add: Ballot_default_def)
qed

lemma sample_solo_in_starts: "starts 7 E map_of (sample_solo_in w ms)"
  by (simp add: starts_def node_ok_def sample_solo_in_parts Acceptor_new_def Learner_new_def Proposer_new_def log_of_def)

lemma sample_solo_in_ready: "ready {1} (sample_solo_in w ms)" "may_propose (sample_solo_in w ms)"
  by (simp_all add: ready_def may_propose_def sample_solo_in_parts sample_member_def Learner_new_def Proposer_new_def
      Let_def accept_sent_def)

lemmas sample_solo_parts = sample_solo_in_parts
    [of sample_world0 "[(1, Membership_machine), (2, Master_machine), (5, User_machine)]", folded sample_solo_def]

lemma sample_solo_alone: "alone sample_env sample_solo"
  unfolding sample_solo_def by (rule sample_solo_in_alone) (simp add: sample_env_def)

lemma sample_solo_executes:
  "executes sample_env \<lparr>pv_value_id = 0, pv_machine_id = 5, pv_user_data = [1, 2]\<rparr> sample_solo"
  unfolding executes_def sample_solo_parts by (simp add: sample_env_def ProposeQueue_new_def)

lemma sample_machine: "replicated_machine (\<lambda>E. True) (\<lambda>w. ()) 5 (\<lambda>v x. x)"
  by unfold_locales simp_all

section \<open>Agreement\<close>


text \<open>The same node after a proposal that was prepared and timed out.\<close>

definition sample_timed_out :: "(sample_db, sample_world) node" where
  "sample_timed_out = sample_solo\<lparr>proposer := (proposer sample_solo)\<lparr>skip_prepare := True\<rparr>\<rparr>"

theorem proposal_reuses_ballot_witness:
  "\<exists>k\<in>set (net (Instance_OnPropose sample_env 5 [1, 2] Null (run_ProposeTimer sample_timed_out))).
     pm_type (ct_paxos_msg (call_content k)) = ACCEPT \<and> pm_proposal_id (ct_paxos_msg (call_content k)) = 1 \<and>
     pv_user_data (pm_value (ct_paxos_msg (call_content k))) = [1, 2]"
proof -
  have "IsValidNodeId (cfg_node_id sample_env) sample_timed_out" "skip_prepare (proposer sample_timed_out)"
    "\<not> was_rejected_by_someone (proposer sample_timed_out)" "proposal_id (proposer sample_timed_out) = 1"
    by (simp_all add: sample_timed_out_def IsValidNodeId_def sample_solo_parts sample_member_def Proposer_new_def)
  with proposal_reuses_ballot [of sample_env sample_timed_out 5 "[1, 2]" Null] show ?thesis
    by (force simp: Content_paxos_def)
qed

section \<open>The io loop\<close>

text \<open>A group whose node is no member, with the closure of one proposal on its io loop and a second
  proposal waiting: answering the first queues the closure of the second while the turn is under way.\<close>

definition sample_queued :: "(sample_db, sample_world) group" where
  "sample_queued = sample_group\<lparr>membership := Membership_default,
     io_loop := RunLoop_QueueInLoop (Func (ProposeTask 7 [1] Null)) (RunLoop_new 0),
     callback_loop := RunLoop_new 0,
     queue := (ProposeQueue_new 100)\<lparr>last_finished := False, propose_queue := [ProposeTask 7 [2] Null],
       cb_queue := [UserCallback 1, UserCallback 2]\<rparr>\<rparr>"

definition sample_turns ::
    "(((sample_db, sample_world) group \<Rightarrow> (sample_db, sample_world) group) \<times> u64) list" where
  "sample_turns = [(\<lambda>s. s, 1), (SyncData False, 2)]"

theorem io_loop_in_order_witness:
  "\<exists>s. RunLoop_Loop watched_loop set_watched_loop (\<lambda>g. watch (run_io_task sample_env g)) (watched_exec sample_env)
       (map (apfst watch) sample_turns) (sample_queued, [], []) =
         Some (s, [ProposeTask 7 [1] Null, ProposeTask 7 [2] Null, SyncTask False],
           [Func (ProposeTask 7 [2] Null), Func (SyncTask False)]) \<and>
     users (funcs (io_loop s)) = []"
proof -
  have run: "\<exists>s. RunLoop_Loop watched_loop set_watched_loop (\<lambda>g. watch (run_io_task sample_env g)) (watched_exec sample_env)
       (map (apfst watch) sample_turns) (sample_queued, [], []) =
         Some (s, [ProposeTask 7 [1] Null, ProposeTask 7 [2] Null, SyncTask False],
           [Func (ProposeTask 7 [2] Null), Func (SyncTask False)])"
    by (simp add: sample_turns_def sample_queued_def RunLoop_Loop_def Loop_turn_def RunTimerProcs_def run_func_def
        watch_defs RunLoop_QueueInLoop_def RunLoop_new_def TimerList_new_def run_io_task_def Instance_OnPropose_def
        IsValidNodeId_def Membership_default_def propose_cb_def ProposeQueue_ProposeComplete_def
        ProposeQueue_new_def SyncData_def AskForLearn_def)
  moreover have "io_adds t (f t)" if "(f, now) \<in> set sample_turns" for f now and t :: "(sample_db, sample_world) group"
    using that by (auto simp: sample_turns_def io_adds_def SyncData_def RunLoop_QueueInLoop_def)
  moreover have "users (funcs (io_loop sample_queued)) = [ProposeTask 7 [1] Null]"
    by (simp add: sample_queued_def RunLoop_QueueInLoop_def RunLoop_new_def)
  ultimately show ?thesis
    using io_loop_in_order [of sample_turns sample_env sample_queued] by fastforce
qed

end
