(* ===== verification/Journey.thy ===== *)
theory Journey
  imports Nodes Execution
begin

text \<open>
  The server of \<^verbatim>\<open>examples/journey\<close>, a replicated key-value store:
  \<^verbatim>\<open>journey_db.cc\<close>, \<^verbatim>\<open>journey_db_machine.cc\<close>, \<^verbatim>\<open>journey_service_impl.cc\<close> and
  the messages of \<^verbatim>\<open>journey.proto\<close>. All groups share one database, and a key belongs to the
  group its hash selects. The machine is an instance of \<open>replicated_machine\<close>: the databases of
  the members agree on the keys of a group.
\<close>

section \<open>Messages\<close>

datatype ProposeType = PROPOSE_TYPE_PUT | PROPOSE_TYPE_GET | PROPOSE_TYPE_DELETE | OTHER_PROPOSE_TYPE int

datatype ProposeResult =
    PROPOSE_RESULT_SUCCESS | PROPOSE_RESULT_FAIL | PROPOSE_RESULT_NOT_FOUND | PROPOSE_RESULT_NOT_MASTER
  | OTHER_PROPOSE_RESULT int

record RequestMessage =
  rq_type :: ProposeType
  rq_key :: bytes
  rq_value :: bytes

record ResponseMessage =
  rs_result :: ProposeResult
  rs_value :: bytes
  rs_has_master :: bool
  rs_master_ip :: string
  rs_master_port :: u32
  rs_master_version :: u64

definition ResponseMessage_default :: ResponseMessage where
  "ResponseMessage_default =
     \<lparr>rs_result = PROPOSE_RESULT_SUCCESS, rs_value = [], rs_has_master = False, rs_master_ip = [],
      rs_master_port = 0, rs_master_version = 0\<rparr>"

text \<open>Code outside the repository: the codec of a request, and \<^verbatim>\<open>voyager::Hash32\<close>.\<close>

record journey_lib =
  ser_request :: "RequestMessage \<Rightarrow> bytes"
  parse_request :: "bytes \<Rightarrow> bool \<times> RequestMessage"
  hash32 :: "bytes \<Rightarrow> u32"

definition request_codec_ok :: "journey_lib \<Rightarrow> bool" where
  "request_codec_ok L \<longleftrightarrow> (\<forall>m. parse_request L (ser_request L m) = (True, m))"

section \<open>JourneyDB\<close>

text \<open>
  The operations work on an open database. \<^verbatim>\<open>Open\<close> uses the default options of LevelDB, with a
  write buffer of four megabytes; when it fails the pointer stays null, and the service does not
  start.
\<close>

definition JourneyDB_Open :: "('d, 'w) env \<Rightarrow> string \<Rightarrow> 'w \<Rightarrow> 'd option \<times> 'w" where
  "JourneyDB_Open E path w =
     (case ldb_open E (4 * 1024 * 1024) path w of ((st, d), w') \<Rightarrow> (if st = LOk then Some d else None, w'))"

definition JourneyDB_Put :: "('d, 'w) env \<Rightarrow> bytes \<Rightarrow> bytes \<Rightarrow> 'd \<Rightarrow> int \<times> 'd" where
  "JourneyDB_Put E key value d =
     (case ldb_put E False key value d of (st, d') \<Rightarrow> (if st = LOk then 0 else -1, d'))"

definition JourneyDB_Get :: "('d, 'w) env \<Rightarrow> bytes \<Rightarrow> 'd \<Rightarrow> int \<times> bytes" where
  "JourneyDB_Get E key d =
     (case ldb_get E key d of
        (st, value) \<Rightarrow> (if st = LOk then 0 else if st = LNotFound then 1 else -1, value))"

definition JourneyDB_Delete :: "('d, 'w) env \<Rightarrow> bytes \<Rightarrow> 'd \<Rightarrow> int \<times> 'd" where
  "JourneyDB_Delete E key d =
     (case ldb_delete E False key d of (st, d') \<Rightarrow> (if st = LOk then 0 else -1, d'))"

section \<open>JourneyDBMachine\<close>

text \<open>
  The world of a server: its database, the responses under construction by their addresses, the
  closures \<^verbatim>\<open>done\<close> that were run, and the rest.
\<close>

record ('d, 'v) journey =
  jdb :: 'd
  responses :: "nat \<Rightarrow> ResponseMessage"
  done_runs :: "nat list"
  base :: 'v

definition JourneyDBMachine_OpenDB :: "('d, 'w) env \<Rightarrow> string \<Rightarrow> 'w \<Rightarrow> 'd option \<times> 'w" where
  [simp]: "JourneyDBMachine_OpenDB E path w = JourneyDB_Open E path w"

definition JourneyDBMachine_Get :: "('d, 'v) env \<Rightarrow> bytes \<Rightarrow> ('d, 'v) journey \<Rightarrow> int \<times> bytes" where
  [simp]: "JourneyDBMachine_Get E key w = JourneyDB_Get E key (jdb w)"

text \<open>The cast of a context that is not a response does not occur: proposals for this machine
  come from the service, which passes the response or nothing.\<close>

definition JourneyDBMachine_Execute ::
    "journey_lib \<Rightarrow> ('d, 'v) env \<Rightarrow> bytes \<Rightarrow> ctx_ptr \<Rightarrow> ('d, 'v) journey \<Rightarrow> bool \<times> ('d, 'v) journey" where
  "JourneyDBMachine_Execute L E value context w =
     (case parse_request L value of
        (res, msg) \<Rightarrow>
          (if res then
             (let finish = (\<lambda>(op, d).
                    (if op = (0 :: int) then
                       (True, case context of
                          UserContext n \<Rightarrow> w\<lparr>jdb := d, responses := (responses w)
                            (n := (responses w n)\<lparr>rs_result := PROPOSE_RESULT_SUCCESS\<rparr>)\<rparr>
                        | _ \<Rightarrow> w\<lparr>jdb := d\<rparr>)
                     else (False, w\<lparr>jdb := d\<rparr>)))
              in case rq_type msg of
                   PROPOSE_TYPE_PUT \<Rightarrow> finish (JourneyDB_Put E (rq_key msg) (rq_value msg) (jdb w))
                 | PROPOSE_TYPE_DELETE \<Rightarrow> finish (JourneyDB_Delete E (rq_key msg) (jdb w))
                 | _ \<Rightarrow> (True, w))
           else (True, w)))"

definition JourneyDBMachine_Recover :: "u32 \<Rightarrow> u64 \<Rightarrow> string \<Rightarrow> ('d, 'v) journey \<Rightarrow> bool \<times> ('d, 'v) journey" where
  "JourneyDBMachine_Recover g i dir w = (True, w)"

definition JourneyDBMachine_MakeCheckpoint :: "u32 \<Rightarrow> u64 \<Rightarrow> string \<Rightarrow> ('d, 'v) journey \<Rightarrow> bool \<times> ('d, 'v) journey" where
  "JourneyDBMachine_MakeCheckpoint g i dir w = (False, w)"

definition JourneyDBMachine_GetCheckpoint ::
    "u32 \<Rightarrow> u64 \<Rightarrow> string \<Rightarrow> ('d, 'v) journey \<Rightarrow> (bool \<times> string list) \<times> ('d, 'v) journey" where
  "JourneyDBMachine_GetCheckpoint g i dir w = ((True, []), w)"

text \<open>The id the constructor of the service gives its machine.\<close>

definition journey_machine_id :: u32 where
  "journey_machine_id = 6"

text \<open>
  The environment of a node of the service: that of the system, with the machine of the service
  among the machines of the user. Everything else works on the rest of the world.
\<close>

definition in_base :: "('v \<Rightarrow> 'r \<times> 'v) \<Rightarrow> ('d, 'v) journey \<Rightarrow> 'r \<times> ('d, 'v) journey" where
  "in_base f w = (case f (base w) of (r, v) \<Rightarrow> (r, w\<lparr>base := v\<rparr>))"

definition on_base :: "('v \<Rightarrow> 'v) \<Rightarrow> ('d, 'v) journey \<Rightarrow> ('d, 'v) journey" where
  "on_base f w = w\<lparr>base := f (base w)\<rparr>"

definition for_machine :: "u32 \<Rightarrow> 'a \<Rightarrow> 'a \<Rightarrow> 'a" where
  "for_machine i mine others = (if i = journey_machine_id then mine else others)"

definition journey_env :: "journey_lib \<Rightarrow> ('d, 'v) env \<Rightarrow> ('d, ('d, 'v) journey) env" where
  "journey_env L E =
     \<lparr>cfg_node_id = cfg_node_id E, cfg_group_id = cfg_group_id E, cfg_propose_timeout = cfg_propose_timeout E,
      cfg_keep_checkpoint_count = cfg_keep_checkpoint_count E, cfg_log_sync = cfg_log_sync E,
      cfg_sync_interval = cfg_sync_interval E, cfg_keep_log_count = cfg_keep_log_count E,
      cfg_log_storage_path = cfg_log_storage_path E, cfg_log_path = cfg_log_path E,
      cfg_checkpoint_path = cfg_checkpoint_path E, cfg_temp_checkpoint_path = cfg_temp_checkpoint_path E,
      cfg_use_master = cfg_use_master E, cfg_lease_timeout = cfg_lease_timeout E,
      ldb_open = \<lambda>n p. in_base (ldb_open E n p),
      ldb_put = ldb_put E, ldb_delete = ldb_delete E, ldb_write = ldb_write E, ldb_get = ldb_get E, ldb_keys = ldb_keys E,
      encode32 = encode32 E, encode64 = encode64 E, decode32 = decode32 E, decode64 = decode64 E, crc32c = crc32c E,
      ser_instance = ser_instance E, parse_instance = parse_instance E, ser_change = ser_change E,
      parse_change = parse_change E, ser_master = ser_master E, parse_master = parse_master E,
      ser_membership = ser_membership E, array_master = array_master E, array_membership = array_membership E, ser_content = ser_content E,
      parse_content = parse_content E, content_size = content_size E,
      gettimeofday = in_base (gettimeofday E),
      read_u64 = \<lambda>p w. read_u64 E p (base w),
      new_timer = \<lambda>live. in_base (new_timer E live),
      uniform_int = \<lambda>lo hi. in_base (uniform_int E lo hi),
      sm_execute = \<lambda>i g ii v c. for_machine i (JourneyDBMachine_Execute L E v c) (in_base (sm_execute E i g ii v c)),
      sm_recover = \<lambda>i g ii d. for_machine i (JourneyDBMachine_Recover g ii d) (in_base (sm_recover E i g ii d)),
      sm_make_checkpoint = \<lambda>i g ii d. for_machine i (JourneyDBMachine_MakeCheckpoint g ii d) (in_base (sm_make_checkpoint E i g ii d)),
      sm_get_checkpoint = \<lambda>i g ii d. for_machine i (JourneyDBMachine_GetCheckpoint g ii d) (in_base (sm_get_checkpoint E i g ii d)),
      has_cluster = has_cluster E,
      newest_membership = \<lambda>g w. newest_membership E g (base w), followers = \<lambda>g w. followers E g (base w),
      membership_cb = map_option (\<lambda>cb g. on_base (cb g)) (membership_cb E),
      master_cb = map_option (\<lambda>cb g. on_base (cb g)) (master_cb E),
      sys_mkdir = \<lambda>f. in_base (sys_mkdir E f), sys_rmdir = \<lambda>f. in_base (sys_rmdir E f),
      sys_unlink = \<lambda>f. in_base (sys_unlink E f), sys_rename = \<lambda>f g. in_base (sys_rename E f g),
      sys_access = \<lambda>f w. sys_access E f (base w), sys_readdir = \<lambda>f w. sys_readdir E f (base w),
      sys_fopen = \<lambda>f m. in_base (sys_fopen E f m), sys_fread = \<lambda>f n. in_base (sys_fread E f n),
      sys_fwrite = \<lambda>f x. in_base (sys_fwrite E f x), sys_fsync = \<lambda>f. in_base (sys_fsync E f),
      sys_fclose = \<lambda>f. in_base (sys_fclose E f), sys_fseek = \<lambda>f n. in_base (sys_fseek E f n),
      sys_fflush = \<lambda>f. in_base (sys_fflush E f), sys_stat = \<lambda>f w. sys_stat E f (base w),
      sys_open = \<lambda>f. in_base (sys_open E f), sys_close = \<lambda>f. on_base (sys_close E f),
      sys_pread = \<lambda>f n k w. sys_pread E f n k (base w), sys_mmap = \<lambda>f n. in_base (sys_mmap E f n),
      sys_munmap = \<lambda>r n. on_base (sys_munmap E r n), region_read = \<lambda>r n k w. region_read E r n k (base w)\<rparr>"

section \<open>JourneyServiceImpl\<close>

record ('d, 'v) JourneyServiceImpl =
  svc_group_size :: u32
  svc_node :: "('d, ('d, 'v) journey) NodeImpl"

text \<open>
  \<^verbatim>\<open>Start\<close>: the machine is added to every group of the options. The result is the service
  when the node has started; \<^const>\<open>None\<close> inside it is the return value false. \<open>d\<close> is the null
  pointer to the database of a log, as for \<open>Node_Start\<close>.
\<close>

definition add_machine :: "Options \<Rightarrow> Options" where
  "add_machine options =
     options\<lparr>opt_groups := map (\<lambda>g. g\<lparr>opt_machines := opt_machines g @ [journey_machine_id]\<rparr>) (opt_groups options)\<rparr>"

definition JourneyServiceImpl_Start ::
    "journey_lib \<Rightarrow> ('d, 'v) env \<Rightarrow> (u64 \<Rightarrow> nat list \<Rightarrow> nat list) \<Rightarrow>
      (u32 \<Rightarrow> u32 \<times> u32 \<times> (loop_name \<Rightarrow> u64) \<times> u64 \<times> CheckpointReceiver) \<Rightarrow> 'd \<Rightarrow> string \<Rightarrow> Options \<Rightarrow> 'v \<Rightarrow>
      ('d, 'v) JourneyServiceImpl option option" where
  "JourneyServiceImpl_Start L E shuffle init d db_path options v =
     (case JourneyDBMachine_OpenDB E db_path v of
        (None, v') \<Rightarrow> Some None
      | (Some j, v') \<Rightarrow>
         (case Node_Start (journey_env L E) shuffle init d (add_machine options)
                 \<lparr>jdb = j, responses = \<lambda>_. ResponseMessage_default, done_runs = [], base = v'\<rparr> of
            None \<Rightarrow> None
          | Some (res, n) \<Rightarrow>
             Some (map_option (\<lambda>node. \<lparr>svc_group_size = word_of_nat (length (opt_groups options)), svc_node = node\<rparr>) n)))"

text \<open>\<^verbatim>\<open>Shard\<close>; \<^const>\<open>None\<close> when the assertion fails.\<close>

definition Shard :: "journey_lib \<Rightarrow> u32 \<Rightarrow> bytes \<Rightarrow> u32 option" where
  "Shard L n key = (if n = 0 then None else if n = 1 then Some 0 else Some (hash32 L key mod n))"

definition set_response :: "nat \<Rightarrow> (ResponseMessage \<Rightarrow> ResponseMessage) \<Rightarrow> ('d, 'v) journey \<Rightarrow> ('d, 'v) journey" where
  "set_response r f w = w\<lparr>responses := (responses w)(r := f (responses w r))\<rparr>"

text \<open>The closure \<open>done\<close> of the response \<open>r\<close>, when there is one. It is also all the callback of
  the proposal does.\<close>

definition run_done :: "bool \<Rightarrow> nat \<Rightarrow> ('d, 'v) journey \<Rightarrow> ('d, 'v) journey" where
  "run_done has_done r w = (if has_done then w\<lparr>done_runs := done_runs w @ [r]\<rparr> else w)"

definition on_world :: "('w \<Rightarrow> 'w) \<Rightarrow> ('d, 'w) NodeImpl \<Rightarrow> ('d, 'w) NodeImpl" where
  "on_world f node = node\<lparr>node_world := f (node_world node)\<rparr>"

text \<open>The answer of a master to a get, from its own database.\<close>

definition answer_get :: "('d, 'v) env \<Rightarrow> bytes \<Rightarrow> nat \<Rightarrow> ('d, 'v) journey \<Rightarrow> ('d, 'v) journey" where
  "answer_get E key r w =
     (case JourneyDBMachine_Get E key w of
        (res, s) \<Rightarrow>
          (if res = 0 then set_response r (\<lambda>m. m\<lparr>rs_result := PROPOSE_RESULT_SUCCESS, rs_value := s\<rparr>) w
           else if res = 1 then set_response r (\<lambda>m. m\<lparr>rs_result := PROPOSE_RESULT_NOT_FOUND\<rparr>) w
           else w))"

text \<open>The answer of another node. Without a master, the port and the version are those of
  variables nothing has written, \<open>junk\<close>.\<close>

definition answer_not_master ::
    "u16 \<times> u64 \<Rightarrow> (Member \<times> u64) option \<Rightarrow> nat \<Rightarrow> ('d, 'v) journey \<Rightarrow> ('d, 'v) journey" where
  "answer_not_master junk found r w =
     (let (host, port, version) =
        (case found of Some (m, ver) \<Rightarrow> (host_of m, port_of m, ver) | None \<Rightarrow> ([], fst junk, snd junk))
      in set_response r (\<lambda>m. m\<lparr>rs_result := PROPOSE_RESULT_NOT_MASTER, rs_has_master := found \<noteq> None,
           rs_master_ip := host, rs_master_port := ucast port, rs_master_version := version\<rparr>) w)"

text \<open>
  \<^verbatim>\<open>Propose\<close>, with the response at the address \<open>r\<close>. \<^const>\<open>None\<close> is a failed assertion, or
  a group the node does not have.
\<close>

definition JourneyServiceImpl_Propose ::
    "journey_lib \<Rightarrow> ('d, 'v) env \<Rightarrow> u16 \<times> u64 \<Rightarrow> RequestMessage \<Rightarrow> nat \<Rightarrow> bool \<Rightarrow>
      ('d, 'v) JourneyServiceImpl \<Rightarrow> ('d, 'v) JourneyServiceImpl option" where
  "JourneyServiceImpl_Propose L E junk request r has_done svc =
     (case Shard L (svc_group_size svc) (rq_key request) of
        None \<Rightarrow> None
      | Some gid \<Rightarrow>
         (let E' = journey_env L E;
              node = on_world (set_response r (\<lambda>m. m\<lparr>rs_result := PROPOSE_RESULT_FAIL\<rparr>)) (svc_node svc);
              finish = (\<lambda>(propose, node). svc\<lparr>svc_node :=
                (if \<not> propose then on_world (run_done has_done r) node else node)\<rparr>)
          in case NodeImpl_IsMaster E' gid node of
               None \<Rightarrow> None
             | Some (True, node1) \<Rightarrow>
                (if rq_type request = PROPOSE_TYPE_GET
                 then Some (finish (False, on_world (answer_get E (rq_key request) r) node1))
                 else map_option finish (NodeImpl_Propose E' gid journey_machine_id (ser_request L request)
                   (UserContext r) (UserCallback r) node1))
             | Some (False, node1) \<Rightarrow>
                (case NodeImpl_GetMaster E' gid node1 of
                   None \<Rightarrow> None
                 | Some (found, node2) \<Rightarrow> Some (finish (False, on_world (answer_not_master junk found r) node2)))))"

lemmas [op_defs] = JourneyDB_Open_def JourneyDB_Put_def JourneyDB_Get_def JourneyDB_Delete_def
  JourneyDBMachine_Execute_def in_base_def on_base_def for_machine_def add_machine_def JourneyServiceImpl_Start_def
  Shard_def set_response_def run_done_def on_world_def answer_get_def answer_not_master_def
  JourneyServiceImpl_Propose_def

section \<open>The machine as a key-value map\<close>

text \<open>The abstract specification: what a value of the log does to a map from keys to values.\<close>

definition apply_request :: "journey_lib \<Rightarrow> bytes \<Rightarrow> (bytes \<rightharpoonup> bytes) \<Rightarrow> bytes \<rightharpoonup> bytes" where
  "apply_request L value m =
     (case parse_request L value of
        (res, msg) \<Rightarrow>
          (if \<not> res then m
           else case rq_type msg of
             PROPOSE_TYPE_PUT \<Rightarrow> m(rq_key msg \<mapsto> rq_value msg)
           | PROPOSE_TYPE_DELETE \<Rightarrow> m(rq_key msg := None)
           | _ \<Rightarrow> m))"

text \<open>The part of it that concerns the keys in \<open>K\<close>.\<close>

definition apply_within :: "journey_lib \<Rightarrow> bytes set \<Rightarrow> bytes \<Rightarrow> (bytes \<rightharpoonup> bytes) \<Rightarrow> bytes \<rightharpoonup> bytes" where
  "apply_within L K value m = (if rq_key (snd (parse_request L value)) \<in> K then apply_request L value m else m)"

definition keys_of_group :: "journey_lib \<Rightarrow> u32 \<Rightarrow> u32 \<Rightarrow> bytes set" where
  "keys_of_group L n g = {k. Shard L n k = Some g}"

definition journey_view :: "('d \<Rightarrow> bytes \<rightharpoonup> bytes) \<Rightarrow> bytes set \<Rightarrow> ('d, 'v) journey \<Rightarrow> bytes \<rightharpoonup> bytes" where
  "journey_view c K w = c (jdb w) |` K"

text \<open>The environment of a member: a LevelDB that works, with the machine of the service.\<close>

definition journey_member :: "journey_lib \<Rightarrow> ('d \<Rightarrow> bytes \<rightharpoonup> bytes) \<Rightarrow> ('d, ('d, 'v) journey) env \<Rightarrow> bool" where
  "journey_member L c E \<longleftrightarrow> (\<exists>E0. E = journey_env L E0 \<and> leveldb_ok E0 c)"

lemma leveldb_updates:
  assumes "leveldb_ok E c"
  shows "fst (ldb_put E y k v d) = LOk" "c (snd (ldb_put E y k v d)) = (c d)(k \<mapsto> v)"
    "fst (ldb_delete E y k d) = LOk" "c (snd (ldb_delete E y k d)) = (c d)(k := None)"
    "ldb_get E k d = (case c d k of None \<Rightarrow> (LNotFound, []) | Some v \<Rightarrow> (LOk, v))"
  using assms by (simp_all add: leveldb_ok_def)

lemma Execute_refines:
  assumes "leveldb_ok E c"
  shows "fst (JourneyDBMachine_Execute L E value ctx w)"
    and "c (jdb (snd (JourneyDBMachine_Execute L E value ctx w))) = apply_request L value (c (jdb w))"
  using leveldb_updates [OF assms]
  by (auto simp: JourneyDBMachine_Execute_def apply_request_def JourneyDB_Put_def JourneyDB_Delete_def Let_def case_prod_beta
      split: ProposeType.split ctx_ptr.split)

lemma apply_request_within: "apply_request L value m |` K = apply_within L K value (m |` K)"
  by (auto simp: apply_within_def apply_request_def restrict_map_def case_prod_beta fun_eq_iff split: ProposeType.split)

lemma journey_env_fields [simp]:
  "sm_execute (journey_env L E) = (\<lambda>i g ii v c. for_machine i (JourneyDBMachine_Execute L E v c) (in_base (sm_execute E i g ii v c)))"
  "sm_make_checkpoint (journey_env L E) =
     (\<lambda>i g ii d. for_machine i (JourneyDBMachine_MakeCheckpoint g ii d) (in_base (sm_make_checkpoint E i g ii d)))"
  "gettimeofday (journey_env L E) = in_base (gettimeofday E)"
  "new_timer (journey_env L E) = (\<lambda>live. in_base (new_timer E live))"
  "uniform_int (journey_env L E) = (\<lambda>lo hi. in_base (uniform_int E lo hi))"
  "sys_mkdir (journey_env L E) = (\<lambda>f. in_base (sys_mkdir E f))"
  "sys_rmdir (journey_env L E) = (\<lambda>f. in_base (sys_rmdir E f))"
  "sys_unlink (journey_env L E) = (\<lambda>f. in_base (sys_unlink E f))"
  "membership_cb (journey_env L E) = map_option (\<lambda>cb g. on_base (cb g)) (membership_cb E)"
  "master_cb (journey_env L E) = map_option (\<lambda>cb g. on_base (cb g)) (master_cb E)"
  by (simp_all add: journey_env_def)

lemma in_base_parts [simp]:
  "jdb (snd (in_base f w)) = jdb w" "responses (snd (in_base f w)) = responses w" "done_runs (snd (in_base f w)) = done_runs w"
  "jdb (on_base h w) = jdb w" "responses (on_base h w) = responses w" "done_runs (on_base h w) = done_runs w"
  by (simp_all add: in_base_def on_base_def case_prod_beta)

interpretation journey: replicated_machine "journey_member L c" "journey_view c K" journey_machine_id "apply_within L K"
  for L :: journey_lib and c :: "'d \<Rightarrow> bytes \<rightharpoonup> bytes" and K :: "bytes set"
proof unfold_locales
  fix E :: "('d, ('d, 'v) journey) env" and g i v ctx and w :: "('d, 'v) journey"
  assume "journey_member L c E"
  then obtain E0 where E: "E = journey_env L E0" "leveldb_ok E0 c" by (auto simp: journey_member_def)
  show "journey_view c K (snd (sm_execute E journey_machine_id g i v ctx w)) = apply_within L K v (journey_view c K w)"
    by (simp add: E(1) journey_view_def for_machine_def Execute_refines [OF E(2)] apply_request_within)
  assume "\<not> fst (sm_execute E journey_machine_id g i v ctx w)"
  then show "journey_view c K (snd (sm_execute E journey_machine_id g i v ctx w)) = journey_view c K w"
    by (simp add: E(1) for_machine_def Execute_refines [OF E(2)])
qed (auto simp: journey_member_def journey_view_def for_machine_def JourneyDBMachine_MakeCheckpoint_def)

text \<open>A put that was executed is read back.\<close>

lemma put_then_get:
  assumes "leveldb_ok E c" and "request_codec_ok L"
  shows "JourneyDB_Get E k (jdb (snd (JourneyDBMachine_Execute L E
      (ser_request L \<lparr>rq_type = PROPOSE_TYPE_PUT, rq_key = k, rq_value = v\<rparr>) ctx w))) = (0, v)"
  using Execute_refines(2) [OF assms(1)] assms(2)
  by (simp add: JourneyDB_Get_def leveldb_updates(5) [OF assms(1)] apply_request_def request_codec_ok_def)

section \<open>Replicas\<close>

text \<open>
  C3. What the database of a member holds for the keys of a group is at any time of a guarded run the
  replay of the log of the member: the values of its log below its current instance, executed in
  order on the initial contents, whatever the other groups do to other keys. The runs are those of
  the agreement of the logs, with its guards: fixed membership, no restart, no collection of log
  entries and no checkpoint installed.
\<close>

theorem journey_replays_log:
  fixes \<sigma> :: "u64 \<Rightarrow> ('d, ('d, 'v) journey, 'z) node_scheme"
    and c :: "'d \<Rightarrow> bytes \<rightharpoonup> bytes" and L :: journey_lib and k g :: u32
  defines "view \<equiv> journey_view c (keys_of_group L k g)"
    and "run \<equiv> run_value journey_machine_id (apply_within L (keys_of_group L k g))"
  assumes "cluster_env M En c" and "\<And>n. n \<in> M \<Longrightarrow> journey_member L c (En n)"
    and "\<And>n. n \<in> M \<Longrightarrow> replica_starts view journey_machine_id first m0 (En n) c (\<sigma>0 n)"
    and "(replica_step view M En)\<^sup>*\<^sup>* \<sigma>0 \<sigma>" and "n \<in> M"
  shows "view (world (\<sigma> n)) = fold run (log_values (En n) (c (db (\<sigma> n))) first (instance_id (\<sigma> n))) m0"
  unfolding view_def run_def by (rule journey.replayed) (use assms in \<open>simp_all add: view_def\<close>)

text \<open>
  C2. Replicated state over guarded runs: of any two members, the one that is ahead has executed what
  the other has, and then the rest of its log. Two members at the same instance hold the same values
  for all keys of the group. The runs are those of the agreement of the logs, with its guards: fixed
  membership, no restart, no collection of log entries and no checkpoint installed.
\<close>

theorem journey_replicas_agree:
  fixes \<sigma> :: "u64 \<Rightarrow> ('d, ('d, 'v) journey, 'z) node_scheme"
    and c :: "'d \<Rightarrow> bytes \<rightharpoonup> bytes" and L :: journey_lib and k g :: u32
  defines "view \<equiv> journey_view c (keys_of_group L k g)"
    and "run \<equiv> run_value journey_machine_id (apply_within L (keys_of_group L k g))"
  assumes "cluster_env M En c" and "\<And>n. n \<in> M \<Longrightarrow> journey_member L c (En n)"
    and "\<And>n. n \<in> M \<Longrightarrow> replica_starts view journey_machine_id first m0 (En n) c (\<sigma>0 n)"
    and "(replica_step view M En)\<^sup>*\<^sup>* \<sigma>0 \<sigma>"
    and "n \<in> M" and "m \<in> M" and "instance_id (\<sigma> n) \<le> instance_id (\<sigma> m)"
  shows "view (world (\<sigma> m)) =
      fold run (log_values (En m) (c (db (\<sigma> m))) (instance_id (\<sigma> n)) (instance_id (\<sigma> m))) (view (world (\<sigma> n))) \<and>
    (instance_id (\<sigma> n) = instance_id (\<sigma> m) \<longrightarrow>
      (\<forall>key\<in>keys_of_group L k g. c (jdb (world (\<sigma> m))) key = c (jdb (world (\<sigma> n))) key))"
proof -
  have *: "view (world (\<sigma> m)) =
      fold run (log_values (En m) (c (db (\<sigma> m))) (instance_id (\<sigma> n)) (instance_id (\<sigma> m))) (view (world (\<sigma> n)))"
    unfolding view_def run_def by (rule journey.replicas_agree) (use assms in \<open>simp_all add: view_def\<close>)
  moreover have "c (jdb (world (\<sigma> m))) key = c (jdb (world (\<sigma> n))) key"
    if "instance_id (\<sigma> n) = instance_id (\<sigma> m)" "key \<in> keys_of_group L k g" for key
    using fun_cong [OF *, of key] that by (simp add: log_values_def view_def journey_view_def restrict_map_def)
  ultimately show ?thesis by blast
qed

section \<open>Restart\<close>

definition execute_values ::
    "journey_lib \<Rightarrow> ('d, 'v) env \<Rightarrow> bytes list \<Rightarrow> ('d, 'v) journey \<Rightarrow> ('d, 'v) journey" where
  "execute_values L E vs w = fold (\<lambda>v w. snd (JourneyDBMachine_Execute L E v Null w)) vs w"

lemma execute_values_contents:
  "leveldb_ok E c \<Longrightarrow> c (jdb (execute_values L E vs w)) = fold (apply_request L) vs (c (jdb w))"
  unfolding execute_values_def by (induction vs arbitrary: w) (simp_all add: Execute_refines)

text \<open>The key a value writes, and what it writes there.\<close>

definition request_write :: "journey_lib \<Rightarrow> bytes \<Rightarrow> (bytes \<times> bytes option) option" where
  "request_write L v =
     (case parse_request L v of
        (res, msg) \<Rightarrow>
          (if \<not> res then None
           else case rq_type msg of
             PROPOSE_TYPE_PUT \<Rightarrow> Some (rq_key msg, Some (rq_value msg))
           | PROPOSE_TYPE_DELETE \<Rightarrow> Some (rq_key msg, None)
           | _ \<Rightarrow> None))"

lemma apply_request_write: "apply_request L v m = (case request_write L v of None \<Rightarrow> m | Some (k, x) \<Rightarrow> m(k := x))"
  by (simp add: apply_request_def request_write_def case_prod_beta split: ProposeType.split)

text \<open>What a sequence of values leaves at a key is what its last write to it says.\<close>

lemma fold_apply_at:
  "fold (apply_request L) vs m k =
    (case List.find (\<lambda>v. \<exists>x. request_write L v = Some (k, x)) (rev vs) of
       None \<Rightarrow> m k | Some v \<Rightarrow> snd (the (request_write L v)))"
proof (induction vs rule: rev_induct)
  case (snoc v vs)
  then show ?case by (auto simp: apply_request_write split: option.splits)
qed simp

lemma find_append: "List.find P (xs @ ys) = (case List.find P xs of None \<Rightarrow> List.find P ys | Some x \<Rightarrow> Some x)"
  by (induction xs) simp_all

text \<open>
  C14. A restart replays the whole log, because the machine makes no checkpoint, on a database that
  has kept the effect of a part of it already. The result is the same as that of executing the log
  once: for any prefix \<open>us\<close> that was executed before.
\<close>

theorem replay_after_restart:
  assumes "leveldb_ok E c"
  shows "c (jdb (execute_values L E (us @ vs) (execute_values L E us w))) = c (jdb (execute_values L E (us @ vs) w))"
proof
  fix k
  show "c (jdb (execute_values L E (us @ vs) (execute_values L E us w))) k = c (jdb (execute_values L E (us @ vs) w)) k"
    unfolding execute_values_contents [OF assms] fold_apply_at [of L "us @ vs"]
    by (auto simp: find_append fold_apply_at split: option.split)
qed

section \<open>Requests\<close>

lemma response_parts [simp]:
  "jdb (set_response r f w) = jdb w" "done_runs (set_response r f w) = done_runs w"
  "responses (set_response r f w) = (responses w)(r := f (responses w r))"
  "jdb (run_done b r w) = jdb w" "done_runs (run_done b r w) = done_runs w @ (if b then [r] else [])"
  "jdb (answer_get E k r w) = jdb w" "done_runs (answer_get E k r w) = done_runs w"
  "jdb (answer_not_master junk found r w) = jdb w" "done_runs (answer_not_master junk found r w) = done_runs w"
  "responses (run_done b r w) = responses w"
  by (simp_all add: set_response_def run_done_def answer_get_def answer_not_master_def Let_def case_prod_beta)

lemma on_world_parts [simp]:
  "groups (on_world f n) = groups n" "node_world (on_world f n) = f (node_world n)"
  by (simp_all add: on_world_def)

text \<open>Reading from a group changes nothing but the group's copy of the world.\<close>

lemma in_group_read:
  assumes "in_group E i (\<lambda>E g. (f E g, g)) n = Some (x, n')"
  shows "groups n' = (groups n)[i := (groups n ! i)\<lparr>world := node_world n\<rparr>]" "node_world n' = node_world n" "i < length (groups n)"
  using assms by (auto simp: in_group_def split: if_splits)

text \<open>A proposal is taken with its callback, or refused.\<close>

lemma Propose_queue:
  assumes "NodeImpl_Propose E gid mid v ctx cb n = Some (b, n')"
  defines "i \<equiv> unat gid"
  shows "node_world n' = node_world n" "i < length (groups n)" "j \<noteq> i \<Longrightarrow> groups n' ! j = groups n ! j"
    "cb_queue (queue (groups n' ! i)) = cb_queue (queue (groups n ! i)) @ (if b then [cb] else [])"
    "\<not> b \<Longrightarrow> queue (groups n' ! i) = queue (groups n ! i)"
  using assms(1)
  by (auto simp: i_def NodeImpl_Propose_def in_group_def Group_OnPropose_def queue_Put_def ProposeQueue_Put_def
      split: if_splits prod.splits)

text \<open>What \<^verbatim>\<open>Propose\<close> does before it looks at its flag.\<close>

lemma Propose_cases:
  assumes run: "JourneyServiceImpl_Propose L E junk request r has_done svc = Some svc'"
    and shard: "Shard L (svc_group_size svc) (rq_key request) = Some gid"
  defines "fails \<equiv> set_response r (\<lambda>m. m\<lparr>rs_result := PROPOSE_RESULT_FAIL\<rparr>)" and "i \<equiv> unat gid"
  obtains (get) n where "rq_type request = PROPOSE_TYPE_GET"
      "groups n = (groups (svc_node svc))[i := (groups (svc_node svc) ! i)\<lparr>world := fails (node_world (svc_node svc))\<rparr>]"
      "node_world n = fails (node_world (svc_node svc))"
      "svc_node svc' = on_world (run_done has_done r) (on_world (answer_get E (rq_key request) r) n)"
  | (redirect) n found where
      "groups n = (groups (svc_node svc))[i := (groups (svc_node svc) ! i)\<lparr>world := fails (node_world (svc_node svc))\<rparr>]"
      "node_world n = fails (node_world (svc_node svc))"
      "svc_node svc' = on_world (run_done has_done r) (on_world (answer_not_master junk found r) n)"
  | (propose) n b n' where "rq_type request \<noteq> PROPOSE_TYPE_GET"
      "groups n = (groups (svc_node svc))[i := (groups (svc_node svc) ! i)\<lparr>world := fails (node_world (svc_node svc))\<rparr>]"
      "node_world n = fails (node_world (svc_node svc))"
      "NodeImpl_Propose (journey_env L E) gid journey_machine_id (ser_request L request) (UserContext r) (UserCallback r) n = Some (b, n')"
      "svc_node svc' = (if b then n' else on_world (run_done has_done r) n')"
proof -
  let ?E = "journey_env L E" and ?n0 = "on_world fails (svc_node svc)"
  from run shard obtain b n1 where master: "NodeImpl_IsMaster ?E gid ?n0 = Some (b, n1)"
    by (auto simp: JourneyServiceImpl_Propose_def Let_def fails_def split: option.splits)
  have n1: "groups n1 = (groups (svc_node svc))[i := (groups (svc_node svc) ! i)\<lparr>world := fails (node_world (svc_node svc))\<rparr>]"
      "node_world n1 = fails (node_world (svc_node svc))" "i < length (groups (svc_node svc))"
    using in_group_read [OF master [unfolded NodeImpl_IsMaster_def]] by (simp_all add: i_def)
  note run' = run [unfolded JourneyServiceImpl_Propose_def shard Let_def, simplified, folded fails_def, simplified master]
  show thesis
  proof (cases b)
    case False
    with run' obtain found n2 where m: "NodeImpl_GetMaster ?E gid n1 = Some (found, n2)"
        and svc: "svc_node svc' = on_world (run_done has_done r) (on_world (answer_not_master junk found r) n2)"
      by (auto split: option.splits)
    have "groups n2 = groups n1" "node_world n2 = node_world n1"
      using in_group_read [OF m [unfolded NodeImpl_GetMaster_def]] n1 by (simp_all add: i_def)
    with n1 svc show thesis by (intro redirect) simp_all
  next
    case True
    show thesis
    proof (cases "rq_type request = PROPOSE_TYPE_GET")
      case True
      with run' \<open>b\<close> n1 show thesis by (intro get [of n1]) auto
    next
      case False
      with run' \<open>b\<close> n1 show thesis by (auto intro: propose [of n1])
    qed
  qed
qed

text \<open>
  C13. Every request to the service is answered exactly once: either its closure is run before
  \<^verbatim>\<open>Propose\<close> returns and no proposal was queued, or the closure has not run and the group of the
  key has taken a proposal with the callback that will run it. Only that group is touched, and the
  database is not. A get that is answered with success carries what the database holds for the key.
\<close>

theorem Propose_answers_once:
  fixes svc svc' :: "('d, 'v) JourneyServiceImpl" and gid :: u32
  assumes "JourneyServiceImpl_Propose L E junk request r True svc = Some svc'"
    and "Shard L (svc_group_size svc) (rq_key request) = Some gid"
  defines "w \<equiv> node_world (svc_node svc)" and "w' \<equiv> node_world (svc_node svc')"
    and "q \<equiv> \<lambda>j. queue (groups (svc_node svc) ! j)" and "q' \<equiv> \<lambda>j. queue (groups (svc_node svc') ! j)"
  shows "(done_runs w' = done_runs w @ [r] \<and> q' = q \<or>
      done_runs w' = done_runs w \<and> cb_queue (q' (unat gid)) = cb_queue (q (unat gid)) @ [UserCallback r]) \<and>
    (\<forall>j. j \<noteq> unat gid \<longrightarrow> q' j = q j) \<and> jdb w' = jdb w \<and>
    (leveldb_ok E c \<longrightarrow> rq_type request = PROPOSE_TYPE_GET \<longrightarrow> rs_result (responses w' r) = PROPOSE_RESULT_SUCCESS \<longrightarrow>
       c (jdb w) (rq_key request) = Some (rs_value (responses w' r)))"
proof -
  have same: "queue ((gs[i := (gs ! i)\<lparr>world := x\<rparr>]) ! j) = queue (gs ! j)" for gs :: "('d, ('d, 'v) journey) group list" and i j x
    by (cases "i < length gs"; cases "j = i") (simp_all add: list_update_beyond not_less)
  show ?thesis
    using assms(1,2)
  proof (cases rule: Propose_cases)
    case (get n)
    then have "q' = q" "done_runs w' = done_runs w @ [r]" "jdb w' = jdb w"
      by (simp_all add: q_def q'_def w_def w'_def same)
    moreover have "c (jdb w) (rq_key request) = Some (rs_value (responses w' r))"
      if "leveldb_ok E c" "rs_result (responses w' r) = PROPOSE_RESULT_SUCCESS"
      using that get by (auto simp: w_def w'_def answer_get_def JourneyDB_Get_def leveldb_updates split: option.splits)
    ultimately show ?thesis by simp
  next
    case (redirect n found)
    then have "q' = q" "done_runs w' = done_runs w @ [r]" "jdb w' = jdb w"
      by (simp_all add: q_def q'_def w_def w'_def same)
    moreover have "rs_result (responses w' r) = PROPOSE_RESULT_NOT_MASTER"
      using redirect by (simp add: w'_def answer_not_master_def Let_def case_prod_beta)
    ultimately show ?thesis by simp
  next
    case (propose n b n')
    note p = Propose_queue [OF propose(4)]
    have "q' j = q j" if "j \<noteq> unat gid" for j
      using p(3) [OF that] propose(2,5) that by (simp add: q_def q'_def)
    moreover have "cb_queue (q' (unat gid)) = cb_queue (q (unat gid)) @ (if b then [UserCallback r] else [])"
        "\<not> b \<Longrightarrow> q' (unat gid) = q (unat gid)"
      using p(4,5) propose(2,5) by (simp_all add: q_def q'_def same)
    moreover have "done_runs w' = done_runs w @ (if b then [] else [r])" "jdb w' = jdb w"
      using p(1) propose(3,5) by (simp_all add: w_def w'_def)
    moreover from calculation(1,3) have "\<not> b \<Longrightarrow> q' = q" by (metis ext)
    ultimately show ?thesis using propose(1) by (cases b) auto
  qed
qed

end
