(* ===== verification/ServerMain.thy ===== *)
theory ServerMain
  imports Journey Decimals
begin

text \<open>
  The programs \<^verbatim>\<open>examples/journey/journey_server.cc\<close> and
  \<^verbatim>\<open>examples/echo/echo.cc\<close>: the command line becomes the options of a node with three groups.
  \<^verbatim>\<open>voyager::SplitStringUsing\<close> and \<^verbatim>\<open>inet_addr\<close> are arguments.
\<close>

section \<open>Splitting\<close>

type_synonym splitter = "string \<Rightarrow> string \<Rightarrow> string list"

text \<open>The pieces between the occurrences of a character, without the empty ones, which is what the
  splitter is documented to give.\<close>

function tokens :: "char \<Rightarrow> string \<Rightarrow> string list" where
  "tokens d s =
     (if s = [] then []
      else (let t = takeWhile (\<lambda>c. c \<noteq> d) s; r = drop (Suc (length t)) s
            in (if t = [] then [] else [t]) @ tokens d r))"
  by pat_completeness auto
termination
  by (relation "measure (\<lambda>(d, s). length s)") auto

declare tokens.simps [simp del]

definition split_ok :: "splitter \<Rightarrow> bool" where
  "split_ok split \<longleftrightarrow> (\<forall>s d. split s [d] = tokens d s)"

lemma tokens_nil [simp]: "tokens d [] = []"
  by (simp add: tokens.simps)

lemma takeWhile_until [simp]: "d \<notin> set x \<Longrightarrow> takeWhile (\<lambda>c. c \<noteq> d) (x @ d # s) = x"
  by (induction x) auto

lemma tokens_piece:
  assumes "x \<noteq> []" and "d \<notin> set x"
  shows "tokens d x = [x]" "tokens d (x @ d # s) = x # tokens d s"
proof -
  have t: "takeWhile (\<lambda>c. c \<noteq> d) x = x" "takeWhile (\<lambda>c. c \<noteq> d) (x @ d # s) = x"
    using assms(2) by (auto simp: takeWhile_eq_all_conv)
  show "tokens d x = [x]" using assms(1) by (subst tokens.simps) (simp add: t(1) Let_def)
  show "tokens d (x @ d # s) = x # tokens d s" using assms(1) by (subst tokens.simps) (simp add: t(2) Let_def)
qed

lemma tokens_nonempty: "c \<in> set s \<Longrightarrow> c \<noteq> d \<Longrightarrow> tokens d s \<noteq> []"
proof (induction s)
  case (Cons x s)
  show ?case
  proof (cases "x = d")
    case True
    with Cons show ?thesis by (subst tokens.simps) (simp add: Let_def)
  next
    case False
    then show ?thesis by (subst tokens.simps) (simp add: Let_def)
  qed
qed simp

section \<open>Options\<close>

text \<open>An element of the list of members; one without a colon is passed over. \<^const>\<open>None\<close> is a port
  for which \<^verbatim>\<open>atoi\<close> is undefined.\<close>

definition parse_member :: "(string \<Rightarrow> u32) \<Rightarrow> string \<Rightarrow> Member list option" where
  "parse_member inet_addr s =
     (let host = takeWhile (\<lambda>c. c \<noteq> CHR '':'') s
      in if CHR '':'' \<in> set s
         then map_option (\<lambda>n. let port = word_of_int n
                in [\<lparr>id_of = MakeId inet_addr host port, host_of = host, port_of = port, context_of = []\<rparr>])
              (atoi (drop (Suc (length host)) s))
         else Some [])"

primrec parse_members :: "(string \<Rightarrow> u32) \<Rightarrow> string list \<Rightarrow> Member list option" where
  "parse_members inet_addr [] = Some []"
| "parse_members inet_addr (s # ss) =
     (case parse_member inet_addr s of
        None \<Rightarrow> None
      | Some ms \<Rightarrow> map_option ((@) ms) (parse_members inet_addr ss))"

text \<open>The node's own address; \<^const>\<open>None\<close> is also the access \<^verbatim>\<open>my[1]\<close> out of range.\<close>

definition parse_my :: "splitter \<Rightarrow> (string \<Rightarrow> u32) \<Rightarrow> string \<Rightarrow> Member option" where
  "parse_my split inet_addr arg =
     (case split arg '':'' of
        host # p # _ \<Rightarrow>
          map_option (\<lambda>n. let port = word_of_int n
            in \<lparr>id_of = MakeId inet_addr host port, host_of = host, port_of = port, context_of = []\<rparr>) (atoi p)
      | _ \<Rightarrow> None)"

definition main_options ::
    "splitter \<Rightarrow> (string \<Rightarrow> u32) \<Rightarrow> GroupOptions \<Rightarrow> string \<Rightarrow> string \<Rightarrow> Options option" where
  "main_options split inet_addr g_options arg1 arg2 =
     (case parse_my split inet_addr arg1 of
        None \<Rightarrow> None
      | Some my \<Rightarrow>
         (case parse_members inet_addr (split arg2 '','') of
            None \<Rightarrow> None
          | Some ms \<Rightarrow>
             Some ((Options_default 0 0)\<lparr>opt_my := my,
               opt_groups := replicate 3 (g_options\<lparr>opt_membership := opt_membership g_options @ ms\<rparr>)\<rparr>)))"

definition server_group_options :: "string \<Rightarrow> GroupOptions" where
  "server_group_options path =
     GroupOptions_default\<lparr>use_master := True, log_sync := True, sync_interval := 0, keep_log_count := 1000,
       log_storage_path := path\<rparr>"

definition echo_group_options :: "string \<Rightarrow> GroupOptions" where
  "echo_group_options path =
     GroupOptions_default\<lparr>use_master := True, keep_checkpoint_count := 3, log_sync := True, sync_interval := 0,
       keep_log_count := 100, log_storage_path := path\<rparr>"

section \<open>The programs\<close>

text \<open>How \<^verbatim>\<open>main\<close> goes: the message on its use, the two failures, or the program at work.\<close>

datatype 'a program_run = Usage | Getcwd_error | Start_failed | Runs 'a

text \<open>The address of the RPC server: the port of the node and a thousand.\<close>

definition server_address :: "Options \<Rightarrow> string \<times> int" where
  "server_address options = (host_of (opt_my options), int (unat (port_of (opt_my options))) + 1000)"

text \<open>\<^verbatim>\<open>main\<close>, up to the loop of the RPC server. \<^const>\<open>None\<close> is undefined, or a node that does not
  get through its start.\<close>

definition journey_server_main ::
    "journey_lib \<Rightarrow> ('d, 'v) env \<Rightarrow> splitter \<Rightarrow> (string \<Rightarrow> u32) \<Rightarrow> (u64 \<Rightarrow> nat list \<Rightarrow> nat list) \<Rightarrow>
      (u32 \<Rightarrow> u32 \<times> u32 \<times> (loop_name \<Rightarrow> u64) \<times> u64 \<times> CheckpointReceiver) \<Rightarrow> 'd \<Rightarrow> string list \<Rightarrow> string option \<Rightarrow> 'v \<Rightarrow>
      (('d, 'v) JourneyServiceImpl \<times> string \<times> int) program_run option" where
  "journey_server_main L E split inet_addr shuffle init d argv cwd v =
     (case argv of
        [prog, arg1, arg2] \<Rightarrow>
          (case cwd of
             None \<Rightarrow> Some Getcwd_error
           | Some path \<Rightarrow>
              (case main_options split inet_addr (server_group_options path) arg1 arg2 of
                 None \<Rightarrow> None
               | Some options \<Rightarrow>
                  map_option (\<lambda>service. case service of
                      None \<Rightarrow> Start_failed
                    | Some svc \<Rightarrow> Runs (svc, server_address options))
                    (JourneyServiceImpl_Start L E shuffle init d (path @ ''/db'') options v)))
      | _ \<Rightarrow> Some Usage)"

text \<open>The echo program: a node without a machine, and a turn of its loop, which proposes a line, the
  empty one at the end of the input. The callback prints the status.\<close>

definition echo_main ::
    "('d, 'w) env \<Rightarrow> splitter \<Rightarrow> (string \<Rightarrow> u32) \<Rightarrow> (u64 \<Rightarrow> nat list \<Rightarrow> nat list) \<Rightarrow>
      (u32 \<Rightarrow> u32 \<times> u32 \<times> (loop_name \<Rightarrow> u64) \<times> u64 \<times> CheckpointReceiver) \<Rightarrow> 'd \<Rightarrow> string list \<Rightarrow> string option \<Rightarrow> 'w \<Rightarrow>
      ('d, 'w) NodeImpl program_run option" where
  "echo_main E split inet_addr shuffle init d argv cwd w =
     (case argv of
        [prog, arg1, arg2] \<Rightarrow>
          (case cwd of
             None \<Rightarrow> Some Getcwd_error
           | Some path \<Rightarrow>
              (case main_options split inet_addr (echo_group_options path) arg1 arg2 of
                 None \<Rightarrow> None
               | Some options \<Rightarrow>
                  map_option (\<lambda>(res, node). case node of None \<Rightarrow> Start_failed | Some n \<Rightarrow> Runs n)
                    (Node_Start E shuffle init d options w)))
      | _ \<Rightarrow> Some Usage)"

definition bytes_of :: "string \<Rightarrow> bytes" where
  "bytes_of = map of_char"

definition echo_turn ::
    "('d, 'w) env \<Rightarrow> string list \<Rightarrow> ('d, 'w) NodeImpl \<Rightarrow> (string list \<times> ('d, 'w) NodeImpl) option" where
  "echo_turn E lines node =
     (let (value, rest) = (case lines of [] \<Rightarrow> ([], []) | s # ss \<Rightarrow> (s, ss))
      in map_option (\<lambda>(_, node'). (rest, node')) (NodeImpl_Propose E 0 (-1) (bytes_of value) Null (UserCallback 0) node))"

text \<open>No machine has the id the program proposes for: a new group fails to execute such a value.\<close>

lemma echo_value_fails:
  assumes "opt_machines opts = []" and "pv_machine_id v = -1"
  shows "fst (MachineManager_Execute E i v c (Config_new E opts born uninit d w)) = False"
proof -
  have "map_of (machines (Config_new E opts born uninit d w)) (-1) = None"
    using Config_new_machines [of opts E born uninit d w] assms(1) by simp
  then show ?thesis by (simp add: MachineManager_Execute_def assms(2))
qed

section \<open>Servers of one cluster\<close>

text \<open>An address as it is written on the command line.\<close>

definition write_address :: "string \<times> u16 \<Rightarrow> string" where
  "write_address a = fst a @ '':'' @ to_string (unat (snd a))"

fun write_addresses :: "(string \<times> u16) list \<Rightarrow> string" where
  "write_addresses [] = []"
| "write_addresses [a] = write_address a"
| "write_addresses (a # as) = write_address a @ '','' @ write_addresses as"

definition member_at :: "(string \<Rightarrow> u32) \<Rightarrow> string \<times> u16 \<Rightarrow> Member" where
  "member_at inet_addr a =
     \<lparr>id_of = MakeId inet_addr (fst a) (snd a), host_of = fst a, port_of = snd a, context_of = []\<rparr>"

definition plain_host :: "string \<Rightarrow> bool" where
  "plain_host h \<longleftrightarrow> h \<noteq> [] \<and> CHR '':'' \<notin> set h \<and> CHR '','' \<notin> set h"

lemma to_string_no_comma [simp]: "CHR '','' \<notin> set (to_string n)" "to_string n \<noteq> []"
  using to_string_digits [of n] by (auto simp: is_digit_def)

lemma port_text: "atoi (to_string (unat (p :: u16))) = Some (int (unat p))"
proof (rule int_of_to_string(2))
  have "unat p < 2 ^ 16" using unsigned_less [of p] by simp
  then show "unat p < 2 ^ 31" by simp
qed

lemma parse_member_address: "plain_host (fst a) \<Longrightarrow> parse_member inet_addr (write_address a) = Some [member_at inet_addr a]"
proof -
  assume "plain_host (fst a)"
  then have t: "takeWhile (\<lambda>c. c \<noteq> CHR '':'') (write_address a) = fst a"
    by (simp add: write_address_def plain_host_def)
  moreover have "drop (Suc (length (fst a))) (write_address a) = to_string (unat (snd a))" "CHR '':'' \<in> set (write_address a)"
    by (simp_all add: write_address_def)
  ultimately show ?thesis by (simp add: parse_member_def port_text member_at_def Let_def)
qed

lemma parse_members_addresses:
  "\<forall>a \<in> set as. plain_host (fst a) \<Longrightarrow> parse_members inet_addr (map write_address as) = Some (map (member_at inet_addr) as)"
  by (induction as) (simp_all add: parse_member_address)

lemma tokens_addresses:
  "\<forall>a \<in> set as. plain_host (fst a) \<Longrightarrow> tokens (CHR '','') (write_addresses as) = map write_address as"
proof (induction as rule: write_addresses.induct)
  case (3 a b as)
  have "write_address a \<noteq> []" "CHR '','' \<notin> set (write_address a)"
    using 3(2) by (auto simp: write_address_def plain_host_def)
  from tokens_piece(2) [OF this] 3 show ?case by simp
next
  case (2 a)
  then have "write_address a \<noteq> []" "CHR '','' \<notin> set (write_address a)"
    by (auto simp: write_address_def plain_host_def)
  from tokens_piece(1) [OF this] show ?case by simp
qed simp

lemma split_address: "split_ok split \<Longrightarrow> plain_host (fst a) \<Longrightarrow> split (write_address a) '':'' = [fst a, to_string (unat (snd a))]"
  using tokens_piece(2) [of "fst a" "CHR '':''" "to_string (unat (snd a))"]
    tokens_piece(1) [of "to_string (unat (snd a))" "CHR '':''"]
  by (simp add: split_ok_def write_address_def plain_host_def)

lemma parse_my_address: "split_ok split \<Longrightarrow> plain_host (fst a) \<Longrightarrow> parse_my split inet_addr (write_address a) = Some (member_at inet_addr a)"
  by (simp add: parse_my_def split_address port_text member_at_def Let_def)

text \<open>
  C35. Servers started with the same list of addresses, each with its own address from the list, form
  one cluster: each has three groups whose members are exactly the listed ones in this order, and
  each is one of them under the id it uses itself. Where different hosts have different internet
  addresses, no two share an id.
\<close>

theorem servers_form_cluster:
  assumes "split_ok split" and "\<forall>a \<in> set as. plain_host (fst a)" and "a \<in> set as"
    and "opt_membership g_options = []"
  shows "\<exists>options. main_options split inet_addr g_options (write_address a) (write_addresses as) = Some options \<and>
    length (opt_groups options) = 3 \<and>
    (\<forall>g \<in> set (opt_groups options). opt_membership g = map (member_at inet_addr) as \<and> opt_my options \<in> set (opt_membership g)) \<and>
    opt_my options = member_at inet_addr a \<and>
    (inj_on inet_addr (fst ` set as) \<longrightarrow> inj_on (\<lambda>a. id_of (member_at inet_addr a)) (set as))"
proof -
  have ids: "a = b" if "inj_on inet_addr (fst ` set as)" "a \<in> set as" "b \<in> set as"
      "MakeId inet_addr (fst a) (snd a) = MakeId inet_addr (fst b) (snd b)" for a b
  proof (rule prod_eqI)
    from that(4) show "snd a = snd b" unfolding MakeId_def by (metis id_bits(2))
    from that(4) have "inet_addr (fst a) = inet_addr (fst b)" unfolding MakeId_def by (metis id_bits(1))
    with that(1-3) show "fst a = fst b" by (auto dest: inj_onD)
  qed
  have "parse_members inet_addr (split (write_addresses as) '','') = Some (map (member_at inet_addr) as)"
    using assms(1,2) by (simp add: split_ok_def tokens_addresses parse_members_addresses)
  moreover have "parse_my split inet_addr (write_address a) = Some (member_at inet_addr a)"
    using assms by (simp add: parse_my_address)
  moreover have "inj_on (\<lambda>a. id_of (member_at inet_addr a)) (set as)" if "inj_on inet_addr (fst ` set as)"
    using ids [OF that] by (auto simp: inj_on_def member_at_def)
  ultimately show ?thesis using assms(3,4) by (simp add: main_options_def Options_default_def)
qed

end
