(* ===== verification/Client.thy ===== *)
theory Client
  imports ServerMain "HOL-Library.Monad_Syntax"
begin

text \<open>
  The interactive client of \<^verbatim>\<open>examples/journey\<close>, \<^verbatim>\<open>journey_client.cc\<close>: lines of the standard
  input become requests, each answered through a callback that reads the next one; a server that is
  not the master sends the client on. Channels and connections are those of the RPC library; a
  call through a stub and an attempt to connect are recorded, and their callbacks are operations of
  the model.
\<close>

section \<open>State\<close>

record client =
  server_of :: string
  words :: "string list"
  channels :: "string \<rightharpoonup> nat"
  stdin_lines :: "string list"
  printed :: string
  calls :: "(nat \<times> RequestMessage) list"
  connects :: "(string \<times> int \<times> RequestMessage) list"
  allocated :: nat

definition JourneyClient_new :: "string \<Rightarrow> string list \<Rightarrow> client" where
  "JourneyClient_new server lines =
     \<lparr>server_of = server, words = [], channels = Map.empty, stdin_lines = lines, printed = [], calls = [], connects = [],
      allocated = 0\<rparr>"

text \<open>How an operation ends: the client goes on, the process exits, or it is stopped by an
  assertion, an exception or undefined behaviour. An operation that does not end is \<^const>\<open>None\<close>.\<close>

datatype progress = Running client | Exited client | Crashed

definition print :: "string \<Rightarrow> client \<Rightarrow> client" where
  "print s c = c\<lparr>printed := printed c @ s\<rparr>"

definition println :: "string \<Rightarrow> client \<Rightarrow> client" where
  "println s = print (s @ [CHR 0x0A])"

text \<open>\<^verbatim>\<open>std::getline\<close>; at the end of the input the string stays empty.\<close>

definition getline :: "client \<Rightarrow> string \<times> client" where
  "getline c = (case stdin_lines c of [] \<Rightarrow> ([], c) | s # rest \<Rightarrow> (s, c\<lparr>stdin_lines := rest\<rparr>))"

definition text_of :: "bytes \<Rightarrow> string" where
  "text_of = map (\<lambda>b. char_of (unat b))"

section \<open>Commands\<close>

text \<open>\<^verbatim>\<open>GetLine\<close>: its result is always true.\<close>

partial_function (option) GetLine :: "splitter \<Rightarrow> bool \<Rightarrow> client \<Rightarrow> progress option" where
  "GetLine split server c0 =
     (let (s, c) = getline (print ''> '' c0)
      in if s = ''quit'' then Some (Exited (println ''bye!'' c))
         else if \<not> server
         then (let c1 = c\<lparr>words := []\<rparr>; found = length (takeWhile (\<lambda>x. x \<noteq> CHR '' '') s)
               in if CHR '' '' \<in> set s
                  then Some (Running (c1\<lparr>words := take found s # split (drop found s) '':''\<rparr>))
                  else GetLine split server (println ''invalid command!'' c1))
         else Some (Running (c\<lparr>server_of := s\<rparr>)))"

text \<open>\<^verbatim>\<open>CreateNewRequest\<close>: the result, and the request as it was filled. \<^const>\<open>None\<close> is the
  failed assertion on the number of words. The text for a bad command is printed by the caller
  here.\<close>

definition CreateNewRequest :: "string list \<Rightarrow> (bool \<times> RequestMessage) option" where
  "CreateNewRequest v =
     (case v of
        cmd # key # rest \<Rightarrow>
          (let request = \<lparr>rq_type = PROPOSE_TYPE_PUT, rq_key = bytes_of key, rq_value = []\<rparr>
           in Some (if cmd = ''put'' then
                      (case rest of
                         [value] \<Rightarrow> (True, request\<lparr>rq_value := bytes_of value\<rparr>)
                       | _ \<Rightarrow> (False, request))
                    else if cmd = ''get'' then (True, request\<lparr>rq_type := PROPOSE_TYPE_GET\<rparr>)
                    else if cmd = ''delete'' then (True, request\<lparr>rq_type := PROPOSE_TYPE_DELETE\<rparr>)
                    else (False, request)))
      | _ \<Rightarrow> None)"

definition stub_Propose :: "nat \<Rightarrow> RequestMessage \<Rightarrow> client \<Rightarrow> client" where
  "stub_Propose channel request c = c\<lparr>calls := calls c @ [(channel, request)]\<rparr>"

text \<open>\<^verbatim>\<open>CreateNewChannel\<close>: \<^const>\<open>Inl\<close> is the way through which another server is asked for and
  the command is tried again, \<^const>\<open>Inr\<close> the end of the function. The callbacks it sets follow
  below.\<close>

definition CreateNewChannel :: "splitter \<Rightarrow> RequestMessage \<Rightarrow> client \<Rightarrow> client + progress" where
  "CreateNewChannel split request c =
     (case split (server_of c) '':'' of
        [ip, port] \<Rightarrow>
          Inr (case stoi port of
                 None \<Rightarrow> Crashed
               | Some n \<Rightarrow> Running (c\<lparr>connects := connects c @ [(ip, n, request)]\<rparr>))
      | _ \<Rightarrow> Inl (println (c_str (server_of c) @ '', invalid server_ip:server_port, please enter new server_ip:server_port'') c))"

text \<open>\<^verbatim>\<open>Propose\<close> of the words in \<^verbatim>\<open>v_\<close>, and of a new line.\<close>

partial_function (option) Propose_words :: "splitter \<Rightarrow> client \<Rightarrow> progress option" where
  "Propose_words split c =
     (case CreateNewRequest (words c) of
        None \<Rightarrow> Some Crashed
      | Some (res, request) \<Rightarrow>
         (if res then
            (case channels c (server_of c) of
               Some channel \<Rightarrow> Some (Running (stub_Propose channel request c))
             | None \<Rightarrow>
                (case CreateNewChannel split request c of
                   Inl c1 \<Rightarrow> GetLine split True c1 \<bind> (\<lambda>r. case r of
                       Running c2 \<Rightarrow> Propose_words split c2
                     | Exited c2 \<Rightarrow> Some (Exited c2)
                     | Crashed \<Rightarrow> Some Crashed)
                 | Inr r \<Rightarrow> Some r))
          else GetLine split False (println ''invalid command!'' c) \<bind> (\<lambda>r. case r of
                   Running c2 \<Rightarrow> Propose_words split c2
                 | Exited c2 \<Rightarrow> Some (Exited c2)
                 | Crashed \<Rightarrow> Some Crashed)))"

definition and_then :: "progress option \<Rightarrow> (client \<Rightarrow> progress option) \<Rightarrow> progress option" where
  "and_then r f = r \<bind> (\<lambda>r. case r of Running c \<Rightarrow> f c | Exited c \<Rightarrow> Some (Exited c) | Crashed \<Rightarrow> Some Crashed)"

definition JourneyClient_Propose :: "splitter \<Rightarrow> client \<Rightarrow> progress option" where
  "JourneyClient_Propose split c = and_then (GetLine split False c) (Propose_words split)"

section \<open>Callbacks\<close>

definition OnConnection :: "RequestMessage \<Rightarrow> client \<Rightarrow> progress option" where
  "OnConnection request c =
     (let channel = allocated c
      in Some (Running (stub_Propose channel request
           (c\<lparr>channels := (channels c)(server_of c \<mapsto> channel), allocated := Suc channel\<rparr>))))"

definition OnConnectFailure :: "splitter \<Rightarrow> client \<Rightarrow> progress option" where
  "OnConnectFailure split c =
     and_then (GetLine split True (println ''connect failed, please enter new server_ip:server_port'' c))
       (JourneyClient_Propose split)"

text \<open>The close of a connection. The iterator stands for its key: what it points at is the entry of
  the map at the time it is used, which is after the entry was erased.\<close>

definition OnClose :: "splitter \<Rightarrow> client \<Rightarrow> progress option" where
  "OnClose split c =
     (case channels c (server_of c) of
        None \<Rightarrow> Some Crashed
      | Some _ \<Rightarrow>
         (let c1 = c\<lparr>channels := (channels c)(server_of c := None)\<rparr>
          in case channels c1 (server_of c) of
               None \<Rightarrow> Some Crashed
             | Some channel \<Rightarrow>
                and_then (GetLine split True (println (c_str (server_of c) @ '' close, please enter new server_ip:server_port'') c1))
                  (JourneyClient_Propose split)))"

fun result_text :: "ProposeResult \<Rightarrow> string" where
  "result_text PROPOSE_RESULT_SUCCESS = ''success''"
| "result_text PROPOSE_RESULT_FAIL = ''failed''"
| "result_text PROPOSE_RESULT_NOT_FOUND = ''not found''"
| "result_text PROPOSE_RESULT_NOT_MASTER = ''not master''"
| "result_text (OTHER_PROPOSE_RESULT n) = ''unknown''"

definition redirect_server :: "ResponseMessage \<Rightarrow> string" where
  "redirect_server response = rs_master_ip response @ '':'' @ to_string (unat (rs_master_port response + 1000))"

definition redirects :: "ResponseMessage \<Rightarrow> bool" where
  "redirects response \<longleftrightarrow> rs_result response = PROPOSE_RESULT_NOT_MASTER \<and> rs_has_master response"

definition Done :: "splitter \<Rightarrow> ResponseMessage \<Rightarrow> client \<Rightarrow> progress option" where
  "Done split response c =
     (let c1 = print (result_text (rs_result response)) c;
          c2 = (if rs_result response = PROPOSE_RESULT_SUCCESS \<and> rs_value response \<noteq> []
                then print ('', value:'' @ c_str (text_of (rs_value response))) c1 else c1)
      in if redirects response
         then (let c3 = c2\<lparr>server_of := redirect_server response\<rparr>
               in Propose_words split (println ('', redirect to '' @ c_str (server_of c3)) c3))
         else JourneyClient_Propose split (println [] c2))"

datatype ErrorCode =
    ERROR_CODE_OK | ERROR_CODE_TIMEOUT | ERROR_CODE_INVALID_REQUEST | ERROR_CODE_INVALID_METHOD
  | ERROR_CODE_INVALID_SERVICE | ERROR_CODE_UNKNOWN | OTHER_ERROR_CODE int

fun error_text :: "ErrorCode \<Rightarrow> string" where
  "error_text ERROR_CODE_OK = ''ok''"
| "error_text ERROR_CODE_TIMEOUT = ''timeout''"
| "error_text ERROR_CODE_INVALID_REQUEST = ''invalid request''"
| "error_text ERROR_CODE_INVALID_METHOD = ''invalid method''"
| "error_text ERROR_CODE_INVALID_SERVICE = ''invalid service''"
| "error_text _ = ''unknown error''"

definition HandleError :: "splitter \<Rightarrow> ErrorCode \<Rightarrow> client \<Rightarrow> progress option" where
  "HandleError split code c = JourneyClient_Propose split (println (error_text code) c)"

text \<open>\<^verbatim>\<open>main\<close>, up to the event loop: \<^const>\<open>Inl\<close> is the message on how to call it.\<close>

definition client_main :: "splitter \<Rightarrow> string list \<Rightarrow> string list \<Rightarrow> unit + progress option" where
  "client_main split argv lines =
     (case argv of
        [prog, server] \<Rightarrow> Inr (JourneyClient_Propose split (JourneyClient_new server lines))
      | _ \<Rightarrow> Inl ())"

section \<open>Reading lines\<close>

lemma print_parts [simp]:
  "server_of (print t c) = server_of c" "words (print t c) = words c" "channels (print t c) = channels c"
  "stdin_lines (print t c) = stdin_lines c" "calls (print t c) = calls c" "connects (print t c) = connects c"
  "server_of (println t c) = server_of c" "words (println t c) = words c" "channels (println t c) = channels c"
  "stdin_lines (println t c) = stdin_lines c" "calls (println t c) = calls c" "connects (println t c) = connects c"
  by (simp_all add: print_def println_def)

text \<open>At the end of the input \<^verbatim>\<open>GetLine\<close> calls itself for ever.\<close>

lemma GetLine_ended:
  assumes "GetLine split server c = Some r"
  shows "stdin_lines c = [] \<longrightarrow> server"
proof (rule GetLine.raw_induct [where P = "\<lambda>_ server c _. stdin_lines c = [] \<longrightarrow> server", OF _ assms], rule impI, goal_cases)
  case (1 f split server c r)
  from 1(3) have "getline (print ''> '' c) = ([], print ''> '' c)" by (simp add: getline_def)
  with 1(1) [of split server "println ''invalid command!'' ((print ''> '' c)\<lparr>words := []\<rparr>)" r] 1(2,3)
  show ?case by (cases server) simp_all
qed

lemma GetLine_end_of_input: "stdin_lines c = [] \<Longrightarrow> GetLine split False c = None"
  using GetLine_ended by (metis not_None_eq)

text \<open>What a line that was read changes.\<close>

definition line_read :: "bool \<Rightarrow> client \<Rightarrow> client \<Rightarrow> bool" where
  "line_read server c c' \<longleftrightarrow>
     calls c' = calls c \<and> connects c' = connects c \<and> channels c' = channels c \<and>
     length (stdin_lines c') < length (stdin_lines c) \<and>
     (if server then words c' = words c \<and> server_of c' \<in> set (stdin_lines c) else 2 \<le> length (words c') \<and> server_of c' = server_of c) \<and>
     set (stdin_lines c') \<subseteq> set (stdin_lines c) \<and> ''quit'' \<in> set (stdin_lines c')"

lemma GetLine_returns:
  assumes "split_ok split" and "''quit'' \<in> set (stdin_lines c)"
  shows "(\<exists>c'. GetLine split server c = Some (Exited c') \<and> calls c' = calls c \<and> connects c' = connects c) \<or>
    (\<exists>c'. GetLine split server c = Some (Running c') \<and> line_read server c c')"
  using assms(2)
proof (induction "stdin_lines c" arbitrary: c)
  case (Cons s rest)
  note rest = Cons.hyps(2) [symmetric]
  show ?case
  proof (cases "s = ''quit''")
    case True
    then show ?thesis by (subst (1 2) GetLine.simps) (simp add: getline_def rest)
  next
    case False
    with Cons.prems rest have quit: "''quit'' \<in> set rest" by simp
    show ?thesis
    proof (cases "server \<or> CHR '' '' \<in> set s")
      case True
      have "1 \<le> length (split (drop (length (takeWhile (\<lambda>x. x \<noteq> CHR '' '') s)) s) '':'')"
        if "CHR '' '' \<in> set s"
      proof -
        from that have "CHR '' '' \<in> set (dropWhile (\<lambda>x. x \<noteq> CHR '' '') s)" by (induction s) auto
        from tokens_nonempty [OF this, of "CHR '':''"] show ?thesis
          using assms(1) by (simp add: split_ok_def dropWhile_eq_drop [symmetric] Suc_le_eq)
      qed
      with True False quit show ?thesis
        by (subst (1 2) GetLine.simps) (auto simp: getline_def rest line_read_def Let_def)
    next
      case no: False
      let ?c = "println ''invalid command!'' ((print ''> '' c)\<lparr>stdin_lines := rest, words := []\<rparr>)"
      have "GetLine split server c = GetLine split server ?c"
        using no False by (subst GetLine.simps) (simp add: getline_def rest)
      with Cons.hyps(1) [of ?c] quit no rest show ?thesis by (auto simp: line_read_def)
    qed
  qed
qed simp

section \<open>One request at a time\<close>

text \<open>The client has asked for one thing more: it has called a server over the channel it has to it,
  or has begun to connect to it, with the request its words stand for.\<close>

definition issued :: "splitter \<Rightarrow> client \<Rightarrow> client \<Rightarrow> bool" where
  "issued split c c' \<longleftrightarrow>
     (\<exists>request. CreateNewRequest (words c') = Some (True, request) \<and>
       (case channels c (server_of c') of
          Some channel \<Rightarrow> calls c' = calls c @ [(channel, request)] \<and> connects c' = connects c
        | None \<Rightarrow> (\<exists>ip port n. split (server_of c') '':'' = [ip, port] \<and> stoi port = Some n \<and>
            connects c' = connects c @ [(ip, n, request)] \<and> calls c' = calls c)))"

text \<open>A server was given whose port is not a number.\<close>

definition bad_port :: "splitter \<Rightarrow> client \<Rightarrow> bool" where
  "bad_port split c \<longleftrightarrow>
     (\<exists>s \<in> insert (server_of c) (set (stdin_lines c)). \<exists>ip port. split s '':'' = [ip, port] \<and> stoi port = None)"

definition goes_on :: "splitter \<Rightarrow> client \<Rightarrow> progress option \<Rightarrow> bool" where
  "goes_on split c p \<longleftrightarrow>
     (\<exists>r. p = Some r \<and>
        (case r of
           Running c' \<Rightarrow> issued split c c'
         | Exited c' \<Rightarrow> calls c' = calls c \<and> connects c' = connects c
         | Crashed \<Rightarrow> bad_port split c))"

lemma goes_on_from:
  assumes "goes_on split c' p" and "calls c' = calls c" "connects c' = connects c" "channels c' = channels c"
    and "bad_port split c' \<Longrightarrow> bad_port split c"
  shows "goes_on split c p"
proof -
  have "issued split c' = issued split c" unfolding issued_def [abs_def] assms(2-4) by (rule refl)
  then show ?thesis using assms(1,5) by (auto simp: goes_on_def assms(2,3) split: progress.splits)
qed

lemma bad_port_mono:
  "insert (server_of c') (set (stdin_lines c')) \<subseteq> insert (server_of c) (set (stdin_lines c)) \<Longrightarrow>
    bad_port split c' \<Longrightarrow> bad_port split c"
  unfolding bad_port_def by blast

lemma goes_on_line: "line_read server c c' \<Longrightarrow> goes_on split c' p \<Longrightarrow> goes_on split c p"
  by (erule goes_on_from) (auto simp: line_read_def split: if_splits intro: bad_port_mono [rotated])

lemma goes_on_print: "goes_on split (println t c) p \<Longrightarrow> goes_on split c p"
  by (erule goes_on_from) (simp_all add: bad_port_def)

text \<open>Reading a line and going on from there.\<close>

lemma goes_on_GetLine:
  assumes "split_ok split" and "''quit'' \<in> set (stdin_lines c)"
    and next_step: "\<And>c'. line_read server c c' \<Longrightarrow> goes_on split c' (f c')"
  shows "goes_on split c (and_then (GetLine split server c) f)"
proof -
  consider c' where "GetLine split server c = Some (Exited c')" "calls c' = calls c" "connects c' = connects c"
    | c' where "GetLine split server c = Some (Running c')" "line_read server c c'"
    using GetLine_returns [OF assms(1,2), of server] by blast
  then show ?thesis
  proof cases
    case 2
    then show ?thesis using goes_on_line [OF 2(2) next_step [OF 2(2)]] by (simp add: and_then_def)
  qed (simp add: and_then_def goes_on_def)
qed

lemma Propose_words_eq:
  "Propose_words split c =
     (case CreateNewRequest (words c) of
        None \<Rightarrow> Some Crashed
      | Some (True, request) \<Rightarrow>
         (case channels c (server_of c) of
            Some channel \<Rightarrow> Some (Running (stub_Propose channel request c))
          | None \<Rightarrow>
             (case CreateNewChannel split request c of
                Inl c1 \<Rightarrow> and_then (GetLine split True c1) (Propose_words split)
              | Inr r \<Rightarrow> Some r))
      | Some (False, request) \<Rightarrow>
         and_then (GetLine split False (println ''invalid command!'' c)) (Propose_words split))"
  by (subst Propose_words.simps) (auto simp: and_then_def split: option.split bool.split sum.split)

lemma Propose_words_goes_on:
  assumes "split_ok split" and "''quit'' \<in> set (stdin_lines c)" and "2 \<le> length (words c)"
  shows "goes_on split c (Propose_words split c)"
  using assms(2,3)
proof (induction c rule: measure_induct_rule [of "\<lambda>c. length (stdin_lines c)"])
  case (less c)
  have retry: "goes_on split c (and_then (GetLine split b (println t c)) (Propose_words split))" for b t
  proof (rule goes_on_print, rule goes_on_GetLine [OF assms(1)])
    fix c' assume "line_read b (println t c) c'"
    then show "goes_on split c' (Propose_words split c')"
      using less by (intro less.IH) (auto simp: line_read_def split: if_splits)
  qed (use less.prems in simp_all)
  obtain res request where req: "CreateNewRequest (words c) = Some (res, request)"
    using less.prems(2) by (cases "words c"; cases "tl (words c)") (force simp: CreateNewRequest_def Let_def)+
  show ?case
  proof (cases res)
    case True
    show ?thesis
    proof (cases "channels c (server_of c)")
      case None
      show ?thesis
      proof (cases "\<exists>ip port. split (server_of c) '':'' = [ip, port]")
        case addr: True
        with True req None show ?thesis
          by (subst Propose_words_eq)
            (auto simp: CreateNewChannel_def goes_on_def issued_def bad_port_def split: option.split)
      next
        case False
        then have "\<exists>t. CreateNewChannel split request c = Inl (println t c)"
          by (auto simp: CreateNewChannel_def split: list.splits)
        with True req None retry show ?thesis by (subst Propose_words_eq) auto
      qed
    next
      case (Some channel)
      with True req show ?thesis by (subst Propose_words_eq) (simp add: stub_Propose_def goes_on_def issued_def)
    qed
  next
    case False
    with req retry show ?thesis by (subst Propose_words_eq) simp
  qed
qed

lemma JourneyClient_Propose_goes_on:
  assumes "split_ok split" and "''quit'' \<in> set (stdin_lines c)"
  shows "goes_on split c (JourneyClient_Propose split c)"
  unfolding JourneyClient_Propose_def
  by (rule goes_on_GetLine [OF assms]) (auto simp: line_read_def intro: Propose_words_goes_on [OF assms(1)])

text \<open>The callbacks, as events the libraries deliver.\<close>

datatype client_event =
    Connected RequestMessage | Connect_failed | Answered ResponseMessage | Call_failed ErrorCode | Closed

fun handle :: "splitter \<Rightarrow> client_event \<Rightarrow> client \<Rightarrow> progress option" where
  "handle split (Connected request) c = OnConnection request c"
| "handle split Connect_failed c = OnConnectFailure split c"
| "handle split (Answered response) c = Done split response c"
| "handle split (Call_failed code) c = HandleError split code c"
| "handle split Closed c = OnClose split c"

text \<open>The client as an event leaves it before it goes on: sent to another server, or connected.\<close>

fun after_event :: "client_event \<Rightarrow> client \<Rightarrow> client" where
  "after_event (Answered response) c = (if redirects response then c\<lparr>server_of := redirect_server response\<rparr> else c)"
| "after_event (Connected request) c = c\<lparr>channels := (channels c)(server_of c \<mapsto> allocated c)\<rparr>"
| "after_event _ c = c"

definition waits_for :: "client_event \<Rightarrow> client \<Rightarrow> bool" where
  "waits_for ev c \<longleftrightarrow>
     2 \<le> length (words c) \<and> (\<forall>request. ev = Connected request \<longrightarrow> CreateNewRequest (words c) = Some (True, request))"

text \<open>The callback for a closed connection reads an entry of the map it has just erased.\<close>

lemma OnClose_undefined: "OnClose split c = Some Crashed"
  by (simp add: OnClose_def split: option.split)

text \<open>
  C34. What follows the end of a request or of an attempt to connect. As long as the input still holds
  the line \<^verbatim>\<open>quit\<close>, the callback of a connection, of a failed attempt to connect, of an answer
  and of a failed call returns: the client has then issued exactly one new request, the one its last
  command stands for, to the server it is at, or has quit without one, unless it is stopped by a
  server whose port is no number. The callback of a closed connection always stops it, by the use
  of an entry of the map it has erased.
\<close>

theorem callbacks_issue_one:
  assumes "split_ok split" and "''quit'' \<in> set (stdin_lines c)" and "waits_for ev c"
  shows "if ev = Closed then handle split ev c = Some Crashed
    else goes_on split (after_event ev c) (handle split ev c)"
proof (cases ev)
  case (Connected request)
  then show ?thesis using assms(3)
    by (simp add: OnConnection_def goes_on_def issued_def stub_Propose_def waits_for_def Let_def)
next
  case Connect_failed
  have "goes_on split c (OnConnectFailure split c)"
    unfolding OnConnectFailure_def
    by (rule goes_on_print, rule goes_on_GetLine [OF assms(1)])
      (use assms in \<open>auto simp: line_read_def intro: JourneyClient_Propose_goes_on\<close>)
  with Connect_failed show ?thesis by simp
next
  case (Answered response)
  show ?thesis
  proof (cases "redirects response")
    case True
    have "goes_on split (c\<lparr>server_of := redirect_server response\<rparr>) (Done split response c)"
      unfolding Done_def Let_def if_P [OF True]
      by (rule goes_on_from [OF Propose_words_goes_on [OF assms(1)]])
        (use assms(2,3) in \<open>simp_all add: waits_for_def bad_port_def split: if_split_asm\<close>)
    with Answered True show ?thesis by simp
  next
    case False
    have "goes_on split c (Done split response c)"
      unfolding Done_def Let_def if_not_P [OF False]
      by (rule goes_on_from [OF JourneyClient_Propose_goes_on [OF assms(1)]])
        (use assms(2) in \<open>simp_all add: bad_port_def split: if_split_asm\<close>)
    with Answered False show ?thesis by simp
  qed
next
  case (Call_failed code)
  have "goes_on split c (HandleError split code c)"
    unfolding HandleError_def
    by (rule goes_on_print, rule JourneyClient_Propose_goes_on [OF assms(1)]) (use assms in simp)
  with Call_failed show ?thesis by simp
next
  case Closed
  then show ?thesis by (simp add: OnClose_undefined)
qed

section \<open>Redirection\<close>

lemma rpc_port:
  fixes p :: u16
  shows "unat (ucast p + 1000 :: u32) = unat p + 1000"
proof -
  have "unat p < 2 ^ 16" using unsigned_less [of p] by simp
  then have "unat (ucast p :: u32) = unat p" "unat p + 1000 < 2 ^ 32" by (simp_all add: unsigned_ucast_eq take_bit_nat_eq_self)
  then show ?thesis by (simp add: unat_word_ariths)
qed

text \<open>
  C33. A client that asks a server that is not the master gets to the master: from the answer of the
  service, which names the member \<open>m\<close>, the client sends the same request on, over the channel it
  has, or connecting to the very address on which the server of that member listens.
\<close>

theorem redirect_reaches_master:
  assumes "split_ok split" and "plain_host (host_of (opt_my options))"
    and "CreateNewRequest (words c) = Some (True, request)"
    and "response = responses (answer_not_master junk (Some (opt_my options, version)) r w) r"
  shows "\<exists>c'. Done split response c = Some (Running c') \<and> words c' = words c \<and>
    (case channels c (server_of c') of
       Some channel \<Rightarrow> calls c' = calls c @ [(channel, request)] \<and> connects c' = connects c
     | None \<Rightarrow> calls c' = calls c \<and> connects c' = connects c @ [case server_address options of (ip, n) \<Rightarrow> (ip, n, request)])"
proof -
  let ?m = "opt_my options"
  let ?port = "unat (port_of ?m) + 1000"
  have resp: "rs_result response = PROPOSE_RESULT_NOT_MASTER" "redirects response" "rs_value response = rs_value (responses w r)"
      "redirect_server response = host_of ?m @ '':'' @ to_string ?port"
    by (simp_all add: assms(4) answer_not_master_def redirects_def redirect_server_def rpc_port)
  have "tokens (CHR '':'') (host_of ?m @ '':'' @ to_string ?port) = [host_of ?m, to_string ?port]"
    using assms(2) tokens_piece(2) [of "host_of ?m" "CHR '':''" "to_string ?port"] tokens_piece(1) [of "to_string ?port" "CHR '':''"]
    by (simp add: plain_host_def)
  then have addr: "split (redirect_server response) '':'' = [host_of ?m, to_string ?port]"
    using assms(1) by (simp add: split_ok_def resp(4))
  have "unat (port_of ?m) < 2 ^ 16" using unsigned_less [of "port_of ?m"] by simp
  then have port: "stoi (to_string ?port) = Some (int ?port)" by simp
  show ?thesis
    using assms(3) unfolding Done_def Let_def if_P [OF resp(2)]
    by (subst Propose_words_eq)
      (auto simp: resp(1) CreateNewChannel_def stub_Propose_def addr port server_address_def split: option.split)
qed

end
