(* ===== verification/Pairs.thy ===== *)
theory Pairs
  imports Execution
begin

text \<open>
  A round between the two members of a group, message by message: the prepare of the proposer and
  its answer, the accept and its answer, and the chosen value, which both execute. Each lemma gives
  what the next one needs of the state of the member that handles the message; together they make up
  a run of the group in which the protocol does its work.
\<close>

section \<open>A member of two\<close>

text \<open>The member is at the instance \<open>i\<close> with nothing learned, and its machine is in the state \<open>x\<close>.\<close>

definition member_of_two :: "('w \<Rightarrow> 'v) \<Rightarrow> u32 \<Rightarrow> u64 \<Rightarrow> 'v \<Rightarrow> ('d, 'w, 'z) node_scheme \<Rightarrow> bool" where
  "member_of_two view mid i x s \<longleftrightarrow>
     map fst (ms_members (membership s)) = [1, 2] \<and> view (world s) = x \<and>
     map_of (machines s) mid = Some User_machine \<and>
     \<not> is_receiving_checkpoint (learner s) \<and> \<not> has_learned (learner s) \<and>
     instance_id s = i \<and> acc_instance_id (acceptor s) = i \<and> lrn_instance_id (learner s) = i \<and>
     pro_instance_id (proposer s) = i"

text \<open>The proposer, the node 1, with the ballot \<open>n\<close>, the value \<open>v\<close> and the replies of \<open>Q\<close>.\<close>

definition proposing :: "u64 \<Rightarrow> PaxosValue \<Rightarrow> u64 set \<Rightarrow> Proposer \<Rightarrow> bool" where
  "proposing n v Q p \<longleftrightarrow>
     proposal_id p = n \<and> pro_value p = v \<and> max_ballot p = Ballot_default \<and> \<not> was_rejected_by_someone p \<and>
     promisors_or_acceptors (counter p) = Q \<and> received_nodes (counter p) = Q \<and> rejectors (counter p) = {}"

definition message_of :: "PaxosMessageType \<Rightarrow> u64 \<Rightarrow> u64 \<Rightarrow> u64 \<Rightarrow> PaxosMessage" where
  "message_of ty node i n =
     PaxosMessage_default\<lparr>pm_type := ty, pm_node_id := node, pm_instance_id := i, pm_proposal_id := n\<rparr>"

lemma message_of_fields [simp]:
  "pm_type (message_of ty node i n) = ty" "pm_node_id (message_of ty node i n) = node"
  "pm_instance_id (message_of ty node i n) = i" "pm_proposal_id (message_of ty node i n) = n"
  "pm_rejected_id (message_of ty node i n) = 0" "pm_pre_accepted_id (message_of ty node i n) = 0"
  "pm_pre_accepted_node_id (message_of ty node i n) = 0"
  by (simp_all add: message_of_def PaxosMessage_default_def)

lemma two_majority:
  assumes "map fst (ms_members (membership s)) = [1, 2]"
  shows "GetMajoritySize s = 2" "length (ms_members (membership s)) = 2"
proof -
  have "length (map fst (ms_members (membership s))) = 2" by (simp add: assms)
  then show "length (ms_members (membership s)) = 2" by simp
  then show "GetMajoritySize s = 2" by (simp add: GetMajoritySize_def)
qed

lemma two_ids: "map fst xs = [1, 2] \<Longrightarrow> fst ` set xs = {1, 2}"
  by (metis list.set(1,2) list.set_map)

lemma SetMax_same: "pm_rejected_id m = 0 \<Longrightarrow> 0 < proposal_id p \<Longrightarrow> Proposer_SetMaxProposalId m p = p"
  by (auto simp: Proposer_SetMaxProposalId_def Let_def)

text \<open>With one reply the round is open, with two it has passed.\<close>

lemma open_round:
  assumes "member_of_two view mid i x s" and "proposing n v {1} p"
  shows "\<not> IsPassedOnThisRound s (counter p) \<and> \<not> IsRejectedOnThisRound s (counter p) \<and>
    \<not> IsReceiveAllOnThisRound s (counter p)"
  using assms two_majority [of s]
  by (simp add: member_of_two_def proposing_def IsPassedOnThisRound_def IsRejectedOnThisRound_def
      IsReceiveAllOnThisRound_def GetNodeSize_def)

lemma passed_round:
  assumes "member_of_two view mid i x s" and "proposing n v {1, 2} p"
  shows "IsPassedOnThisRound s (counter p)"
  using assms two_majority [of s] by (simp add: member_of_two_def proposing_def IsPassedOnThisRound_def)

context replicated_machine
begin

text \<open>A reply of the first of the two members, which opens the round: it is counted.\<close>

lemma first_prepare_reply:
  fixes s :: "('d, 'w, 'z) node_scheme"
  assumes "member_of_two view mid i x s" and "proposing n v {} (proposer s)" and "preparing (proposer s)" and "0 < n"
  shows "\<exists>p. OnPaxosMessage E (message_of PREPARE_REPLY 1 i n) s = s\<lparr>proposer := p\<rparr> \<and>
    proposing n v {1} p \<and> preparing p \<and> pro_instance_id p = i"
proof -
  let ?m = "message_of PREPARE_REPLY 1 i n" and ?p = "count_prepare_reply (message_of PREPARE_REPLY 1 i n) (proposer s)"
  have p: "proposing n v {1} ?p" "preparing ?p" "pro_instance_id ?p = i"
    using assms by (simp_all add: member_of_two_def proposing_def count_prepare_reply_def AddReceivedNode_def
        AddPromisorOrAcceptor_def Let_def ballot_gt_def Ballot_default_def)
  from open_round [OF assms(1) p(1)] have "OnPaxosMessage E ?m s = s\<lparr>proposer := ?p\<rparr>"
    using assms p(1) SetMax_same [of ?m ?p]
    by (subst OnPaxosMessage.simps) (simp add: OnPrepareReply_def member_of_two_def Let_def proposing_def CheckLearn_def)
  with p show ?thesis by blast
qed

lemma first_accept_reply:
  fixes s :: "('d, 'w, 'z) node_scheme"
  assumes "member_of_two view mid i x s" and "proposing n v {} (proposer s)" and "accepting (proposer s)" and "0 < n"
  shows "\<exists>p. OnPaxosMessage E (message_of ACCEPT_REPLY 1 i n) s = s\<lparr>proposer := p\<rparr> \<and>
    proposing n v {1} p \<and> accepting p \<and> pro_instance_id p = i"
proof -
  let ?m = "message_of ACCEPT_REPLY 1 i n" and ?p = "count_accept_reply (message_of ACCEPT_REPLY 1 i n) (proposer s)"
  have p: "proposing n v {1} ?p" "accepting ?p" "pro_instance_id ?p = i"
    using assms by (simp_all add: member_of_two_def proposing_def count_accept_reply_def AddReceivedNode_def
        AddPromisorOrAcceptor_def Let_def)
  from open_round [OF assms(1) p(1)] have "OnPaxosMessage E ?m s = s\<lparr>proposer := ?p\<rparr>"
    using assms p(1) SetMax_same [of ?m ?p]
    by (subst OnPaxosMessage.simps) (simp add: OnAccpetReply_def member_of_two_def Let_def proposing_def CheckLearn_def)
  with p show ?thesis by blast
qed

text \<open>The proposer prepares: it promises to itself and multicasts the prepare.\<close>

lemma prepares:
  fixes s :: "('d, 'w, 'z) node_scheme"
  assumes two: "member_of_two view mid i x s" and E: "good E" "cfg_node_id E = 1"
    and p: "proposal_id (proposer s) = n" "0 < n" "promised_ballot (acceptor s) \<le> BallotNumber n 1"
      "GetProposalId (accepted_ballot (acceptor s)) = 0"
  defines "t \<equiv> Prepare E (OnPaxosMessage E) False s"
  shows "member_of_two view mid i x t \<and> proposing n (pro_value (proposer s)) {1} (proposer t) \<and> preparing (proposer t) \<and>
    promised_ballot (acceptor t) = BallotNumber n 1 \<and> membership t = membership s \<and>
    net t = net s @ [Multicast (membership s) (Content_paxos (cfg_group_id E) (message_of PREPARE 1 i n))]"
proof -
  let ?q = "start_prepare False (proposer s)"
  let ?m = "message_of PREPARE 1 i n"
  define s1 where "s1 = BroadcastMessage (Content_paxos (cfg_group_id E) ?m)
    (AddRetryTimer E 200000 (s\<lparr>proposer := ?q\<lparr>counter := StartNewRound (counter ?q)\<rparr>\<rparr>))"
  define s2 where "s2 = snd (Acceptor_WriteToDB E (s1\<lparr>acceptor := (acceptor s)\<lparr>promised_ballot := BallotNumber n 1\<rparr>\<rparr>))"
  have len: "length (ms_members (membership s)) = 2" using two two_majority(2) [of s] by (simp add: member_of_two_def)
  have s2: "member_of_two view mid i x s2" "proposing n (pro_value (proposer s)) {} (proposer s2)"
      "preparing (proposer s2)" "promised_ballot (acceptor s2) = BallotNumber n 1" "membership s2 = membership s"
      "net s2 = net s @ [Multicast (membership s) (Content_paxos (cfg_group_id E) ?m)]"
    using two p len
    by (simp_all add: s2_def s1_def member_of_two_def proposing_def start_prepare_def Let_def AddRetryTimer_def
        case_prod_beta StartNewRound_def Acceptor_WriteToDB_def BroadcastMessage_def RunAfter_view [OF E(1)])
  obtain q where q: "OnPaxosMessage E (message_of PREPARE_REPLY 1 i n) s2 = s2\<lparr>proposer := q\<rparr>"
      "proposing n (pro_value (proposer s)) {1} q" "preparing q" "pro_instance_id q = i"
    using first_prepare_reply [OF s2(1-3) p(2)] by blast
  have "t = OnPaxosMessage E ?m s1"
    using two p E by (simp add: t_def Prepare_def s1_def Let_def member_of_two_def start_prepare_def message_of_def)
  also have "\<dots> = CheckLearn E (OnPaxosMessage E (message_of PREPARE_REPLY 1 i n) s2)"
    using two p(3,4) E
    by (subst OnPaxosMessage.simps)
      (simp add: s2_def s1_def member_of_two_def Acceptor_OnPrepare_def reply_to_def Let_def AddRetryTimer_def
        case_prod_beta message_of_def [of PREPARE_REPLY])
  also have "\<dots> = s2\<lparr>proposer := q\<rparr>"
    using s2(1) by (simp add: q(1) CheckLearn_def member_of_two_def)
  finally show ?thesis using s2 q by (simp add: member_of_two_def)
qed

text \<open>It asks for the acceptance of its value: it accepts it itself and multicasts the accept.\<close>

lemma asks_to_accept:
  fixes s :: "('d, 'w, 'z) node_scheme"
  assumes two: "member_of_two view mid i x s" and E: "good E" "cfg_node_id E = 1"
    and p: "proposing n v Q (proposer s)" "0 < n" "promised_ballot (acceptor s) = BallotNumber n 1"
  defines "t \<equiv> Accept E (OnPaxosMessage E) s"
  shows "member_of_two view mid i x t \<and> proposing n v {1} (proposer t) \<and> accepting (proposer t) \<and>
    accepted_ballot (acceptor t) = BallotNumber n 1 \<and> accepted_value (acceptor t) = v \<and> membership t = membership s \<and>
    net t = net s @ [Multicast (membership s) (Content_paxos (cfg_group_id E) ((message_of ACCEPT 1 i n)\<lparr>pm_value := v\<rparr>))]"
proof -
  let ?q = "(proposer s)\<lparr>preparing := False, accepting := True\<rparr>" and ?b = "BallotNumber n 1"
  let ?m = "(message_of ACCEPT 1 i n)\<lparr>pm_value := v\<rparr>"
  define s1 where "s1 = BroadcastMessage (Content_paxos (cfg_group_id E) ?m)
    (AddRetryTimer E 200000 (s\<lparr>proposer := ?q\<lparr>counter := StartNewRound (counter ?q)\<rparr>\<rparr>))"
  define s2 where "s2 = snd (Acceptor_WriteToDB E (s1\<lparr>acceptor := (acceptor s)\<lparr>promised_ballot := ?b,
    accepted_ballot := ?b, accepted_value := v\<rparr>\<rparr>))"
  have len: "length (ms_members (membership s)) = 2" using two two_majority(2) [of s] by (simp add: member_of_two_def)
  have s2: "member_of_two view mid i x s2" "proposing n v {} (proposer s2)" "accepting (proposer s2)"
      "accepted_ballot (acceptor s2) = ?b" "accepted_value (acceptor s2) = v" "membership s2 = membership s"
      "net s2 = net s @ [Multicast (membership s) (Content_paxos (cfg_group_id E) ?m)]"
    using two p len
    by (simp_all add: s2_def s1_def member_of_two_def proposing_def Let_def AddRetryTimer_def
        case_prod_beta StartNewRound_def Acceptor_WriteToDB_def BroadcastMessage_def RunAfter_view [OF E(1)])
  obtain q where q: "OnPaxosMessage E (message_of ACCEPT_REPLY 1 i n) s2 = s2\<lparr>proposer := q\<rparr>"
      "proposing n v {1} q" "accepting q" "pro_instance_id q = i"
    using first_accept_reply [OF s2(1-3) p(2)] by blast
  have "t = OnPaxosMessage E ?m s1"
    using two p E by (simp add: t_def Accept_def s1_def Let_def member_of_two_def proposing_def message_of_def)
  also have "\<dots> = CheckLearn E (OnPaxosMessage E (message_of ACCEPT_REPLY 1 i n) s2)"
    using two p(3) E
    by (subst OnPaxosMessage.simps)
      (simp add: s2_def s1_def member_of_two_def Acceptor_OnAccpet_def reply_to_def Let_def AddRetryTimer_def
        case_prod_beta message_of_def [of ACCEPT_REPLY])
  also have "\<dots> = s2\<lparr>proposer := q\<rparr>"
    using s2(1) by (simp add: q(1) CheckLearn_def member_of_two_def)
  finally show ?thesis using s2 q by (simp add: member_of_two_def)
qed

text \<open>The answers of the other member: the promise, and the acceptance.\<close>

lemma promises:
  fixes s :: "('d, 'w, 'z) node_scheme"
  assumes two: "member_of_two view mid i x s" and E: "cfg_node_id E = 2"
    and p: "promised_ballot (acceptor s) \<le> BallotNumber n 1" "GetProposalId (accepted_ballot (acceptor s)) = 0"
  defines "t \<equiv> OnPaxosMessage E (message_of PREPARE 1 i n) s"
  shows "member_of_two view mid i x t \<and> promised_ballot (acceptor t) = BallotNumber n 1 \<and>
    net t = net s @ [Unicast 1 (Content_paxos (cfg_group_id E) (message_of PREPARE_REPLY 2 i n))] \<and>
    membership t = membership s"
proof -
  let ?s = "snd (Acceptor_WriteToDB E (s\<lparr>acceptor := (acceptor s)\<lparr>promised_ballot := BallotNumber n 1\<rparr>\<rparr>))"
  have "t = CheckLearn E (Messager_SendMessage E 1 (Content_paxos (cfg_group_id E) (message_of PREPARE_REPLY 2 i n)) ?s)"
    unfolding t_def using two p E
    by (subst OnPaxosMessage.simps)
      (simp add: member_of_two_def Acceptor_OnPrepare_def reply_to_def Let_def message_of_def [of PREPARE_REPLY])
  also have "\<dots> = Messager_SendMessage E 1 (Content_paxos (cfg_group_id E) (message_of PREPARE_REPLY 2 i n)) ?s"
    using two by (simp add: CheckLearn_def member_of_two_def Acceptor_WriteToDB_def Let_def case_prod_beta)
  finally show ?thesis
    using two E by (simp add: member_of_two_def Messager_SendMessage_def Acceptor_WriteToDB_def Let_def case_prod_beta)
qed

lemma accepts:
  fixes s :: "('d, 'w, 'z) node_scheme" and v :: PaxosValue
  assumes two: "member_of_two view mid i x s" and E: "cfg_node_id E = 2"
    and p: "promised_ballot (acceptor s) = BallotNumber n 1"
  defines "t \<equiv> OnPaxosMessage E ((message_of ACCEPT 1 i n)\<lparr>pm_value := v\<rparr>) s"
  shows "member_of_two view mid i x t \<and> accepted_ballot (acceptor t) = BallotNumber n 1 \<and>
    accepted_value (acceptor t) = v \<and> membership t = membership s \<and>
    net t = net s @ [Unicast 1 (Content_paxos (cfg_group_id E) (message_of ACCEPT_REPLY 2 i n))]"
proof -
  let ?b = "BallotNumber n 1"
  let ?s = "snd (Acceptor_WriteToDB E (s\<lparr>acceptor := (acceptor s)\<lparr>promised_ballot := ?b, accepted_ballot := ?b,
    accepted_value := v\<rparr>\<rparr>))"
  have "t = CheckLearn E (Messager_SendMessage E 1 (Content_paxos (cfg_group_id E) (message_of ACCEPT_REPLY 2 i n)) ?s)"
    unfolding t_def using two p E
    by (subst OnPaxosMessage.simps)
      (simp add: member_of_two_def Acceptor_OnAccpet_def reply_to_def Let_def message_of_def [of ACCEPT_REPLY])
  also have "\<dots> = Messager_SendMessage E 1 (Content_paxos (cfg_group_id E) (message_of ACCEPT_REPLY 2 i n)) ?s"
    using two by (simp add: CheckLearn_def member_of_two_def Acceptor_WriteToDB_def Let_def case_prod_beta)
  finally show ?thesis
    using two E by (simp add: member_of_two_def Messager_SendMessage_def Acceptor_WriteToDB_def Let_def case_prod_beta)
qed

text \<open>A member that has accepted the chosen ballot learns the value and executes it.\<close>

lemma executes_chosen:
  fixes s :: "('d, 'w, 'z) node_scheme"
  assumes two: "member_of_two view mid i x s" and E: "good E" "\<And>g j d c w. fst (sm_execute E mid g j d c w)"
    and a: "accepted_ballot (acceptor s) = BallotNumber n 1" "accepted_value (acceptor s) = v" "pv_machine_id v = mid"
  defines "t \<equiv> OnPaxosMessage E (message_of NEW_CHOSEN_VALUE 1 i n) s"
  shows "instance_id t = i + 1 \<and> view (world t) = effect (pv_user_data v) x \<and> \<not> has_learned (learner t) \<and>
    set (net s) \<subseteq> set (net t)"
proof -
  let ?s = "Learner_BroadcastMessageToFollower E (BallotNumber n 1) (s\<lparr>learner := FinishLearnValue v (learner s)\<rparr>)"
  have t: "t = CheckLearn E ?s"
    unfolding t_def using two a
    by (subst OnPaxosMessage.simps) (simp add: member_of_two_def OnNewChosenValue_def Let_def ballot_eq_def)
  have s: "learner ?s = FinishLearnValue v (learner s)" "machines ?s = machines s" "view (world ?s) = x"
      "instance_id ?s = i" "set (net s) \<subseteq> set (net ?s)"
    using two by (simp_all add: member_of_two_def Learner_BroadcastMessageToFollower_def) (auto simp:
        Messager_BroadcastMessageToFollower_def send_to_cluster_def Let_def)
  have adv: "advances E ?s"
    using two a(3) E(2) s
    by (simp add: advances_def member_of_two_def FinishLearnValue_def MachineExecute_def MachineManager_Execute_def
        machine_Execute_def in_world_def case_prod_beta)
  have "view (world t) = effect (pv_user_data v) x"
    using CheckLearn_view [OF E(1), of ?s] adv s two a(3)
    by (simp add: t member_of_two_def run_value_def FinishLearnValue_def)
  moreover have "set (net s) \<subseteq> set (net t)"
    using s(5) by (auto simp: t CheckLearn_def Let_def case_prod_beta Instance_NextInstance_def Learner_NextInstance_def
        SetMaxChosenInstanceId_def propose_cb_def abort_def split: option.split)
  ultimately show ?thesis
    using adv s(4) CheckLearn_learned [OF adv] by (simp add: t CheckLearn_ids)
qed

text \<open>The second reply passes the round.\<close>

lemma second_prepare_reply:
  fixes s :: "('d, 'w, 'z) node_scheme"
  assumes two: "member_of_two view mid i x s" and E: "good E" "cfg_node_id E = 1"
    and p: "proposing n v {1} (proposer s)" "preparing (proposer s)" "0 < n" "promised_ballot (acceptor s) = BallotNumber n 1"
  defines "t \<equiv> OnPaxosMessage E (message_of PREPARE_REPLY 2 i n) s"
  shows "member_of_two view mid i x t \<and> proposing n v {1} (proposer t) \<and> accepting (proposer t) \<and>
    accepted_ballot (acceptor t) = BallotNumber n 1 \<and> accepted_value (acceptor t) = v \<and> membership t = membership s \<and>
    net t = net s @ [Multicast (membership s) (Content_paxos (cfg_group_id E) ((message_of ACCEPT 1 i n)\<lparr>pm_value := v\<rparr>))]"
proof -
  let ?m = "message_of PREPARE_REPLY 2 i n"
  let ?p = "count_prepare_reply ?m (proposer s)"
  define s1 where "s1 = RemoveRetryTimer (s\<lparr>proposer := ?p\<lparr>preparing := False, skip_prepare := True\<rparr>\<rparr>)"
  have q: "proposing n v {1, 2} ?p"
    using p(1) by (auto simp: proposing_def count_prepare_reply_def AddReceivedNode_def
        AddPromisorOrAcceptor_def Let_def ballot_gt_def Ballot_default_def)
  note pass = passed_round [OF two q]
  have s1: "member_of_two view mid i x s1" "proposing n v {1, 2} (proposer s1)" "acceptor s1 = acceptor s"
      "membership s1 = membership s" "net s1 = net s"
    using two q by (simp_all add: s1_def member_of_two_def proposing_def RemoveRetryTimer_def count_prepare_reply_def Let_def)
  note a = asks_to_accept [OF s1(1) E s1(2) p(3), unfolded s1(3-5), OF p(4)]
  let ?t = "Accept E (OnPaxosMessage E) s1"
  have "t = CheckLearn E (?t\<lparr>proposer := Proposer_SetMaxProposalId ?m (proposer ?t)\<rparr>)"
    unfolding t_def using two p pass
    by (subst OnPaxosMessage.simps) (simp add: member_of_two_def OnPrepareReply_def Let_def s1_def)
  also have "\<dots> = ?t"
    using a p(3) SetMax_same [of ?m "proposer ?t"] by (simp add: proposing_def member_of_two_def CheckLearn_def)
  finally show ?thesis using a by simp
qed

lemma second_accept_reply:
  fixes s :: "('d, 'w, 'z) node_scheme"
  assumes two: "member_of_two view mid i x s" and E: "good E" "cfg_node_id E = 1" "\<And>g j d c w. fst (sm_execute E mid g j d c w)"
    and p: "proposing n v {1} (proposer s)" "accepting (proposer s)" "0 < n"
    and a: "accepted_ballot (acceptor s) = BallotNumber n 1" "accepted_value (acceptor s) = v" "pv_machine_id v = mid"
  defines "t \<equiv> OnPaxosMessage E (message_of ACCEPT_REPLY 2 i n) s"
  shows "instance_id t = i + 1 \<and> view (world t) = effect (pv_user_data v) x \<and>
    Multicast (membership s) (Content_paxos (cfg_group_id E) (message_of NEW_CHOSEN_VALUE 1 i n)) \<in> set (net t)"
proof -
  let ?m = "message_of ACCEPT_REPLY 2 i n" and ?c = "message_of NEW_CHOSEN_VALUE 1 i n"
  let ?p = "count_accept_reply ?m (proposer s)"
  have q: "proposing n v {1, 2} ?p"
    using p(1) by (auto simp: proposing_def count_accept_reply_def AddReceivedNode_def AddPromisorOrAcceptor_def Let_def)
  note pass = passed_round [OF two q]
  define s1 where "s1 = BroadcastMessage (Content_paxos (cfg_group_id E) ?c)
    (RemoveRetryTimer (s\<lparr>proposer := ?p\<lparr>accepting := False\<rparr>\<rparr>))"
  have len: "length (ms_members (membership s)) = 2" using two two_majority(2) [of s] by (simp add: member_of_two_def)
  have s1: "member_of_two view mid i x s1" "acceptor s1 = acceptor s"
      "Multicast (membership s) (Content_paxos (cfg_group_id E) ?c) \<in> set (net s1)"
    using two len by (simp_all add: s1_def member_of_two_def RemoveRetryTimer_def count_accept_reply_def Let_def
        BroadcastMessage_def io_Remove_def)
  note c = executes_chosen [OF s1(1) E(1,3), unfolded s1(2), OF a]
  let ?t = "OnPaxosMessage E ?c s1"
  have "t = CheckLearn E (?t\<lparr>proposer := Proposer_SetMaxProposalId ?m (proposer ?t)\<rparr>)"
    unfolding t_def using two p(1,2) pass q E(2)
    by (subst OnPaxosMessage.simps)
      (simp add: member_of_two_def OnAccpetReply_def Let_def s1_def Proposer_NewChosenValue_def RemoveRetryTimer_def
        proposing_def message_of_def [of NEW_CHOSEN_VALUE] count_accept_reply_def)
  then have "t = ?t\<lparr>proposer := Proposer_SetMaxProposalId ?m (proposer ?t)\<rparr>" using c by (simp add: CheckLearn_def)
  with c s1(3) show ?thesis by auto
qed

text \<open>The proposal that begins the round.\<close>

lemma proposes:
  fixes s :: "('d, 'w, 'z) node_scheme" and d :: bytes and ctx :: ctx_ptr
  assumes two: "member_of_two view mid i x s" and E: "good E" "cfg_node_id E = 1"
    and idle: "\<not> is_proposing s" "context_ptr s = Null" "\<not> skip_prepare (proposer s)" "\<not> was_rejected_by_someone (proposer s)"
    and p: "proposal_id (proposer s) = n" "0 < n" "promised_ballot (acceptor s) \<le> BallotNumber n 1"
      "GetProposalId (accepted_ballot (acceptor s)) = 0"
  defines "t \<equiv> Instance_OnPropose E mid d ctx s"
  shows "\<exists>k. member_of_two view mid i x t \<and>
    proposing n \<lparr>pv_value_id = k, pv_machine_id = mid, pv_user_data = d\<rparr> {1} (proposer t) \<and> preparing (proposer t) \<and>
    promised_ballot (acceptor t) = BallotNumber n 1 \<and> membership t = membership s \<and>
    net t = net s @ [Multicast (membership s) (Content_paxos (cfg_group_id E) (message_of PREPARE 1 i n))]"
proof -
  obtain k s1 where k: "GetPaxosValueId E (s\<lparr>is_proposing := True, context_ptr := ctx\<rparr>) = (k, s1)" by fastforce
  let ?v = "\<lparr>pv_value_id = k, pv_machine_id = mid, pv_user_data = d\<rparr>"
  define s2 where "s2 = (snd (io_RunAfter E (cfg_propose_timeout E) ProposeTimer (s1\<lparr>propose_value := ?v\<rparr>)))
    \<lparr>propose_timer := fst (io_RunAfter E (cfg_propose_timeout E) ProposeTimer (s1\<lparr>propose_value := ?v\<rparr>))\<rparr>"
  define s3 where "s3 = s2\<lparr>proposer := (proposer s2)\<lparr>pro_value := ?v\<rparr>\<rparr>"
  have f: "proposer s1 = proposer s" "acceptor s1 = acceptor s" "learner s1 = learner s" "instance_id s1 = instance_id s"
      "membership s1 = membership s" "machines s1 = machines s" "net s1 = net s" "view (world s1) = view (world s)"
    using k by (auto simp: GetPaxosValueId_def Let_def in_world_def case_prod_beta NowMillis_view [OF E(1)] random_view [OF E(1)])
  have s3: "member_of_two view mid i x s3" "proposer s3 = (proposer s)\<lparr>pro_value := ?v\<rparr>" "acceptor s3 = acceptor s"
      "membership s3 = membership s" "net s3 = net s"
    using two f by (simp_all add: member_of_two_def s3_def s2_def RunAfter_view [OF E(1)])
  have "IsValidNodeId (cfg_node_id E) s"
    using two E by (cases "ms_members (membership s)") (auto simp: member_of_two_def IsValidNodeId_def)
  then have "t = Prepare E (OnPaxosMessage E) False s3"
    using idle f by (simp add: t_def Instance_OnPropose_def k NewPropose_def s3_def s2_def case_prod_beta Let_def)
  moreover have "proposal_id (proposer s3) = n" "promised_ballot (acceptor s3) \<le> BallotNumber n 1"
    "GetProposalId (accepted_ballot (acceptor s3)) = 0" using p s3 by simp_all
  ultimately show ?thesis
    using prepares [OF s3(1) E _ p(2)] s3 by auto
qed

text \<open>A message of one member that is delivered to the other.\<close>

lemma delivery:
  assumes "m \<in> {1, 2}" "n \<in> {1, 2}" "m \<noteq> n" and st: "\<sigma> m = u" "\<sigma> n = t" and "k \<in> set (net u)" "addressed k n"
    and k: "call_content k = Content_paxos g msg" and two: "member_of_two view mid i x t" "i \<noteq> - 1" "pm_instance_id msg = i"
    and reply: "pm_type msg = PREPARE_REPLY \<or> pm_type msg = ACCEPT_REPLY \<Longrightarrow> pm_proposal_id msg = proposal_id (proposer t)"
  shows "replica_step view {1, 2} En \<sigma> (\<sigma>(n := OnPaxosMessage (En n) msg t))"
proof -
  have "ready {1, 2} t" using two(1,2) two_ids by (auto simp: ready_def member_of_two_def)
  moreover have "timely msg t" "not_ahead msg t"
    using two(1,3) reply by (auto simp: timely_def not_ahead_def member_of_two_def)
  ultimately have "member_step {1, 2} En \<sigma> n (Instance_OnContent (En n) (call_content k) t)"
    using assms(1-8) member_step.deliver [of m "{1, 2}" n k \<sigma> En] by (simp add: Content_paxos_def)
  then show ?thesis by (auto simp: k Instance_OnContent_def Content_paxos_def dest: replica_step.act)
qed

text \<open>The second half of a round: node 1 has asked to accept \<open>v\<close>, node 2 has promised.\<close>

definition accept_phase :: "u64 \<Rightarrow> 'v \<Rightarrow> u64 \<Rightarrow> PaxosValue \<Rightarrow> u32 \<Rightarrow> ('d, 'w, 'z) node_scheme \<Rightarrow> ('d, 'w, 'z) node_scheme \<Rightarrow> bool" where
  "accept_phase i x b v g s t \<longleftrightarrow>
     member_of_two view mid i x s \<and> proposing b v {1} (proposer s) \<and> accepting (proposer s) \<and>
     accepted_ballot (acceptor s) = BallotNumber b 1 \<and> accepted_value (acceptor s) = v \<and>
     Multicast (membership s) (Content_paxos g ((message_of ACCEPT 1 i b)\<lparr>pm_value := v\<rparr>)) \<in> set (net s) \<and>
     member_of_two view mid i x t \<and> promised_ballot (acceptor t) = BallotNumber b 1"

lemma accept_phase_ends:
  assumes E: "\<And>n. n \<in> {1, 2} \<Longrightarrow> good (En n) \<and> cfg_node_id (En n) = n"
    and exec: "\<And>n g j d c w. n \<in> {1, 2} \<Longrightarrow> fst (sm_execute (En n) mid g j d c w)"
    and i: "i \<noteq> - 1" and b: "0 < b" and v: "pv_machine_id v = mid"
    and ph: "accept_phase i x b v (cfg_group_id (En 1)) (\<sigma> 1) (\<sigma> 2)"
  shows "\<exists>\<sigma>'. (replica_step view {1, 2} En)\<^sup>*\<^sup>* \<sigma> \<sigma>' \<and>
    (\<forall>n \<in> {1, 2}. instance_id (\<sigma>' n) = i + 1 \<and> view (world (\<sigma>' n)) = effect (pv_user_data v) x)"
proof -
  let ?s = "\<sigma> 1" and ?t = "\<sigma> 2" and ?step = "replica_step view {1, 2} En"
  have s: "member_of_two view mid i x ?s" "proposing b v {1} (proposer ?s)" "accepting (proposer ?s)"
      "accepted_ballot (acceptor ?s) = BallotNumber b 1" "accepted_value (acceptor ?s) = v"
      "Multicast (membership ?s) (Content_paxos (cfg_group_id (En 1)) ((message_of ACCEPT 1 i b)\<lparr>pm_value := v\<rparr>)) \<in> set (net ?s)"
    and t: "member_of_two view mid i x ?t" "promised_ballot (acceptor ?t) = BallotNumber b 1"
    using ph by (simp_all add: accept_phase_def)
  have to: "addressed (Multicast (membership ?s) c) 2" for c
    using s(1) two_ids by (auto simp: member_of_two_def)
  define t1 where "t1 = OnPaxosMessage (En 2) ((message_of ACCEPT 1 i b)\<lparr>pm_value := v\<rparr>) ?t"
  have t1: "member_of_two view mid i x t1" "accepted_ballot (acceptor t1) = BallotNumber b 1" "accepted_value (acceptor t1) = v"
      "Unicast 1 (Content_paxos (cfg_group_id (En 2)) (message_of ACCEPT_REPLY 2 i b)) \<in> set (net t1)"
    using accepts [OF t(1) _ t(2), of "En 2" v] E by (simp_all add: t1_def)
  define s1 where "s1 = OnPaxosMessage (En 1) (message_of ACCEPT_REPLY 2 i b) ?s"
  have s1: "instance_id s1 = i + 1" "view (world s1) = effect (pv_user_data v) x"
      "Multicast (membership ?s) (Content_paxos (cfg_group_id (En 1)) (message_of NEW_CHOSEN_VALUE 1 i b)) \<in> set (net s1)"
    using second_accept_reply [OF s(1) _ _ exec s(2,3) b s(4,5) v] E by (simp_all add: s1_def)
  define t2 where "t2 = OnPaxosMessage (En 2) (message_of NEW_CHOSEN_VALUE 1 i b) t1"
  have t2: "instance_id t2 = i + 1" "view (world t2) = effect (pv_user_data v) x"
    using executes_chosen [OF t1(1) _ exec t1(2,3) v] E by (simp_all add: t2_def)
  have "?step \<sigma> (\<sigma>(2 := t1))"
    unfolding t1_def by (rule delivery [of 1 2 \<sigma> ?s, OF _ _ _ _ _ s(6) to _ t(1) i]) simp_all
  moreover have "?step (\<sigma>(2 := t1)) (\<sigma>(2 := t1, 1 := s1))"
    unfolding s1_def by (rule delivery [of 2 1 _ t1, OF _ _ _ _ _ t1(4) _ _ s(1) i]) (use s(2) in \<open>simp_all add: proposing_def\<close>)
  moreover have "?step (\<sigma>(2 := t1, 1 := s1)) (\<sigma>(2 := t1, 1 := s1, 2 := t2))"
    unfolding t2_def by (rule delivery [of 1 2 _ s1, OF _ _ _ _ _ s1(3) to _ t1(1) i]) simp_all
  ultimately have "?step\<^sup>*\<^sup>* \<sigma> (\<sigma>(2 := t1, 1 := s1, 2 := t2))"
    by (meson r_into_rtranclp rtranclp_trans)
  then show ?thesis by (intro exI [of _ "\<sigma>(2 := t1, 1 := s1, 2 := t2)"]) (simp add: s1 t2)
qed

text \<open>A whole round.\<close>

lemma round_of_two:
  fixes \<sigma> :: "u64 \<Rightarrow> ('d, 'w, 'z) node_scheme"
  assumes E: "\<And>n. n \<in> {1, 2} \<Longrightarrow> good (En n) \<and> cfg_node_id (En n) = n"
    and exec: "\<And>n g j d c w. n \<in> {1, 2} \<Longrightarrow> fst (sm_execute (En n) mid g j d c w)"
    and two: "\<And>n. n \<in> {1, 2} \<Longrightarrow> member_of_two view mid i x (\<sigma> n)" and i: "i \<noteq> - 1"
    and idle: "\<not> is_proposing (\<sigma> 1)" "context_ptr (\<sigma> 1) = Null" "\<not> skip_prepare (proposer (\<sigma> 1))"
      "\<not> was_rejected_by_someone (proposer (\<sigma> 1))" "net (\<sigma> 1) = []"
    and p: "proposal_id (proposer (\<sigma> 1)) = b" "0 < b" "b \<noteq> - 1" "max_proposal_id (proposer (\<sigma> 1)) \<noteq> - 1"
    and a: "\<And>n. n \<in> {1, 2} \<Longrightarrow> promised_ballot (acceptor (\<sigma> n)) \<le> BallotNumber b 1 \<and>
      GetProposalId (accepted_ballot (acceptor (\<sigma> n))) = 0"
  shows "\<exists>\<sigma>'. (replica_step view {1, 2} En)\<^sup>*\<^sup>* \<sigma> \<sigma>' \<and>
    (\<forall>n \<in> {1, 2}. instance_id (\<sigma>' n) = i + 1 \<and> view (world (\<sigma>' n)) = effect d x)"
proof -
  let ?step = "replica_step view {1, 2} En"
  have E1: "good (En 1)" "cfg_node_id (En 1) = 1" using E by simp_all
  have two1: "member_of_two view mid i x (\<sigma> 1)" and two2: "member_of_two view mid i x (\<sigma> 2)" using two by simp_all
  have to: "addressed (Multicast (membership (\<sigma> 1)) c) 2" for c
    using two1 two_ids by (auto simp: member_of_two_def)
  define s1 where "s1 = Instance_OnPropose (En 1) mid d Null (\<sigma> 1)"
  obtain k where s1: "member_of_two view mid i x s1"
      "proposing b \<lparr>pv_value_id = k, pv_machine_id = mid, pv_user_data = d\<rparr> {1} (proposer s1)" "preparing (proposer s1)"
      "promised_ballot (acceptor s1) = BallotNumber b 1" "membership s1 = membership (\<sigma> 1)"
      "Multicast (membership (\<sigma> 1)) (Content_paxos (cfg_group_id (En 1)) (message_of PREPARE 1 i b)) \<in> set (net s1)"
    using proposes [OF two1 E1 idle(1-4) p(1,2), of d Null] a unfolding s1_def by auto
  let ?v = "\<lparr>pv_value_id = k, pv_machine_id = mid, pv_user_data = d\<rparr>"
  define t1 where "t1 = OnPaxosMessage (En 2) (message_of PREPARE 1 i b) (\<sigma> 2)"
  have t1: "member_of_two view mid i x t1" "promised_ballot (acceptor t1) = BallotNumber b 1"
      "Unicast 1 (Content_paxos (cfg_group_id (En 2)) (message_of PREPARE_REPLY 2 i b)) \<in> set (net t1)"
    using promises [OF two2, of "En 2" b] a E by (simp_all add: t1_def)
  define s2 where "s2 = OnPaxosMessage (En 1) (message_of PREPARE_REPLY 2 i b) s1"
  have ph: "accept_phase i x b ?v (cfg_group_id (En 1)) s2 t1"
    using second_prepare_reply [OF s1(1) E1 s1(2,3) p(2) s1(4)] t1(1,2)
    by (simp add: s2_def accept_phase_def)
  have "ready {1, 2} (\<sigma> 1)" "may_propose (\<sigma> 1)"
    using two1 i two_ids idle(5) p by (auto simp: ready_def member_of_two_def may_propose_def accept_sent_def Let_def)
  then have "?step \<sigma> (\<sigma>(1 := s1))" unfolding s1_def by (intro replica_step.act member_step.propose) simp_all
  moreover have "?step (\<sigma>(1 := s1)) (\<sigma>(1 := s1, 2 := t1))"
    unfolding t1_def by (rule delivery [of 1 2 _ s1, OF _ _ _ _ _ s1(6) to _ two2 i]) simp_all
  moreover have "?step (\<sigma>(1 := s1, 2 := t1)) (\<sigma>(1 := s1, 2 := t1, 1 := s2))"
    unfolding s2_def by (rule delivery [of 2 1 _ t1, OF _ _ _ _ _ t1(3) _ _ s1(1) i]) (use s1(2) in \<open>simp_all add: proposing_def\<close>)
  ultimately have "?step\<^sup>*\<^sup>* \<sigma> (\<sigma>(1 := s1, 2 := t1, 1 := s2))"
    by (meson r_into_rtranclp rtranclp_trans)
  moreover have "\<exists>\<sigma>'. ?step\<^sup>*\<^sup>* (\<sigma>(1 := s1, 2 := t1, 1 := s2)) \<sigma>' \<and>
      (\<forall>n \<in> {1, 2}. instance_id (\<sigma>' n) = i + 1 \<and> view (world (\<sigma>' n)) = effect (pv_user_data ?v) x)"
    by (rule accept_phase_ends [OF E exec i p(2)]) (use ph in simp_all)
  ultimately show ?thesis by (auto intro: rtranclp_trans)
qed

end


end
