(* ===== verification/JourneyEvidence.thy ===== *)
theory JourneyEvidence
  imports Evidence Client Pairs
begin

text \<open>The theorems on the key-value server, applied to a server that is alone and to a group of two.\<close>

section \<open>A codec for requests\<close>

text \<open>The type, the length of the key, the key, the value.\<close>

fun type_code :: "ProposeType \<Rightarrow> u8" where
  "type_code PROPOSE_TYPE_PUT = 0"
| "type_code PROPOSE_TYPE_GET = 1"
| "type_code PROPOSE_TYPE_DELETE = 2"
| "type_code (OTHER_PROPOSE_TYPE i) = 3"

definition sample_lib :: journey_lib where
  "sample_lib =
     \<lparr>ser_request = (\<lambda>m. type_code (rq_type m) # le_encode32 (word_of_nat (length (rq_key m))) @ rq_key m @ rq_value m),
      parse_request = (\<lambda>b.
        (let n = unat (le_decode32 (drop 1 b)); r = drop 5 b
         in (b \<noteq> [], \<lparr>rq_type = (if hd b = 0 then PROPOSE_TYPE_PUT else if hd b = 1 then PROPOSE_TYPE_GET else PROPOSE_TYPE_DELETE),
           rq_key = take n r, rq_value = drop n r\<rparr>))),
      hash32 = (\<lambda>k. word_of_nat (length k))\<rparr>"

section \<open>A member that has committed a put\<close>

definition server_env :: "u64 \<Rightarrow> (sample_db, (sample_db, sample_world) journey) env" where
  "server_env n = journey_env sample_lib (sample_env\<lparr>cfg_node_id := n\<rparr>)"

definition server_world :: "sample_db \<Rightarrow> (sample_db, sample_world) journey" where
  "server_world d = \<lparr>jdb = d, responses = \<lambda>_. ResponseMessage_default, done_runs = [], base = sample_world0\<rparr>"

definition server_node :: "sample_db \<Rightarrow> (sample_db, (sample_db, sample_world) journey) node" where
  "server_node d = sample_solo_in (server_world d) [(1, Membership_machine), (2, Master_machine), (6, User_machine)]"

lemma sample_leveldb_id: "leveldb_ok (sample_env\<lparr>cfg_node_id := n\<rparr>) map_of"
  using sample_leveldb by (simp add: leveldb_ok_def)

lemma server_storage: "storage_ok (server_env n) map_of" "instance_codec_ok (server_env n)" "cfg_node_id (server_env n) = n"
  using sample_storage sample_codec
  by (simp_all add: server_env_def journey_env_def storage_ok_def leveldb_ok_def coding_ok_def instance_codec_ok_def)

lemma server_cluster: "finite M \<Longrightarrow> cluster_env M server_env map_of"
  by (simp add: cluster_env_def server_storage)

lemma server_member: "journey_member sample_lib map_of (server_env n)"
  using sample_leveldb_id by (auto simp: journey_member_def server_env_def)

lemma server_starts:
  "replica_starts (journey_view map_of K) journey_machine_id 7 (map_of d |` K) (server_env n) map_of (server_node d)"
  by (simp add: replica_starts_def server_node_def sample_solo_in_starts sample_solo_in_parts journey_machine_id_def
      journey_view_def server_world_def)

text \<open>The value puts 9 at the key 1, 2.\<close>

definition put_value :: bytes where
  "put_value = [0, 2, 0, 0, 0, 1, 2, 9]"

definition server_after :: "(sample_db, (sample_db, sample_world) journey) node" where
  "server_after = Instance_OnPropose (server_env 1) 6 put_value Null (server_node [])"

text \<open>The proposal commits: the database holds the key.\<close>

lemma server_executes:
  "executes (server_env 1) \<lparr>pv_value_id = 0, pv_machine_id = journey_machine_id, pv_user_data = put_value\<rparr> (server_node [])"
  using Execute_refines(1) [OF sample_leveldb_id]
  by (simp add: executes_def server_node_def sample_solo_in_parts journey_machine_id_def server_env_def for_machine_def
      ProposeQueue_new_def)

theorem OnPropose_commits_witness:
  "instance_id server_after = 7 + 1 \<and> map_of (jdb (world server_after)) [1, 2] = Some [9] \<and>
   alone (server_env 1) server_after \<and> \<not> aborted server_after \<and>
   funcs (callback_loop server_after) = [Func (UserCallback 7, 7, Status_OK, Null)]"
proof -
  have "alone (server_env 1) (server_node [])"
    unfolding server_node_def by (rule sample_solo_in_alone) (simp add: server_storage)
  moreover have "\<not> aborted (server_node [])" by (simp add: server_node_def sample_solo_in_parts)
  ultimately have c: "instance_id server_after = instance_id (server_node []) + 1" "alone (server_env 1) server_after"
      "\<not> aborted server_after"
      "journey_view map_of UNIV (world server_after) =
        apply_within sample_lib UNIV put_value (journey_view map_of UNIV (world (server_node [])))"
      "funcs (callback_loop server_after) = funcs (callback_loop (server_node [])) @
        [Func (hd (cb_queue (queue (server_node []))), instance_id (server_node []), Status_OK, Null)]"
    using OnPropose_commits [OF journey.replicated_machine_axioms server_member _ server_executes, of Null UNIV]
    by (simp_all add: server_after_def journey_machine_id_def)
  have "map_of (jdb (world server_after)) [1, 2] = apply_within sample_lib UNIV put_value Map.empty [1, 2]"
    using fun_cong [OF c(4), of "[1, 2]"]
    by (simp add: journey_view_def server_node_def sample_solo_in_parts server_world_def)
  then show ?thesis
    using c(1,2,3,5)
    by (simp add: server_node_def sample_solo_in_parts apply_within_def apply_request_def sample_lib_def put_value_def
        le_decode32_def)
qed

lemma server_run:
  "(replica_step (journey_view map_of K) {1} server_env)\<^sup>*\<^sup>* (\<lambda>_. server_node []) ((\<lambda>_. server_node [])(1 := server_after))"
proof -
  have "replica_step (journey_view map_of K) {1} server_env (\<lambda>_. server_node []) ((\<lambda>_. server_node [])(1 := server_after))"
    unfolding server_after_def
    by (rule replica_step.act [OF member_step.propose]) (simp_all add: server_node_def sample_solo_in_ready)
  then show ?thesis by blast
qed

theorem journey_replays_log_witness:
  "let K = keys_of_group sample_lib 1 0
   in journey_view map_of K (world server_after) =
      fold (run_value journey_machine_id (apply_within sample_lib K))
        (log_values (server_env 1) (map_of (db server_after)) 7 (instance_id server_after)) (map_of [] |` K)"
  using journey_replays_log [OF server_cluster server_member server_starts server_run, of 1] by (simp add: Let_def)

text \<open>Two members, each with an empty database.\<close>

definition pair_node :: "(sample_db, (sample_db, sample_world) journey) node" where
  "pair_node = (server_node [])\<lparr>membership := \<lparr>ms_version = 0, ms_members = map sample_member [1, 2]\<rparr>\<rparr>"

lemma pair_node_parts:
  "is_proposing pair_node = False" "context_ptr pair_node = Null" "net pair_node = []" "instance_id pair_node = 7"
  "proposer pair_node = (Proposer_new 1)\<lparr>pro_instance_id := 7, proposal_id := 1\<rparr>"
  "acceptor pair_node = Acceptor_new\<lparr>acc_instance_id := 7\<rparr>"
  by (simp_all add: pair_node_def server_node_def sample_solo_in_parts)

lemma pair_node_two: "member_of_two (journey_view map_of K) journey_machine_id 7 Map.empty pair_node"
  by (simp add: member_of_two_def pair_node_def server_node_def sample_solo_in_parts sample_member_def journey_machine_id_def
      journey_view_def server_world_def Acceptor_new_def Learner_new_def Proposer_new_def)

lemma pair_node_starts:
  "replica_starts (journey_view map_of K) journey_machine_id 7 Map.empty (server_env n) map_of pair_node"
  using server_starts [of K "[]" n]
  by (simp add: replica_starts_def starts_def node_ok_def pair_node_def)

lemma server_runs: "fst (sm_execute (server_env n) journey_machine_id g j d c w)"
  using Execute_refines(1) [OF sample_leveldb_id] by (simp add: server_env_def for_machine_def)

lemma pair_idle:
  "\<not> skip_prepare (proposer pair_node)" "\<not> was_rejected_by_someone (proposer pair_node)"
  "proposal_id (proposer pair_node) = 1" "max_proposal_id (proposer pair_node) \<noteq> - 1"
  "promised_ballot (acceptor pair_node) \<le> BallotNumber 1 1" "GetProposalId (accepted_ballot (acceptor pair_node)) = 0"
  by (simp_all add: pair_node_parts Proposer_new_def Acceptor_new_def) (simp add: Ballot_default_def)

text \<open>They agree on the put after the messages of a round have been delivered.\<close>

theorem journey_replicas_agree_witness:
  "\<exists>\<sigma>. (replica_step (journey_view map_of (keys_of_group sample_lib 1 0)) {1, 2} server_env)\<^sup>*\<^sup>* (\<lambda>_. pair_node) \<sigma> \<and>
     instance_id (\<sigma> 1) = 7 + 1 \<and> map_of (jdb (world (\<sigma> 1))) [1, 2] = Some [9] \<and>
     map_of (jdb (world (\<sigma> 2))) [1, 2] = map_of (jdb (world (\<sigma> 1))) [1, 2]"
proof -
  let ?K = "keys_of_group sample_lib 1 0"
  have k: "[1, 2] \<in> ?K" by (simp add: keys_of_group_def Shard_def sample_lib_def)
  obtain \<sigma> where run: "(replica_step (journey_view map_of ?K) {1, 2} server_env)\<^sup>*\<^sup>* (\<lambda>_. pair_node) \<sigma>"
    and n: "\<And>n. n \<in> {1, 2} \<Longrightarrow> instance_id (\<sigma> n) = 7 + 1 \<and>
      journey_view map_of ?K (world (\<sigma> n)) = apply_within sample_lib ?K put_value Map.empty"
  proof -
    have "\<exists>\<sigma>. (replica_step (journey_view map_of ?K) {1, 2} server_env)\<^sup>*\<^sup>* (\<lambda>_. pair_node) \<sigma> \<and>
        (\<forall>n \<in> {1, 2}. instance_id (\<sigma> n) = 7 + 1 \<and>
          journey_view map_of ?K (world (\<sigma> n)) = apply_within sample_lib ?K put_value Map.empty)"
      by (rule replicated_machine.round_of_two [OF journey.replicated_machine_axioms])
        (use server_member server_storage(3) server_runs pair_node_two pair_node_parts pair_idle in auto)
    then show ?thesis using that by blast
  qed
  have "map_of (jdb (world (\<sigma> 1))) [1, 2] = Some [9]"
    using fun_cong [OF conjunct2 [OF n [of 1]], of "[1, 2]"] k
    by (simp add: journey_view_def apply_within_def apply_request_def sample_lib_def put_value_def le_decode32_def)
  moreover have "map_of (jdb (world (\<sigma> 2))) [1, 2] = map_of (jdb (world (\<sigma> 1))) [1, 2]"
    using journey_replicas_agree [OF server_cluster server_member pair_node_starts run, of 1 2] n k by simp
  ultimately show ?thesis using run n by blast
qed


theorem replay_after_restart_witness:
  "let delete_value = [2, 2, 0, 0, 0, 1, 2]; w = server_world []
   in map_of (jdb (execute_values sample_lib sample_env [put_value, delete_value] (execute_values sample_lib sample_env [put_value] w))) =
      map_of (jdb (execute_values sample_lib sample_env [put_value, delete_value] w))"
  using replay_after_restart [OF sample_leveldb, of sample_lib "[put_value]" "[[2, 2, 0, 0, 0, 1, 2]]" "server_world []"]
  by (simp add: Let_def)

section \<open>A request\<close>

text \<open>A get that reaches a node which is not the master.\<close>

definition sample_service :: "(sample_db, sample_world) JourneyServiceImpl" where
  "sample_service = \<lparr>svc_group_size = 1, svc_node = (NodeImpl_new sample_node_options (server_world []))
     \<lparr>groups := [Group_new (server_env 1) sample_options 1 2 (\<lambda>_. 0) 0 CheckpointReceiver_Reset [] (server_world [])],
      group_configs := [config.truncate (server_env 1)]\<rparr>\<rparr>"

definition sample_get :: RequestMessage where
  "sample_get = \<lparr>rq_type = PROPOSE_TYPE_GET, rq_key = [1, 2], rq_value = []\<rparr>"

lemma sample_get_answered:
  "\<exists>svc'. JourneyServiceImpl_Propose sample_lib sample_env (0, 0) sample_get 3 True sample_service = Some svc'"
  by (simp add: JourneyServiceImpl_Propose_def sample_service_def Shard_def Let_def NodeImpl_IsMaster_def NodeImpl_GetMaster_def
      in_group_def on_world_def NodeImpl_new_def sample_get_def split: option.split bool.split)

theorem Propose_answers_once_witness:
  "let svc' = the (JourneyServiceImpl_Propose sample_lib sample_env (0, 0) sample_get 3 True sample_service);
       w' = node_world (svc_node svc')
   in (done_runs w' = [3] \<or> done_runs w' = []) \<and> jdb w' = []"
proof -
  let ?svc = "the (JourneyServiceImpl_Propose sample_lib sample_env (0, 0) sample_get 3 True sample_service)"
  have run: "JourneyServiceImpl_Propose sample_lib sample_env (0, 0) sample_get 3 True sample_service = Some ?svc"
    using sample_get_answered by auto
  have shard: "Shard sample_lib (svc_group_size sample_service) (rq_key sample_get) = Some 0"
    by (simp add: Shard_def sample_service_def)
  have "node_world (svc_node sample_service) = server_world []" by (simp add: sample_service_def NodeImpl_new_def)
  with Propose_answers_once [OF run shard] show ?thesis by (auto simp: Let_def server_world_def)
qed

section \<open>Programs\<close>

definition sample_split :: splitter where
  "sample_split s d = tokens (hd d) s"

lemma sample_split_ok: "split_ok sample_split"
  by (simp add: split_ok_def sample_split_def)

text \<open>The second of two servers.\<close>

theorem servers_form_cluster_witness:
  "\<exists>options. main_options sample_split sample_inet_addr (server_group_options ''db'') ''10:5000'' ''11:5000,10:5000'' = Some options \<and>
    length (opt_groups options) = 3"
proof -
  have port: "to_string 5000 = ''5000''" by (simp add: to_string_eval)
  have written: "write_address (''10'', 5000) = ''10:5000''" "write_addresses [(''11'', 5000), (''10'', 5000)] = ''11:5000,10:5000''"
    by (simp_all add: write_address_def port)
  let ?as = "[(''11'', 5000 :: u16), (''10'', 5000)]"
  have "\<forall>a \<in> set ?as. plain_host (fst a)" "(''10'', 5000) \<in> set ?as" by (simp_all add: plain_host_def)
  moreover have "opt_membership (server_group_options ''db'') = []"
    by (simp add: server_group_options_def GroupOptions_default_def)
  ultimately have "\<exists>options. main_options sample_split sample_inet_addr (server_group_options ''db'')
      (write_address (''10'', 5000)) (write_addresses ?as) = Some options \<and> length (opt_groups options) = 3"
    using servers_form_cluster [OF sample_split_ok, of ?as "(''10'', 5000)" "server_group_options ''db''" sample_inet_addr] by blast
  then show ?thesis unfolding written .
qed

definition sample_client :: client where
  "sample_client = (JourneyClient_new ''10:6000'' [''put k:v'', ''quit''])\<lparr>words := [''get'', '' k'']\<rparr>"

text \<open>A call that timed out; the next command is read.\<close>

theorem callbacks_issue_one_witness:
  "goes_on sample_split sample_client (handle sample_split (Call_failed ERROR_CODE_TIMEOUT) sample_client) \<and>
   handle sample_split Closed sample_client = Some Crashed"
  using callbacks_issue_one [OF sample_split_ok, of sample_client "Call_failed ERROR_CODE_TIMEOUT"]
    callbacks_issue_one [OF sample_split_ok, of sample_client Closed]
  by (simp add: sample_client_def JourneyClient_new_def waits_for_def)

text \<open>The client of server 10 is sent to server 11, on port 6000.\<close>

theorem redirect_reaches_master_witness:
  "\<exists>c'. Done sample_split (responses (answer_not_master (0, 0) (Some (member_at sample_inet_addr (''11'', 5000), 3)) 0
        \<lparr>jdb = (), responses = \<lambda>_. ResponseMessage_default, done_runs = [], base = ()\<rparr>) 0) sample_client = Some (Running c') \<and>
     connects c' = [(''11'', 6000, \<lparr>rq_type = PROPOSE_TYPE_GET, rq_key = bytes_of '' k'', rq_value = []\<rparr>)]"
proof -
  let ?o = "(Options_default 0 0)\<lparr>opt_my := member_at sample_inet_addr (''11'', 5000)\<rparr>"
  have "plain_host (host_of (opt_my ?o))" by (simp add: plain_host_def member_at_def)
  moreover have "CreateNewRequest (words sample_client) =
      Some (True, \<lparr>rq_type = PROPOSE_TYPE_GET, rq_key = bytes_of '' k'', rq_value = []\<rparr>)"
    by (simp add: CreateNewRequest_def sample_client_def)
  ultimately show ?thesis
    using redirect_reaches_master [OF sample_split_ok _ _ refl, of ?o sample_client _ "(0, 0)" 3 0
        "\<lparr>jdb = (), responses = \<lambda>_. ResponseMessage_default, done_runs = [], base = ()\<rparr>"]
    by (auto simp: sample_client_def JourneyClient_new_def server_address_def member_at_def)
qed

end
