(* ===== verification/Spec2Isabelle.thy ===== *)
theory Spec2Isabelle
  imports Evidence JourneyEvidence
begin

text \<open>
  \<^bold>\<open>Skywalker: a verification development.\<close>

  Skywalker (\<^verbatim>\<open>src/\<close>) is a C++ library that replicates state machines with Multi-Paxos. A
  node runs several groups; each group is a sequence of Paxos instances, and each chosen value is
  executed by the state machine it names. This development translates the library into
  executable definitions and proves what its parts promise each other. The other theories hold
  the definitions and the theorems; this one is the entry point and the documentation.

  \<^bold>\<open>The program and the theories that model it.\<close>

  \<^item> \<open>Prelude\<close>: the machine integers as words, and the lemma collections \<open>op_defs\<close>
    (definitions unfolded to evaluate a run) and \<open>frame_simps\<close>. \<open>Decimals\<close>: numbers as text,
    the parts of the C and C++ libraries the sources use.
  \<^item> \<open>Ballot\<close>: \<^verbatim>\<open>paxos/ballot_number.h\<close>, ballots with their six comparisons, an
    instance of \<^verbatim>\<open>linorder\<close>. \<open>Proto\<close>: the messages of \<^verbatim>\<open>proto/paxos.proto\<close> as
    records and datatypes. \<open>Slices\<close>: \<^verbatim>\<open>Slice\<close> and \<^verbatim>\<open>Status\<close>, the latter down to
    the byte layout of its state.
  \<^item> \<open>Env\<close>: the options and the constants of a group, and the record \<open>env\<close> of the
    functions the sources call but do not contain: LevelDB, Protobuf, the coding and CRC routines
    of Voyager, the user's machines and cluster object, the operating system. Every definition
    takes the record as an argument. What is relied on of it is stated in named predicates
    (\<open>coding_ok\<close>, \<open>leveldb_ok\<close>, \<open>stdio_ok\<close>, \<open>append_ok\<close>, \<open>array_codec_ok\<close> and the other
    codec predicates, \<open>alloc_ok\<close>), which theorems take as hypotheses.
  \<^item> \<open>Storage\<close>: \<^verbatim>\<open>storage/db.cc\<close> and \<^verbatim>\<open>write_batch.cc\<close>, with the comparator that
    puts the reserved key last. \<open>Files\<close>: \<^verbatim>\<open>util/file.cc\<close>. \<open>Timers\<close>:
    \<^verbatim>\<open>util/timerlist.cc\<close> and the queue and timers of \<^verbatim>\<open>util/runloop.cc\<close>, whose
    loop is in \<open>Loops\<close>. \<open>LoopThreads\<close>: \<^verbatim>\<open>util/runloop_thread.cc\<close>. \<open>Rand\<close>:
    \<^verbatim>\<open>util/random.h\<close>. \<open>Logging\<close>: \<^verbatim>\<open>util/logging.cc\<close>, the levels an instance of
    \<^verbatim>\<open>linorder\<close>.
  \<^item> \<open>Machines\<close>: \<^verbatim>\<open>machine/state_machine.cc\<close> and the two built-in machines
    (membership and master). \<open>Manager\<close>: \<^verbatim>\<open>machine/machine_manager.cc\<close>, the registry
    and the life cycle of checkpoints. \<open>Logs\<close>: \<^verbatim>\<open>log/log_manager.cc\<close> and
    \<^verbatim>\<open>log_cleaner.cc\<close>. \<open>Configs\<close>: \<^verbatim>\<open>paxos/config.cc\<close>, and \<^verbatim>\<open>DB::Open\<close>.
  \<^item> \<open>ProposeQueue\<close>, \<open>Node\<close>, \<open>Acceptors\<close>, \<open>Proposers\<close>, \<open>Learners\<close>,
    \<open>Instances\<close>, \<open>PaxosGroup\<close>: the files of these names under \<^verbatim>\<open>paxos/\<close>, with
    \<^verbatim>\<open>counter.cc\<close> and \<^verbatim>\<open>network/messager.cc\<close> in \<open>Node\<close>. The state of a group is
    one record, built by extension along the ownership of the C++ objects: \<open>world\<close>,
    \<open>mach\<close> (MachineManager), \<open>logs\<close> (LogManager), \<open>node\<close> (Instance and its parts),
    \<open>group\<close> (Group).
  \<^item> \<open>Receiving\<close>, \<open>Sending\<close>: \<^verbatim>\<open>log/checkpoint_receiver.cc\<close>,
    \<^verbatim>\<open>checkpoint_sender.cc\<close> and \<^verbatim>\<open>checkpoint_manager.cc\<close>. \<open>Networks\<close>:
    \<^verbatim>\<open>network/network.cc\<close>.
  \<^item> \<open>Threads\<close>: \<^verbatim>\<open>paxos/threadpool.cc\<close>. \<open>Nodes\<close>: \<^verbatim>\<open>paxos/node_impl.cc\<close>
    and \<^verbatim>\<open>node_util.cc\<close>, a node with its groups and their loops.
  \<^item> \<open>Journey\<close>: the server of \<^verbatim>\<open>examples/journey\<close>, a key-value store on top of a node:
    \<^verbatim>\<open>journey_db.cc\<close>, \<^verbatim>\<open>journey_db_machine.cc\<close> and \<^verbatim>\<open>journey_service_impl.cc\<close>. Its
    machine is that of the user in the environment \<open>journey_env\<close>. \<open>ServerMain\<close>: the programs
    \<^verbatim>\<open>journey_server.cc\<close> and \<^verbatim>\<open>examples/echo/echo.cc\<close>.
    \<open>Client\<close>: \<^verbatim>\<open>journey_client.cc\<close>.

  \<^bold>\<open>How the parts interact.\<close> A content from the network is queued on the io loop of its group,
  which runs \<^verbatim>\<open>Instance::OnContent\<close>: the message goes to the acceptor, the proposer or the
  learner, and \<^verbatim>\<open>CheckLearn\<close> executes a value that was learned and moves to the next
  instance. A message that a role sends to its own node is handled at once by a nested call of
  \<^verbatim>\<open>OnPaxosMessage\<close>; in the model the roles take this call as an argument, and
  \<open>Instances\<close> closes the recursion with the phases a message passes through as its measure,
  which proves that the nested deliveries end. Messages to other nodes are appended to the field
  \<open>net\<close>, closures to the queues of the loops, callbacks to the callback loop.
  \<^verbatim>\<open>assert\<close>, \<^verbatim>\<open>abort\<close> and \<^verbatim>\<open>_exit\<close> set the flag \<open>aborted\<close>, after which
  the state has no meaning; undefined behaviour and exceptions that escape are \<^const>\<open>None\<close>.

  \<^bold>\<open>Interfaces.\<close> \<open>Handlers\<close> states as locales what a property of a handler needs from
  the operations of the roles. \<open>handler_relation\<close> has the laws of the single operations for a
  relation between the state before and after, and derives the law of the whole of
  \<^verbatim>\<open>OnPaxosMessage\<close>, nested deliveries included; it is interpreted on the operations of the
  model for the votes and the instance (\<open>Safety\<close>) and for the log on disk
  (\<open>Durability\<close>). Its extension \<open>handler_invariant\<close> is interpreted for the queue of
  proposals and their callbacks (\<open>Proposals\<close>), for the messages sent (\<open>Agreement\<close>) and for the
  queue of the io loop (\<open>Loops\<close>). \<open>event_loop\<close>, in \<open>Loops\<close>, is what a loop asks of the
  closures it runs, stated over what they run and what they add to the queue; it is interpreted for
  the io loop. \<open>log_store\<close>, in \<open>Storage\<close>, is the
  contract of the database its clients rely on, interpreted on the operations of \<^verbatim>\<open>DB\<close>.
  \<open>replicated_machine\<close>, in \<open>Execution\<close>, is what replication asks of a state machine: a view of its
  state on which executing a value acts as a function, and which the other operations keep; it is
  interpreted for the machine of the key-value store, and \<open>Solo\<close> and \<open>Pairs\<close> rest on it.

  \<^bold>\<open>What is shown.\<close>

  \<^item> Agreement: over the guarded runs of a group, in which messages are lost, repeated and
    reordered, the logs of any two members hold the same value for every instance that both have
    passed (\<open>Agreement\<close>). \<open>Consensus\<close> is the abstract specification: a history of promises, proposals
    and votes, what makes it safe, and that it then chooses one value per instance. \<open>Cluster\<close>
    relates the state of a node and every message to the history, \<open>Replication\<close> proves that
    every handler of the code is a step of it. The guards of the runs exclude what the code does
    not protect itself against: replies of an earlier round, a ballot used for a second value
    after a timeout, messages of the next instance taken as evidence, and counters that
    wrap around; that the second of them happens is a theorem of its own. The runs also leave out
    crashes and restarts, membership changes, the garbage collection of the log and the installation
    of checkpoints: a step that is not of the protocol keeps the store.
  \<^item> Replicated state: what a machine holds is at any time the replay of its member's log, hence two
    members at the same instance hold the same (\<open>Execution\<close>, over the same guarded runs); for
    the key-value store, per group and key, whatever the other groups do (\<open>Journey\<close>).
  \<^item> One node: promises and accepted ballots never decrease, whatever arrives (\<open>Safety\<close>);
    what the acceptor answers to a prepare and an accept, and that a vote survives a crash
    (\<open>Voting\<close>); through any message the log holds no instance beyond the current one
    and no record that has accepted more than it promised, and recovery ends in a ready node
    (\<open>Durability\<close>); the value a proposer adopts is that of the highest ballot reported
    (\<open>Rounds\<close>).
  \<^item> Progress: in a group of one member a proposal is chosen, executed and answered before
    \<^verbatim>\<open>OnPropose\<close> returns, and the node is ready for the next one (\<open>Solo\<close>). A group of two has
    a guarded run that takes a proposal from the prepare to its execution by both members
    (\<open>Pairs\<close>).
  \<^item> Clients: over any interleaving of the threads of a started group, every proposal that was
    taken is answered once and in order, each callback is paired with the closure of its own
    proposal, and the assertions of the queue hold
    (\<open>Proposals\<close>, a step relation with an invariant by rule induction). A node that has
    started satisfies what this assumes (\<open>Startup\<close>).
  \<^item> Storage: the scan for the largest instance (\<open>Storage\<close>), replay and garbage
    collection (\<open>Logs\<close>), files read back as written (\<open>Files\<close>), checkpoints of the
    built-in machines below 2 GiB read back and refused for another group or instance
    (\<open>Machines\<close>), which
    checkpoints cleaning keeps (\<open>Manager\<close>).
  \<^item> Network: frames survive any segmentation of the stream, and a multicast is handed once to every
    other member but one whose connection is still being made, which gets nothing (\<open>Networks\<close>);
    the files of a checkpoint that are not empty are received as they were sent
    (\<open>Transmission\<close>, both ends against a specification of what a message sequence stands for).
  \<^item> Start-up: the directories of the groups are distinct (\<open>Configs\<close>), every group gets
    loops round robin, node ids are packed and unpacked
    (\<open>Nodes\<close>).
  \<^item> The key-value store: a request is answered once, a get with what the database holds; replaying
    the log on a database that has kept a part of it gives the same contents (\<open>Journey\<close>). Servers
    started with one list of addresses form one cluster (\<open>ServerMain\<close>). The client issues one
    request at a time, returns from every callback as long as there is a \<^verbatim>\<open>quit\<close> to read, but
    for the one of a closed connection, which always crashes, and
    follows a redirection to the address the master listens on (\<open>Client\<close>).
  \<^item> Utilities: the containers of the timers agree at all times
    (\<open>Timers\<close>), the due timers of the clean loop end, and the io loop runs its closures in the order
    they were queued and loses none (\<open>Loops\<close>), when the shutdown of a loop thread completes
    (\<open>LoopThreads\<close>), what a message to the log prints (\<open>Logging\<close>), statuses read back
    (\<open>Slices\<close>), the random generator computes the residue it stands for (\<open>Rand\<close>).

  Some theorems state what the code does where that is not what it means to do: a failed file
  hidden in a transfer, the order of the checkpoint vector after cleaning, a request to exit that a
  loop does not see. \<open>Samples\<close> gives a concrete environment, \<open>Evidence\<close> and \<open>JourneyEvidence\<close>
  apply the theorems that have hypotheses to concrete states on it.

  \<^bold>\<open>Bounds, loops and fuel.\<close> Integers are words of their C++ width and wrap around. Loops that
  run over a list or a counter are structurally recursive or have a measure
  (\<^verbatim>\<open>ASyncSend\<close>, \<^verbatim>\<open>OnMessage\<close> of the network, the nested deliveries). Loops nothing
  bounds are option-valued partial functions: reading a file, sending a file, the due timers, the
  lines and commands the client reads; for each a theorem shows that it returns under hypotheses on the system calls or the input, and
  for the due timers with the callbacks of the clean loop. No definition has fuel. A wait of the checkpoint sender for confirmations consumes a list of
  events, after which it times out, as the code does after ten seconds.

  \<^bold>\<open>Concurrency.\<close> The closures of a loop run one after another in its thread; the step relation of
  \<open>Proposals\<close> interleaves whole closures of the loops, calls of users and timers. The master
  thread blocks in \<^verbatim>\<open>TryBeMaster\<close>, which is split at the wait. Data races between threads
  within one closure are not modelled. \<open>LoopThreads\<close> interleaves the accesses of two threads to
  what they share.

  \<^bold>\<open>Not modelled.\<close> \<^verbatim>\<open>util/coding.h\<close> forwards to Voyager. The server of
  \<^verbatim>\<open>Network::StartServer\<close>, the TCP connections and the RPC channels belong to Voyager; the code
  only configures them. Files \<^verbatim>\<open>include/skywalker/file.h\<close> and \<^verbatim>\<open>node.h\<close> declare what
  \<open>Files\<close> and \<open>Nodes\<close> define. The test under \<^verbatim>\<open>paxos/tests/\<close> is left out.
\<close>

end
